(* ===== verification/JsPrelude.thy ===== *)
theory JsPrelude
  imports Complex_Main "HOL-Library.Word"
begin

text \<open>
  What the components share: the data of the language the code is written in, and the generic
  lemmas their proofs rest on.

  \<^item> A string is a list of UTF-16 code units (\<open>16 word list\<close>), so that \<open>length\<close>, \<open>slice\<close> and the
    regular expressions of the code count what the language counts; \<open>js\<close> embeds ASCII literals.
  \<^item> A number is a \<open>jsnum\<close>: a finite value, one of the two infinities or not-a-number. Finite
    values are exact rationals: rounding of doubles is not modelled.
  \<^item> A value decoded from JSON, or of type \<open>unknown\<close>, is a \<open>json\<close>; an absent property
    (\<open>undefined\<close>) is the \<open>None\<close> of \<open>jget\<close>.
  \<^item> A \<open>Map\<close> iterates in insertion order, so it is an association list (\<open>map_set\<close>, \<open>map_delete\<close>,
    \<open>map_get\<close>); the locale \<open>keyed_store\<close> states what its clients use of it.
  \<^item> The ready states of a web socket are a linear order, as \<open>readyState < CLOSING\<close> needs.
\<close>

named_theorems js_eval \<open>definitions of string and number operations, for evaluation\<close>
named_theorems packet_simps \<open>lengths and layout of encoded byte sequences\<close>
named_theorems state_defs \<open>operations of a component's state machine, unfolded in its proofs\<close>

section \<open>Bytes and strings\<close>

type_synonym u8 = "8 word"
type_synonym u16 = "16 word"
type_synonym bytes = "u8 list"
type_synonym jsstring = "u16 list"

definition js :: "string \<Rightarrow> jsstring" where
  [js_eval]: "js s = map of_char s"

lemma js_Nil [simp]: "js [] = []"
  by (simp add: js_def)

lemma length_js [simp]: "length (js s) = length s"
  by (simp add: js_def)

lemma js_append: "js (s @ t) = js s @ js t"
  by (simp add: js_def)

lemma js_eq_Nil [simp]: "js s = [] \<longleftrightarrow> s = []"
  by (simp add: js_def)

lemma of_char_less_256 [simp]: "(of_char c :: nat) < 256"
  by (metis of_char_mod_256 mod_less_divisor zero_less_numeral)

lemma of_char_less_65536 [simp]: "(of_char c :: nat) < 65536"
  using of_char_less_256 [of c] by linarith

lemma unat_of_nat_u16 [simp]: "n < 65536 \<Longrightarrow> unat (of_nat n :: u16) = n"
  by (simp add: unat_of_nat)

lemma unat_of_nat_u8 [simp]: "n < 256 \<Longrightarrow> unat (of_nat n :: u8) = n"
  by (simp add: unat_of_nat)

lemma unat_u16_less: "unat (w :: u16) < 65536"
  by (rule less_le_trans [OF unsigned_less]) simp

lemma unat_u8_less: "unat (b :: u8) < 256"
  by (rule less_le_trans [OF unsigned_less]) simp

lemma unat_of_char [simp]: "unat (of_char c :: u16) = of_char c"
proof -
  have "(of_char c :: nat) < 65536"
    using of_char_less_256 [of c] by linarith
  then have "unat (of_nat (of_char c) :: u16) = of_char c"
    by (rule unat_of_nat_u16)
  then show ?thesis by (simp only: of_nat_of_char)
qed

lemma of_char_u16_inj [simp]: "(of_char c :: u16) = of_char d \<longleftrightarrow> c = d"
  by (metis of_char_eq_iff unat_of_char)

lemma js_inj [simp]: "js s = js t \<longleftrightarrow> s = t"
  by (simp add: js_def inj_map_eq_map inj_def)


text \<open>String operations of the language, on code units; \<open>has_substring p s\<close> is \<open>s.includes(p)\<close>.\<close>

definition slice :: "jsstring \<Rightarrow> nat \<Rightarrow> nat \<Rightarrow> jsstring" where
  [js_eval]: "slice s a b = take (b - a) (drop a s)"

text \<open>The white space of \<open>trim\<close> and of the class \<open>\s\<close>: the same set of code units.\<close>

definition is_space :: "u16 \<Rightarrow> bool" where
  [js_eval]: "is_space c \<longleftrightarrow> c \<in> {9, 10, 11, 12, 13, 32, 0xA0, 0x1680, 0x2028, 0x2029, 0x202F, 0x205F,
      0x3000, 0xFEFF} \<or> (0x2000 \<le> c \<and> c \<le> 0x200A)"

definition trim_start :: "jsstring \<Rightarrow> jsstring" where
  [js_eval]: "trim_start s = dropWhile is_space s"

definition trim_end :: "jsstring \<Rightarrow> jsstring" where
  [js_eval]: "trim_end s = rev (dropWhile is_space (rev s))"

definition trim :: "jsstring \<Rightarrow> jsstring" where
  [js_eval]: "trim s = trim_end (trim_start s)"

definition starts_with :: "jsstring \<Rightarrow> jsstring \<Rightarrow> bool" where
  [js_eval]: "starts_with p s \<longleftrightarrow> take (length p) s = p"

fun has_substring :: "jsstring \<Rightarrow> jsstring \<Rightarrow> bool" where
  "has_substring p [] = (p = [])"
| "has_substring p (c # s) = (starts_with p (c # s) \<or> has_substring p s)"

text \<open>\<open>split\<close> at every code unit of a class, and \<open>join\<close>.\<close>

fun split_on :: "(u16 \<Rightarrow> bool) \<Rightarrow> jsstring \<Rightarrow> jsstring list" where
  "split_on sep [] = [[]]"
| "split_on sep (c # s) =
     (if sep c then [] # split_on sep s
      else (case split_on sep s of [] \<Rightarrow> [[c]] | w # ws \<Rightarrow> (c # w) # ws))"

fun join :: "jsstring \<Rightarrow> jsstring list \<Rightarrow> jsstring" where
  "join sep [] = []"
| "join sep [w] = w"
| "join sep (w # ws) = w @ sep @ join sep ws"

lemma length_slice [simp]: "length (slice s a b) = min (b - a) (length s - a)"
  by (simp add: slice_def)

lemma slice_0_length [simp]: "length s \<le> b \<Longrightarrow> slice s 0 b = s"
  by (simp add: slice_def)

lemma set_slice_subset: "set (slice s a b) \<subseteq> set s"
  unfolding slice_def by (meson order_trans set_drop_subset set_take_subset)

lemma length_trim_end [simp]: "length (trim_end s) \<le> length s"
  unfolding trim_end_def using length_dropWhile_le [of is_space "rev s"] by simp

lemma length_trim [simp]: "length (trim s) \<le> length s"
  unfolding trim_def trim_start_def
  using length_trim_end [of "dropWhile is_space s"] length_dropWhile_le [of is_space s] by linarith

lemma trim_end_last: "trim_end s \<noteq> [] \<Longrightarrow> \<not> is_space (last (trim_end s))"
  unfolding trim_end_def by (simp add: last_rev hd_dropWhile)

lemma trim_end_Nil_iff: "trim_end s = [] \<longleftrightarrow> list_all is_space s"
  by (simp add: trim_end_def list_all_iff)

lemma trim_end_Cons: "\<not> is_space c \<Longrightarrow> trim_end (c # s) = c # trim_end s"
  by (simp add: trim_end_def dropWhile_append)

lemma trim_not_Nil: "trim s \<noteq> [] \<Longrightarrow> \<exists>c r. trim s = c # r \<and> \<not> is_space c"
proof -
  assume "trim s \<noteq> []"
  then have "dropWhile is_space s \<noteq> []"
    by (metis dropWhile.simps(1) rev.simps(1) trim_def trim_end_def trim_start_def)
  then obtain c r where "dropWhile is_space s = c # r" "\<not> is_space c"
    by (metis hd_dropWhile list.exhaust_sel)
  then show ?thesis unfolding trim_def trim_start_def by (simp add: trim_end_Cons)
qed

lemma has_substring_iff: "has_substring p s \<longleftrightarrow> (\<exists>a b. s = a @ p @ b)"
proof (induction s)
  case Nil
  then show ?case by simp
next
  case (Cons c s)
  have "starts_with p (c # s) \<longleftrightarrow> (\<exists>b. c # s = p @ b)"
    unfolding starts_with_def by (metis append_eq_conv_conj append_take_drop_id)
  then show ?case using Cons.IH by (auto simp: Cons_eq_append_conv)
qed

lemma split_on_not_Nil [simp]: "split_on sep s \<noteq> []"
  by (induction s) (auto split: list.splits)

lemma join_split_on:
  "(\<And>c. c \<in> set s \<Longrightarrow> sep c \<longleftrightarrow> c = d) \<Longrightarrow> join [d] (split_on sep s) = s"
proof (induction s)
  case Nil
  then show ?case by simp
next
  case (Cons c s)
  then show ?case
    by (cases "split_on sep s"; cases "tl (split_on sep s)") auto
qed

lemma split_on_snoc:
  "split_on sep (s @ [c]) =
     (if sep c then split_on sep s @ [[]] else butlast (split_on sep s) @ [last (split_on sep s) @ [c]])"
  by (induction s) (auto split: list.splits simp: butlast_append)

lemma last_split_on: "last (split_on sep s) = rev (takeWhile (\<lambda>c. \<not> sep c) (rev s))"
  by (induction s rule: rev_induct) (auto simp: split_on_snoc)

section \<open>Numbers\<close>

datatype jsnum = Fin rat | PosInf | NegInf | NaN

definition num_is_finite :: "jsnum \<Rightarrow> bool" where
  [js_eval]: "num_is_finite n = (case n of Fin _ \<Rightarrow> True | _ \<Rightarrow> False)"

definition num_is_integer :: "jsnum \<Rightarrow> bool" where
  [js_eval]: "num_is_integer n = (case n of Fin r \<Rightarrow> of_int \<lfloor>r\<rfloor> = r | _ \<Rightarrow> False)"

text \<open>The value of an integral number; only used below a test that it is one.\<close>

definition num_int :: "jsnum \<Rightarrow> int" where
  [js_eval]: "num_int n = (case n of Fin r \<Rightarrow> \<lfloor>r\<rfloor> | _ \<Rightarrow> 0)"

fun num_less :: "jsnum \<Rightarrow> jsnum \<Rightarrow> bool" where
  "num_less (Fin a) (Fin b) = (a < b)"
| "num_less (Fin a) PosInf = True"
| "num_less NegInf (Fin b) = True"
| "num_less NegInf PosInf = True"
| "num_less _ _ = False"

abbreviation fin_int :: "int \<Rightarrow> jsnum" where
  "fin_int i \<equiv> Fin (of_int i)"

abbreviation fin_nat :: "nat \<Rightarrow> jsnum" where
  "fin_nat n \<equiv> Fin (of_nat n)"

lemma num_is_integer_of_nat [simp]: "num_is_integer (fin_nat n)"
  by (simp add: num_is_integer_def)

lemma num_int_of_nat [simp]: "num_int (fin_nat n) = int n"
  by (simp add: num_int_def)

lemma num_is_integer_of_int [simp]: "num_is_integer (fin_int i)"
  by (simp add: num_is_integer_def)

lemma num_int_of_int [simp]: "num_int (fin_int i) = i"
  by (simp add: num_int_def)

section \<open>Decoded JSON values\<close>

datatype json = JNull | JBool bool | JNum jsnum | JStr jsstring | JArr "json list"
  | JObj "(jsstring \<times> json) list"

text \<open>\<open>typeof value === "object" && value !== null && !Array.isArray(value)\<close>, the guard
  \<open>isRecord\<close> that \<open>index.ts\<close>, \<open>main.ts\<close> and \<open>terminal-history.ts\<close> each declare.\<close>

definition isRecord :: "json \<Rightarrow> bool" where
  "isRecord v = (case v of JObj _ \<Rightarrow> True | _ \<Rightarrow> False)"

definition jget :: "json \<Rightarrow> jsstring \<Rightarrow> json option" where
  "jget v k = (case v of JObj ps \<Rightarrow> map_of ps k | _ \<Rightarrow> None)"

abbreviation prop_of :: "json \<Rightarrow> string \<Rightarrow> json option" where
  "prop_of v k \<equiv> jget v (js k)"

text \<open>\<open>typeof x === "string"\<close> and its kin, on a property that may be \<open>undefined\<close>.\<close>

fun as_string :: "json option \<Rightarrow> jsstring option" where
  "as_string (Some (JStr s)) = Some s"
| "as_string _ = None"

fun as_number :: "json option \<Rightarrow> jsnum option" where
  "as_number (Some (JNum n)) = Some n"
| "as_number _ = None"

fun as_boolean :: "json option \<Rightarrow> bool option" where
  "as_boolean (Some (JBool b)) = Some b"
| "as_boolean _ = None"

definition jmsg :: "(string \<times> json) list \<Rightarrow> json" where
  "jmsg ps = JObj (map (\<lambda>(k, v). (js k, v)) ps)"

abbreviation jstr :: "string \<Rightarrow> json" where
  "jstr s \<equiv> JStr (js s)"

abbreviation jint :: "int \<Rightarrow> json" where
  "jint i \<equiv> JNum (fin_int i)"

lemma isRecord_simps [simp]:
  "isRecord (JObj ps)" "\<not> isRecord JNull" "\<not> isRecord (JBool b)" "\<not> isRecord (JNum n)"
  "\<not> isRecord (JStr s)" "\<not> isRecord (JArr vs)" "isRecord (jmsg qs)"
  by (simp_all add: isRecord_def jmsg_def)

lemma jget_JObj [simp]: "jget (JObj ps) k = map_of ps k"
  by (simp add: jget_def)

lemma prop_of_jmsg [simp]: "jget (jmsg ps) (js k) = map_of ps k"
  by (induction ps) (auto simp: jmsg_def)

lemma as_string_eq_Some [simp]: "as_string v = Some s \<longleftrightarrow> v = Some (JStr s)"
  by (cases v rule: as_string.cases) auto

lemma as_number_eq_Some [simp]: "as_number v = Some n \<longleftrightarrow> v = Some (JNum n)"
  by (cases v rule: as_number.cases) auto

lemma as_boolean_eq_Some [simp]: "as_boolean v = Some b \<longleftrightarrow> v = Some (JBool b)"
  by (cases v rule: as_boolean.cases) auto

section \<open>Insertion-ordered maps\<close>

type_synonym ('k, 'v) jsmap = "('k \<times> 'v) list"

abbreviation map_get :: "('k, 'v) jsmap \<Rightarrow> 'k \<Rightarrow> 'v option" where
  "map_get m k \<equiv> map_of m k"

fun map_set :: "'k \<Rightarrow> 'v \<Rightarrow> ('k, 'v) jsmap \<Rightarrow> ('k, 'v) jsmap" where
  "map_set k v [] = [(k, v)]"
| "map_set k v ((k', v') # m) = (if k = k' then (k, v) # m else (k', v') # map_set k v m)"

definition map_delete :: "'k \<Rightarrow> ('k, 'v) jsmap \<Rightarrow> ('k, 'v) jsmap" where
  "map_delete k m = filter (\<lambda>(k', _). k' \<noteq> k) m"

text \<open>What a client of a keyed store relies on.\<close>

locale keyed_store =
  fixes get :: "'m \<Rightarrow> 'k \<Rightarrow> 'v option"
    and put :: "'k \<Rightarrow> 'v \<Rightarrow> 'm \<Rightarrow> 'm"
    and del :: "'k \<Rightarrow> 'm \<Rightarrow> 'm"
    and none :: 'm
  assumes get_none: "get none k = None"
    and get_put: "get (put k v m) k' = (if k' = k then Some v else get m k')"
    and get_del: "get (del k m) k' = (if k' = k then None else get m k')"
begin

lemma get_put_same [simp]: "get (put k v m) k = Some v"
  by (simp add: get_put)

lemma get_put_other [simp]: "k' \<noteq> k \<Longrightarrow> get (put k v m) k' = get m k'"
  by (simp add: get_put)

lemma get_del_same [simp]: "get (del k m) k = None"
  by (simp add: get_del)

lemma get_del_other [simp]: "k' \<noteq> k \<Longrightarrow> get (del k m) k' = get m k'"
  by (simp add: get_del)

lemma dom_put [simp]: "dom (get (put k v m)) = insert k (dom (get m))"
  by (auto simp: get_put split: if_splits)

lemma dom_del [simp]: "dom (get (del k m)) = dom (get m) - {k}"
  by (auto simp: get_del split: if_splits)

lemma get_del_put: "k' \<noteq> k \<Longrightarrow> get (del k (put k v m)) k' = get m k'"
  by simp

end

lemma map_of_map_set [simp]: "map_of (map_set k v m) = (map_of m)(k \<mapsto> v)"
  by (induction k v m rule: map_set.induct) (auto simp: fun_eq_iff)

lemma map_of_map_delete [simp]: "map_of (map_delete k m) = (map_of m)(k := None)"
  by (induction m) (auto simp: map_delete_def fun_eq_iff)

interpretation js_map: keyed_store map_of map_set map_delete "[]"
  by unfold_locales auto

lemma keys_map_set: "fst ` set (map_set k v m) = insert k (fst ` set m)"
  by (induction k v m rule: map_set.induct) auto

lemma distinct_map_set: "distinct (map fst m) \<Longrightarrow> distinct (map fst (map_set k v m))"
  by (induction k v m rule: map_set.induct) (auto simp: keys_map_set image_iff[symmetric] simp flip: image_set)

lemma keys_map_delete: "map fst (map_delete k m) = filter (\<lambda>k'. k' \<noteq> k) (map fst m)"
  by (induction m) (auto simp: map_delete_def)

lemma distinct_map_delete: "distinct (map fst m) \<Longrightarrow> distinct (map fst (map_delete k m))"
  by (simp add: keys_map_delete)

section \<open>Runs\<close>

text \<open>A component handles its events one after another; the outputs are collected in order.\<close>

fun run_steps :: "('s \<Rightarrow> 'e \<Rightarrow> 's \<times> 'o list) \<Rightarrow> 's \<Rightarrow> 'e list \<Rightarrow> 's \<times> 'o list" where
  "run_steps step s [] = (s, [])"
| "run_steps step s (e # es) =
     (let (s1, outs) = step s e; (s2, outs') = run_steps step s1 es in (s2, outs @ outs'))"

lemma run_steps_Cons [simp]:
  "fst (run_steps step s (e # es)) = fst (run_steps step (fst (step s e)) es)"
  "snd (run_steps step s (e # es)) = snd (step s e) @ snd (run_steps step (fst (step s e)) es)"
  by (simp_all add: case_prod_beta Let_def)

declare run_steps.simps(2) [simp del]

lemma run_steps_append:
  "fst (run_steps step s (es @ fs)) = fst (run_steps step (fst (run_steps step s es)) fs)"
  "snd (run_steps step s (es @ fs)) =
     snd (run_steps step s es) @ snd (run_steps step (fst (run_steps step s es)) fs)"
  by (induction es arbitrary: s) simp_all

lemma run_steps_invariant:
  "I s \<Longrightarrow> (\<And>s e. I s \<Longrightarrow> I (fst (step s e))) \<Longrightarrow> I (fst (run_steps step s es))"
  by (induction es arbitrary: s) simp_all

text \<open>One operation after another on the state that the first leaves, the outputs in order.\<close>

definition and_then :: "'s \<times> 'o list \<Rightarrow> ('s \<Rightarrow> 's \<times> 'o list) \<Rightarrow> 's \<times> 'o list" where
  "and_then r f = (let (s, outs) = r; (s', outs') = f s in (s', outs @ outs'))"

lemma and_then_simps [simp]:
  "fst (and_then r f) = fst (f (fst r))"
  "snd (and_then r f) = snd r @ snd (f (fst r))"
  by (simp_all add: and_then_def case_prod_beta Let_def)

section \<open>Web sockets as the code sees them\<close>

datatype ready_state = CONNECTING | OPEN | CLOSING | CLOSED

fun ready_num :: "ready_state \<Rightarrow> nat" where
  "ready_num CONNECTING = 0"
| "ready_num OPEN = 1"
| "ready_num CLOSING = 2"
| "ready_num CLOSED = 3"

lemma ready_num_inj [simp]: "ready_num a = ready_num b \<longleftrightarrow> a = b"
  by (cases a; cases b) auto

instantiation ready_state :: linorder
begin

definition less_eq_ready_state :: "ready_state \<Rightarrow> ready_state \<Rightarrow> bool" where
  "less_eq_ready_state a b \<longleftrightarrow> ready_num a \<le> ready_num b"

definition less_ready_state :: "ready_state \<Rightarrow> ready_state \<Rightarrow> bool" where
  "less_ready_state a b \<longleftrightarrow> ready_num a < ready_num b"

instance
  by intro_classes (auto simp: less_eq_ready_state_def less_ready_state_def)

end

lemma less_CLOSING_iff: "r < CLOSING \<longleftrightarrow> r = CONNECTING \<or> r = OPEN"
  by (cases r) (simp_all add: less_ready_state_def)

text \<open>\<open>close(code)\<close> of a browser's web socket (WHATWG WebSockets): a code other than 1000 and
  3000 to 4999 raises \<open>InvalidAccessError\<close> before anything else happens; closing a socket that
  is closing or closed does nothing; otherwise the socket starts closing.\<close>

definition close_code_allowed :: "int \<Rightarrow> bool" where
  "close_code_allowed code \<longleftrightarrow> code = 1000 \<or> 3000 \<le> code \<and> code \<le> 4999"

definition browser_close :: "ready_state \<Rightarrow> int \<Rightarrow> ready_state option" where
  "browser_close r code =
     (if \<not> close_code_allowed code then None
      else Some (if r < CLOSING then CLOSING else r))"

end
