(* ===== verification/Utf8.thy ===== *)
theory Utf8
  imports JsPrelude
begin

text \<open>
  \<open>TextEncoder\<close> and \<open>TextDecoder\<close> (WHATWG Encoding, UTF-8), which the relay uses to bound a close
  reason and the packet layer to turn text into bytes. The encoder reads a string as Unicode scalar
  values, with U+FFFD for every unpaired surrogate; the decoder is the standard's state machine,
  which emits U+FFFD for each malformed sequence and looks at the offending byte again. The lemmas
  give the round trip on whole values and the decoding of a truncated last value.
\<close>

section \<open>Scalar values and code units\<close>

definition is_scalar :: "nat \<Rightarrow> bool" where
  "is_scalar n \<longleftrightarrow> n < 0x110000 \<and> \<not> (0xD800 \<le> n \<and> n \<le> 0xDFFF)"

definition is_high :: "u16 \<Rightarrow> bool" where
  [js_eval]: "is_high c \<longleftrightarrow> 0xD800 \<le> unat c \<and> unat c \<le> 0xDBFF"

definition is_low :: "u16 \<Rightarrow> bool" where
  [js_eval]: "is_low c \<longleftrightarrow> 0xDC00 \<le> unat c \<and> unat c \<le> 0xDFFF"

definition lone_scalar :: "u16 \<Rightarrow> nat" where
  [js_eval]: "lone_scalar c = (if is_high c \<or> is_low c then 0xFFFD else unat c)"

fun scalars :: "jsstring \<Rightarrow> nat list" where
  "scalars [] = []"
| "scalars [c] = [lone_scalar c]"
| "scalars (c # d # s) =
     (if is_high c \<and> is_low d
      then (0x10000 + (unat c - 0xD800) * 0x400 + (unat d - 0xDC00)) # scalars s
      else lone_scalar c # scalars (d # s))"

definition code_units :: "nat \<Rightarrow> jsstring" where
  [js_eval]: "code_units n =
     (if n < 0x10000 then [of_nat n]
      else [of_nat (0xD800 + (n - 0x10000) div 0x400), of_nat (0xDC00 + (n - 0x10000) mod 0x400)])"

lemma lone_scalar_is_scalar [simp]: "is_scalar (lone_scalar c)"
  using unat_u16_less [of c] by (auto simp: lone_scalar_def is_scalar_def is_high_def is_low_def)

lemma pair_is_scalar:
  "is_high c \<Longrightarrow> is_low d \<Longrightarrow> is_scalar (0x10000 + (unat c - 0xD800) * 0x400 + (unat d - 0xDC00))"
  unfolding is_high_def is_low_def is_scalar_def by linarith

lemma scalars_are_scalar: "n \<in> set (scalars s) \<Longrightarrow> is_scalar n"
  by (induction s rule: scalars.induct) (auto simp: pair_is_scalar split: if_splits)

lemma scalars_bmp:
  assumes "n < 0x10000" "is_scalar n"
  shows "scalars (of_nat n # s) = n # scalars s"
proof -
  have u: "unat (of_nat n :: u16) = n" using assms(1) by simp
  then have "\<not> is_high (of_nat n)" "lone_scalar (of_nat n) = n"
    using assms by (auto simp: is_high_def is_low_def lone_scalar_def is_scalar_def)
  then show ?thesis by (cases s) auto
qed

lemma scalars_pair:
  assumes "0x10000 \<le> n" "is_scalar n"
  shows "scalars (of_nat (0xD800 + (n - 0x10000) div 0x400) #
      of_nat (0xDC00 + (n - 0x10000) mod 0x400) # s) = n # scalars s"
proof -
  define h l where "h = (n - 0x10000) div 0x400" and "l = (n - 0x10000) mod 0x400"
  have "n < 0x110000" using assms(2) by (simp add: is_scalar_def)
  then have h: "h < 0x400" unfolding h_def by (simp add: div_less_iff_less_mult)
  have l: "l < 0x400" by (simp add: l_def)
  have e: "h * 0x400 + l = n - 0x10000" unfolding h_def l_def by (simp only: div_mult_mod_eq)
  have u: "unat (of_nat (0xD800 + h) :: u16) = 0xD800 + h"
    "unat (of_nat (0xDC00 + l) :: u16) = 0xDC00 + l"
    using h l by (auto intro!: unat_of_nat_u16 simp del: of_nat_add)
  then have "is_high (of_nat (0xD800 + h))" "is_low (of_nat (0xDC00 + l))"
    using h l by (simp_all add: is_high_def is_low_def del: of_nat_add)
  then have "scalars (of_nat (0xD800 + h) # of_nat (0xDC00 + l) # s) =
      (0x10000 + h * 0x400 + l) # scalars s"
    using u by (simp del: of_nat_add)
  then show ?thesis unfolding h_def [symmetric] l_def [symmetric]
    using e assms(1) by simp
qed

lemma scalars_code_units: "is_scalar n \<Longrightarrow> scalars (code_units n @ s) = n # scalars s"
  by (cases "n < 0x10000")
     (simp_all add: code_units_def scalars_bmp scalars_pair del: of_nat_add scalars.simps)

lemma scalars_concat_code_units:
  "(\<And>n. n \<in> set ns \<Longrightarrow> is_scalar n) \<Longrightarrow> scalars (concat (map code_units ns)) = ns"
  by (induction ns) (simp_all add: scalars_code_units)

section \<open>The encoder\<close>

definition utf8_scalar :: "nat \<Rightarrow> nat list" where
  [js_eval]: "utf8_scalar n =
     (if n < 0x80 then [n]
      else if n < 0x800 then [0xC0 + n div 64, 0x80 + n mod 64]
      else if n < 0x10000 then [0xE0 + n div 4096, 0x80 + n div 64 mod 64, 0x80 + n mod 64]
      else [0xF0 + n div 262144, 0x80 + n div 4096 mod 64, 0x80 + n div 64 mod 64, 0x80 + n mod 64])"

definition text_encode :: "jsstring \<Rightarrow> bytes" where
  [js_eval]: "text_encode s = map of_nat (concat (map utf8_scalar (scalars s)))"

lemma utf8_scalar_bytes: "is_scalar n \<Longrightarrow> b \<in> set (utf8_scalar n) \<Longrightarrow> b < 256"
  by (auto simp: utf8_scalar_def is_scalar_def div_less_iff_less_mult split: if_splits)

lemma length_utf8_scalar: "1 \<le> length (utf8_scalar n)" "length (utf8_scalar n) \<le> 4"
  by (simp_all add: utf8_scalar_def)

lemma length_text_encode: "length (text_encode s) = sum_list (map (\<lambda>n. length (utf8_scalar n)) (scalars s))"
  by (simp add: text_encode_def length_concat comp_def)

lemma map_unat_text_encode: "map unat (text_encode s) = concat (map utf8_scalar (scalars s))"
proof -
  have "unat (of_nat b :: u8) = b" if "b \<in> set (concat (map utf8_scalar (scalars s)))" for b
    using that utf8_scalar_bytes scalars_are_scalar by (auto intro!: unat_of_nat_u8)
  then have "map (\<lambda>b. unat (of_nat b :: u8)) (concat (map utf8_scalar (scalars s))) =
      concat (map utf8_scalar (scalars s))"
    by (intro map_idI) auto
  then show ?thesis
    by (simp only: text_encode_def map_map comp_def)
qed

section \<open>The decoder\<close>

datatype dec_state = Start | Cont nat nat nat nat
  \<comment> \<open>bytes still needed, lower and upper boundary of the next one, the value so far\<close>

definition dec_lead :: "nat \<Rightarrow> dec_state \<times> nat list" where
  [js_eval]: "dec_lead b =
     (if b \<le> 0x7F then (Start, [b])
      else if 0xC2 \<le> b \<and> b \<le> 0xDF then (Cont 1 0x80 0xBF (b - 0xC0), [])
      else if 0xE0 \<le> b \<and> b \<le> 0xEF
        then (Cont 2 (if b = 0xE0 then 0xA0 else 0x80) (if b = 0xED then 0x9F else 0xBF) (b - 0xE0), [])
      else if 0xF0 \<le> b \<and> b \<le> 0xF4
        then (Cont 3 (if b = 0xF0 then 0x90 else 0x80) (if b = 0xF4 then 0x8F else 0xBF) (b - 0xF0), [])
      else (Start, [0xFFFD]))"

fun dec_step :: "dec_state \<Rightarrow> nat \<Rightarrow> dec_state \<times> nat list" where
  "dec_step Start b = dec_lead b"
| "dec_step (Cont needed lower upper value) b =
     (if lower \<le> b \<and> b \<le> upper then
        (let value' = value * 64 + (b - 0x80) in
         if needed = 1 then (Start, [value']) else (Cont (needed - 1) 0x80 0xBF value', []))
      else (let (st, out) = dec_lead b in (st, 0xFFFD # out)))"

fun dec_run :: "dec_state \<Rightarrow> nat list \<Rightarrow> nat list" where
  "dec_run Start [] = []"
| "dec_run (Cont _ _ _ _) [] = [0xFFFD]"
| "dec_run st (b # bs) = (let (st', out) = dec_step st b in out @ dec_run st' bs)"

fun drop_bom :: "nat list \<Rightarrow> nat list" where
  "drop_bom [] = []"
| "drop_bom (n # ns) = (if n = 0xFEFF then ns else n # ns)"

definition text_decode :: "bytes \<Rightarrow> jsstring" where
  [js_eval]: "text_decode bs = concat (map code_units (drop_bom (dec_run Start (map unat bs))))"

lemma div_mod_64: "(n :: nat) div 64 * 64 + n mod 64 = n"
  "(n :: nat) div 4096 * 64 + n div 64 mod 64 = n div 64"
  "(n :: nat) div 262144 * 64 + n div 4096 mod 64 = n div 4096"
proof -
  have d: "n div 4096 = n div 64 div 64" "n div 262144 = n div 4096 div 64"
    by (simp_all add: div_mult2_eq [symmetric])
  show "n div 64 * 64 + n mod 64 = n" by (rule div_mult_mod_eq)
  show "n div 4096 * 64 + n div 64 mod 64 = n div 64"
    unfolding d by (rule div_mult_mod_eq)
  show "n div 262144 * 64 + n div 4096 mod 64 = n div 4096"
    unfolding d(2) by (rule div_mult_mod_eq)
qed

text \<open>One lemma per length of an encoded value: what the decoder does on all of it and on each
  proper prefix.\<close>

lemma dec_run_1: "n < 0x80 \<Longrightarrow> dec_run Start (n # bs) = n # dec_run Start bs"
  by (simp add: dec_lead_def)

lemma dec_run_2:
  assumes "0x80 \<le> n" "n < 0x800"
  shows "dec_run Start (utf8_scalar n @ bs) = n # dec_run Start bs"
    "dec_run Start (take 1 (utf8_scalar n)) = [0xFFFD]"
proof -
  have u: "utf8_scalar n = [0xC0 + n div 64, 0x80 + n mod 64]"
    using assms by (simp add: utf8_scalar_def)
  have "2 \<le> n div 64" "n div 64 < 32" using assms by auto
  then have l: "dec_lead (0xC0 + n div 64) = (Cont 1 0x80 0xBF (n div 64), [])"
    by (simp add: dec_lead_def)
  have m: "n mod 64 \<le> 63" using mod_less_divisor [of 64 n] by linarith
  show "dec_run Start (utf8_scalar n @ bs) = n # dec_run Start bs"
    using l m div_mod_64(1) [of n] by (simp add: u Let_def)
  show "dec_run Start (take 1 (utf8_scalar n)) = [0xFFFD]"
    using l by (simp add: u)
qed

lemma dec_run_3:
  assumes "0x800 \<le> n" "n < 0x10000" "is_scalar n"
  shows "dec_run Start (utf8_scalar n @ bs) = n # dec_run Start bs"
    "dec_run Start (take 1 (utf8_scalar n)) = [0xFFFD]"
    "dec_run Start (take 2 (utf8_scalar n)) = [0xFFFD]"
proof -
  define a b where "a = n div 4096" and "b = n div 64 mod 64"
  have u: "utf8_scalar n = [0xE0 + a, 0x80 + b, 0x80 + n mod 64]"
    using assms by (simp add: utf8_scalar_def a_def b_def)
  have a: "a < 16" using assms(2) by (simp add: a_def div_less_iff_less_mult)
  have b: "b < 64" by (simp add: b_def)
  have v: "a * 64 + b = n div 64" unfolding a_def b_def by (rule div_mod_64(2))
  have l: "dec_lead (0xE0 + a) =
      (Cont 2 (if a = 0 then 0xA0 else 0x80) (if a = 13 then 0x9F else 0xBF) a, [])"
    using a by (simp add: dec_lead_def)
  have "a = 0 \<Longrightarrow> 32 \<le> b" using v assms(1) by linarith
  moreover have "a = 13 \<Longrightarrow> b < 32"
    using v b assms(3) unfolding is_scalar_def by linarith
  ultimately have r: "(if a = 0 then 0xA0 else 0x80) \<le> 0x80 + b"
    "0x80 + b \<le> (if a = 13 then 0x9F else 0xBF)"
    using b by auto
  have m: "n mod 64 \<le> 63" using mod_less_divisor [of 64 n] by linarith
  show "dec_run Start (utf8_scalar n @ bs) = n # dec_run Start bs"
    using l r m v div_mod_64(1) [of n] by (simp add: u Let_def)
  show "dec_run Start (take 1 (utf8_scalar n)) = [0xFFFD]"
    "dec_run Start (take 2 (utf8_scalar n)) = [0xFFFD]"
    using l r by (simp_all add: u Let_def)
qed

lemma dec_run_4:
  assumes "0x10000 \<le> n" "is_scalar n"
  shows "dec_run Start (utf8_scalar n @ bs) = n # dec_run Start bs"
    "dec_run Start (take 1 (utf8_scalar n)) = [0xFFFD]"
    "dec_run Start (take 2 (utf8_scalar n)) = [0xFFFD]"
    "dec_run Start (take 3 (utf8_scalar n)) = [0xFFFD]"
proof -
  define a b c where "a = n div 262144" and "b = n div 4096 mod 64" and "c = n div 64 mod 64"
  have u: "utf8_scalar n = [0xF0 + a, 0x80 + b, 0x80 + c, 0x80 + n mod 64]"
    using assms by (simp add: utf8_scalar_def a_def b_def c_def)
  have n: "n < 0x110000" using assms(2) by (simp add: is_scalar_def)
  have bc: "b < 64" "c < 64" by (simp_all add: b_def c_def)
  have v: "a * 64 + b = n div 4096" "n div 4096 * 64 + c = n div 64"
    unfolding a_def b_def c_def by (rule div_mod_64)+
  have a: "a \<le> 4" using v(1) n by linarith
  have l: "dec_lead (0xF0 + a) =
      (Cont 3 (if a = 0 then 0x90 else 0x80) (if a = 4 then 0x8F else 0xBF) a, [])"
    using a by (simp add: dec_lead_def)
  have "a = 0 \<Longrightarrow> 16 \<le> b" using v(1) assms(1) by linarith
  moreover have "a = 4 \<Longrightarrow> b < 16" using v(1) n by linarith
  ultimately have r: "(if a = 0 then 0x90 else 0x80) \<le> 0x80 + b"
    "0x80 + b \<le> (if a = 4 then 0x8F else 0xBF)"
    using bc by auto
  have m: "n mod 64 \<le> 63" using mod_less_divisor [of 64 n] by linarith
  show "dec_run Start (utf8_scalar n @ bs) = n # dec_run Start bs"
    using l r m bc v div_mod_64(1) [of n] by (simp add: u Let_def)
  show "dec_run Start (take 1 (utf8_scalar n)) = [0xFFFD]"
    "dec_run Start (take 2 (utf8_scalar n)) = [0xFFFD]"
    "dec_run Start (take 3 (utf8_scalar n)) = [0xFFFD]"
    using l r bc by (simp_all add: u Let_def)
qed

lemma dec_run_scalar: "is_scalar n \<Longrightarrow> dec_run Start (utf8_scalar n @ bs) = n # dec_run Start bs"
  using dec_run_1 [of n bs] dec_run_2(1) [of n bs] dec_run_3(1) [of n bs] dec_run_4(1) [of n bs]
  by (cases "n < 0x80"; cases "n < 0x800"; cases "n < 0x10000") (auto simp: utf8_scalar_def)

lemma dec_run_truncated:
  assumes "is_scalar n" "0 < k" "k < length (utf8_scalar n)"
  shows "dec_run Start (take k (utf8_scalar n)) = [0xFFFD]"
proof (cases "n < 0x800")
  case True
  with assms(2,3) have "k = 1" "0x80 \<le> n" by (auto simp: utf8_scalar_def split: if_splits)
  then show ?thesis using True dec_run_2(2) [of n] by simp
next
  case False
  show ?thesis
  proof (cases "n < 0x10000")
    case True
    with False assms(2,3) have "k = 1 \<or> k = 2" by (auto simp: utf8_scalar_def)
    then show ?thesis using True False assms(1) dec_run_3(2,3) [of n] by auto
  next
    case big: False
    with False assms(2,3) have "k = 1 \<or> k = 2 \<or> k = 3" by (auto simp: utf8_scalar_def)
    then show ?thesis using big assms(1) dec_run_4(2,3,4) [of n] by auto
  qed
qed

lemma dec_run_concat:
  "(\<And>n. n \<in> set ns \<Longrightarrow> is_scalar n) \<Longrightarrow>
   dec_run Start (concat (map utf8_scalar ns) @ bs) = ns @ dec_run Start bs"
  by (induction ns) (simp_all add: dec_run_scalar)

lemma dec_run_scalars: "dec_run Start (map unat (text_encode s)) = scalars s"
  using dec_run_concat [of "scalars s" "[]"] scalars_are_scalar by (simp add: map_unat_text_encode)

text \<open>A prefix of an encoded list is the encoding of some of its values, followed by a proper
  prefix of the next one.\<close>

lemma take_concat_split:
  assumes "k \<le> length (concat (map f ns))"
  obtains ms t rest where "take k (concat (map f ns)) = concat (map f ms) @ t"
    "ns = ms @ rest" "t = [] \<or> (\<exists>n r j. rest = n # r \<and> 0 < j \<and> j < length (f n) \<and> t = take j (f n))"
proof -
  have "\<exists>ms t rest. take k (concat (map f ns)) = concat (map f ms) @ t \<and> ns = ms @ rest \<and>
      (t = [] \<or> (\<exists>n r j. rest = n # r \<and> 0 < j \<and> j < length (f n) \<and> t = take j (f n)))"
    using assms
  proof (induction ns arbitrary: k)
    case Nil
    then show ?case by simp
  next
    case (Cons n ns)
    show ?case
    proof (cases "k < length (f n)")
      case True
      then have "take k (concat (map f (n # ns))) = concat (map f []) @ take k (f n)" by simp
      then show ?thesis using True by (cases "k = 0") fastforce+
    next
      case False
      with Cons.prems have "k - length (f n) \<le> length (concat (map f ns))" by simp
      from Cons.IH [OF this] obtain ms t rest where
        "take (k - length (f n)) (concat (map f ns)) = concat (map f ms) @ t" "ns = ms @ rest"
        "t = [] \<or> (\<exists>n r j. rest = n # r \<and> 0 < j \<and> j < length (f n) \<and> t = take j (f n))"
        by blast
      then show ?thesis using False
        by (intro exI [of _ "n # ms"] exI [of _ t] exI [of _ rest]) simp
    qed
  qed
  then show ?thesis using that by blast
qed

section \<open>Round trip\<close>

definition well_formed :: "jsstring \<Rightarrow> bool" where
  [js_eval]: "well_formed s \<longleftrightarrow> concat (map code_units (scalars s)) = s"

lemma text_decode_encode:
  "well_formed s \<Longrightarrow> take 1 (scalars s) \<noteq> [0xFEFF] \<Longrightarrow> text_decode (text_encode s) = s"
  unfolding text_decode_def dec_run_scalars well_formed_def
  by (cases "scalars s") (auto split: if_splits)

lemma scalars_decoded:
  assumes "\<And>n. n \<in> set (dec_run Start (map unat bs)) \<Longrightarrow> is_scalar n"
  shows "scalars (text_decode bs) = drop_bom (dec_run Start (map unat bs))"
  unfolding text_decode_def
proof (rule scalars_concat_code_units)
  fix n assume "n \<in> set (drop_bom (dec_run Start (map unat bs)))"
  then show "is_scalar n"
    using assms by (cases "dec_run Start (map unat bs)") (auto split: if_splits)
qed

section \<open>ASCII literals\<close>

lemma scalars_of_bmp: "(\<And>c. c \<in> set s \<Longrightarrow> unat c < 0xD800) \<Longrightarrow> scalars s = map unat s"
proof (induction s rule: scalars.induct)
  case (3 c d s)
  have "\<not> is_high c" "\<not> is_low c" using "3.prems" [of c] by (simp_all add: is_high_def is_low_def)
  then show ?case using "3.IH" "3.prems" by (simp add: lone_scalar_def)
qed (simp_all add: is_high_def is_low_def lone_scalar_def)

lemma of_char_less_0xD800: "(of_char c :: nat) < 0xD800"
  by (rule less_le_trans [OF of_char_less_256]) simp

lemma scalars_js: "scalars (js s) = map of_char s"
  using scalars_of_bmp [of "js s"] of_char_less_0xD800 by (force simp: js_def)

end
