(* ===== verification/Base64Url.thy ===== *)
theory Base64Url
  imports Utf8
begin

text \<open>
  The packet text codec of \<open>apps/web/src/e2e.ts\<close> (\<open>bytesToBase64URL\<close>, \<open>base64URLToBytes\<close>) and the
  test \<open>isBase64URL\<close> that \<open>apps/relay/src/index.ts\<close> applies to every packet. \<open>btoa\<close> and \<open>atob\<close> are
  those of the WHATWG standard: \<open>atob\<close> drops white space, accepts optional padding, ignores left-over
  bits and fails (\<open>None\<close>, an exception in the code) on anything else. The lemmas give the round trip,
  the length of the text and that the relay's test accepts it; the locale \<open>codec\<close> is the interface
  that the packet layer uses.
\<close>

section \<open>The alphabet\<close>

definition b64_char :: "nat \<Rightarrow> u16" where
  [js_eval]: "b64_char n = of_nat
     (if n < 26 then 65 + n else if n < 52 then 71 + n else if n < 62 then n - 4
      else if n = 62 then 43 else 47)"

definition b64_val :: "u16 \<Rightarrow> nat option" where
  [js_eval]: "b64_val c = (let u = unat c in
     if 65 \<le> u \<and> u \<le> 90 then Some (u - 65) else if 97 \<le> u \<and> u \<le> 122 then Some (u - 71)
     else if 48 \<le> u \<and> u \<le> 57 then Some (u + 4) else if u = 43 then Some 62
     else if u = 47 then Some 63 else None)"

text \<open>\<open>replaceAll("+", "-").replaceAll("/", "_")\<close> and back.\<close>

definition to_url_char :: "u16 \<Rightarrow> u16" where
  [js_eval]: "to_url_char c = (if c = 43 then 45 else if c = 47 then 95 else c)"

definition of_url_char :: "u16 \<Rightarrow> u16" where
  [js_eval]: "of_url_char c = (if c = 45 then 43 else if c = 95 then 47 else c)"

definition url_char :: "nat \<Rightarrow> u16" where
  [js_eval]: "url_char n = to_url_char (b64_char n)"

definition is_base64url_char :: "u16 \<Rightarrow> bool" where
  [js_eval]: "is_base64url_char c \<longleftrightarrow> (let u = unat c in
     65 \<le> u \<and> u \<le> 90 \<or> 97 \<le> u \<and> u \<le> 122 \<or> 48 \<le> u \<and> u \<le> 57 \<or> u = 95 \<or> u = 45)"

definition isBase64URL :: "jsstring \<Rightarrow> bool" where
  "isBase64URL s \<longleftrightarrow> s \<noteq> [] \<and> list_all is_base64url_char s"

lemma unat_b64_char: "n < 64 \<Longrightarrow> unat (b64_char n) =
    (if n < 26 then 65 + n else if n < 52 then 71 + n else if n < 62 then n - 4
     else if n = 62 then 43 else 47)"
  unfolding b64_char_def by (rule unat_of_nat_u16) auto

lemma b64_val_char: "n < 64 \<Longrightarrow> b64_val (b64_char n) = Some n"
  by (auto simp: b64_val_def unat_b64_char Let_def)

lemma u16_eq_iff: "(c :: u16) = d \<longleftrightarrow> unat c = unat d"
  by (rule word_unat_eq_iff)

lemma url_char_facts:
  assumes "n < 64"
  shows "of_url_char (url_char n) = b64_char n" "is_base64url_char (url_char n)" "b64_char n \<noteq> 61"
  using assms unat_b64_char [OF assms]
  by (auto simp: url_char_def to_url_char_def of_url_char_def is_base64url_char_def u16_eq_iff
      Let_def split: if_splits)

section \<open>The standard codec\<close>

fun sextets :: "nat list \<Rightarrow> nat list" where
  "sextets [] = []"
| "sextets [a] = [a div 4, a mod 4 * 16]"
| "sextets [a, b] = [a div 4, a mod 4 * 16 + b div 16, b mod 16 * 4]"
| "sextets (a # b # c # r) =
     a div 4 # (a mod 4 * 16 + b div 16) # (b mod 16 * 4 + c div 64) # (c mod 64) # sextets r"

fun octets :: "nat list \<Rightarrow> nat list" where
  "octets (a # b # c # d # r) =
     (a * 4 + b div 16) # (b mod 16 * 16 + c div 4) # (c mod 4 * 64 + d) # octets r"
| "octets [a, b, c] = [a * 4 + b div 16, b mod 16 * 16 + c div 4]"
| "octets [a, b] = [a * 4 + b div 16]"
| "octets _ = []"

definition btoa :: "jsstring \<Rightarrow> jsstring option" where
  "btoa s = (if list_all (\<lambda>c. unat c < 256) s
     then Some (map b64_char (sextets (map unat s)) @ replicate ((3 - length s mod 3) mod 3) 61)
     else None)"

definition strip_padding :: "jsstring \<Rightarrow> jsstring" where
  "strip_padding s =
     (if length s mod 4 \<noteq> 0 then s
      else if take 2 (rev s) = [61, 61] then take (length s - 2) s
      else if take 1 (rev s) = [61] then take (length s - 1) s else s)"

definition atob :: "jsstring \<Rightarrow> jsstring option" where
  "atob s = (let t = strip_padding (filter (\<lambda>c. c \<notin> {9, 10, 12, 13, 32}) s) in
     if length t mod 4 = 1 then None
     else map_option (\<lambda>ns. map of_nat (octets ns)) (those (map b64_val t)))"

lemma sextet_bounds:
  fixes a b c :: nat
  assumes "a < 256" "b < 256" "c < 256"
  shows "a div 4 < 64" "a mod 4 * 16 < 64" "a mod 4 * 16 + b div 16 < 64" "b mod 16 * 4 < 64"
    "b mod 16 * 4 + c div 64 < 64" "c mod 64 < 64"
  using assms mod_less_divisor [of 4 a] mod_less_divisor [of 16 b] mod_less_divisor [of 64 c]
  by linarith+

lemma sextets_less: "(\<And>b. b \<in> set bs \<Longrightarrow> b < 256) \<Longrightarrow> n \<in> set (sextets bs) \<Longrightarrow> n < 64"
  by (induction bs rule: sextets.induct) (auto intro: sextet_bounds simp del: mult_Suc_right)

lemma octets_sextets: "(\<And>b. b \<in> set bs \<Longrightarrow> b < 256) \<Longrightarrow> octets (sextets bs) = bs"
proof (induction bs rule: sextets.induct)
  case (4 a b c r)
  have "b div 16 < 16" "c div 64 < 4" using "4.prems" [of b] "4.prems" [of c] by auto
  then show ?case using "4.IH" "4.prems" by simp
next
  case (3 a b)
  have "b div 16 < 16" using "3.prems" [of b] by auto
  then show ?case by simp
qed auto

lemma length_sextets: "length (sextets bs) = (4 * length bs + 2) div 3"
  by (induction bs rule: sextets.induct) auto

lemma length_sextets_mod_4: "length (sextets bs) mod 4 = (if length bs mod 3 = 0 then 0 else Suc (length bs mod 3))"
  by (induction bs rule: sextets.induct) auto

section \<open>The codec of the packet layer\<close>

function binaryLoop :: "bytes \<Rightarrow> nat \<Rightarrow> jsstring \<Rightarrow> jsstring" where
  "binaryLoop bs offset binary =
     (if offset < length bs
      then binaryLoop bs (offset + 0x8000) (binary @ map ucast (take 0x8000 (drop offset bs)))
      else binary)"
  by pat_completeness auto
termination
  by (relation "measure (\<lambda>(bs, offset, binary). length bs - offset)") auto

declare binaryLoop.simps [simp del]

definition bytesToBase64URL :: "bytes \<Rightarrow> jsstring option" where
  "bytesToBase64URL bs =
     map_option (\<lambda>s. rev (dropWhile (\<lambda>c. c = 61) (rev (map to_url_char s)))) (btoa (binaryLoop bs 0 []))"

definition base64URLToBytes :: "jsstring \<Rightarrow> bytes option" where
  "base64URLToBytes s =
     map_option (map ucast) (atob (map of_url_char s @ drop ((length s + 3) mod 4) (js ''==='')))"

lemma binaryLoop_eq: "binaryLoop bs offset binary = binary @ map ucast (drop offset bs)"
proof (induction bs offset binary rule: binaryLoop.induct)
  case (1 bs offset binary)
  show ?case
  proof (cases "offset < length bs")
    case True
    have "drop offset bs = take 0x8000 (drop offset bs) @ drop (offset + 0x8000) bs"
      by (metis append_take_drop_id drop_drop add.commute)
    then have "map ucast (drop offset bs) =
        (map ucast (take 0x8000 (drop offset bs)) @ map ucast (drop (offset + 0x8000) bs) :: jsstring)"
      by (metis map_append)
    then show ?thesis using True "1.IH" by (simp add: binaryLoop.simps [of bs offset])
  next
    case False
    then show ?thesis by (simp add: binaryLoop.simps [of bs offset])
  qed
qed

lemma unat_ucast_u16 [simp]: "unat (ucast (b :: u8) :: u16) = unat b"
  using unat_u8_less [of b] by (simp add: unsigned_ucast_eq take_bit_nat_eq_self)

lemma ucast_ucast_u8 [simp]: "ucast (ucast (b :: u8) :: u16) = b"
  using unat_u8_less [of b]
  by (simp add: word_unat_eq_iff unsigned_ucast_eq unsigned_take_bit_eq take_bit_nat_eq_self)

lemma bytesToBase64URL_eq:
  "bytesToBase64URL bs = Some (map url_char (sextets (map unat bs)))"
proof -
  let ?ns = "sextets (map unat bs)"
  have n: "n < 64" if "n \<in> set ?ns" for n
    using that unat_u8_less by (intro sextets_less [of "map unat bs"]) auto
  have "unat c < 256" if "c \<in> set (map ucast bs :: jsstring)" for c
    using that unat_u8_less by auto
  then have b: "btoa (binaryLoop bs 0 []) =
      Some (map b64_char ?ns @ replicate ((3 - length bs mod 3) mod 3) 61)"
    by (simp add: binaryLoop_eq btoa_def list_all_iff comp_def)
  have e: "dropWhile (\<lambda>c. c = 61) (rev (map url_char ?ns)) = rev (map url_char ?ns)"
  proof (cases "rev ?ns")
    case (Cons m ms)
    then have "m \<in> set ?ns" by (metis list.set_intros(1) set_rev)
    then have "url_char m \<noteq> 61"
      using url_char_facts(2) [OF n, of m] by (auto simp: is_base64url_char_def u16_eq_iff)
    then show ?thesis using Cons by (simp flip: rev_map)
  qed simp
  have "to_url_char 61 = 61" by (simp add: to_url_char_def)
  then have "map to_url_char (map b64_char ?ns @ replicate k 61) = map url_char ?ns @ replicate k 61" for k
    by (simp add: url_char_def)
  moreover have "dropWhile (\<lambda>c. c = 61) (replicate k 61 @ s) = dropWhile (\<lambda>c. c = 61) s" for k and s :: jsstring
    by (induction k) auto
  ultimately show ?thesis
    unfolding bytesToBase64URL_def b by (simp only: option.map rev_append rev_replicate e rev_rev_ident)
qed


lemma sextet_of_bytes: "n \<in> set (sextets (map unat (bs :: bytes))) \<Longrightarrow> n < 64"
  by (rule sextets_less [of "map unat bs"]) (auto simp: unat_u8_less)

lemma length_bytesToBase64URL [packet_simps]:
  "bytesToBase64URL bs = Some s \<Longrightarrow> length s = (4 * length bs + 2) div 3"
  by (auto simp: bytesToBase64URL_eq length_sextets)

lemma isBase64URL_bytesToBase64URL:
  assumes "bytesToBase64URL bs = Some s"
  shows "isBase64URL s \<longleftrightarrow> bs \<noteq> []"
proof -
  have "list_all is_base64url_char s"
    using assms url_char_facts(2) sextet_of_bytes by (auto simp: bytesToBase64URL_eq list_all_iff)
  moreover have "s = [] \<longleftrightarrow> bs = []"
    using length_bytesToBase64URL [OF assms] by (cases bs) auto
  ultimately show ?thesis by (simp add: isBase64URL_def)
qed

lemma those_map_b64_val:
  "(\<And>n. n \<in> set ns \<Longrightarrow> n < 64) \<Longrightarrow> those (map b64_val (map b64_char ns)) = Some ns"
  by (induction ns) (simp_all add: b64_val_char)

lemma b64_char_not_space: "n < 64 \<Longrightarrow> b64_char n \<notin> {9, 10, 12, 13, 32}"
  by (auto simp: u16_eq_iff unat_b64_char split: if_splits)

text \<open>What \<open>atob\<close> does with the sextets of a byte sequence and the padding that the decoder adds.\<close>

lemma strip_padding_padded:
  assumes "\<And>n. n \<in> set ns \<Longrightarrow> n < 64" "length ns mod 4 \<noteq> 1"
  shows "strip_padding (map b64_char ns @ drop ((length ns + 3) mod 4) [61, 61, 61]) = map b64_char ns"
proof -
  let ?s = "map b64_char ns"
  have l: "take 1 (rev ?s) \<noteq> [61]" "take 1 (rev ?s @ t) \<noteq> [61]" if "ns \<noteq> []" for t
    using url_char_facts(3) [OF assms(1), of "last ns"] that
    by (cases ns rule: rev_cases; simp)+
  have "length ns mod 4 = 0 \<or> length ns mod 4 = 2 \<or> length ns mod 4 = 3"
    using assms(2) by linarith
  then show ?thesis
  proof (elim disjE)
    assume m: "length ns mod 4 = 0"
    then have "(length ns + 3) mod 4 = 3" by presburger
    moreover have "take 2 (rev ?s) \<noteq> [61, 61]" "take 1 (rev ?s) \<noteq> [61]"
      using l by (cases ns rule: rev_cases; simp)+
    ultimately show ?thesis using m by (simp add: strip_padding_def)
  next
    assume m: "length ns mod 4 = 2"
    then have "(length ns + 3) mod 4 = 1" "(length ns + 2) mod 4 = 0" by presburger+
    then show ?thesis by (simp add: strip_padding_def)
  next
    assume m: "length ns mod 4 = 3"
    then have k: "(length ns + 3) mod 4 = 2" "(length ns + 1) mod 4 = 0" and "ns \<noteq> []"
      by (presburger, presburger, auto)
    have "take 2 (rev (?s @ [61])) \<noteq> [61, 61]"
      using l(1) [OF \<open>ns \<noteq> []\<close>] by (cases ns rule: rev_cases; simp)
    then show ?thesis using k by (simp add: strip_padding_def)
  qed
qed

lemma base64URLToBytes_sextets:
  "base64URLToBytes (map url_char (sextets (map unat (bs :: bytes)))) = Some bs"
proof -
  let ?ns = "sextets (map unat bs)"
  let ?p = "drop ((length ?ns + 3) mod 4) (js ''==='')"
  have p: "js ''==='' = [61, 61, 61]" by (simp add: js_def)
  have m: "length ?ns mod 4 \<noteq> 1" by (simp add: length_sextets_mod_4)
  have "map of_url_char (map url_char ?ns) = map b64_char ?ns"
    by (simp add: url_char_facts sextet_of_bytes)
  moreover have "filter (\<lambda>c. c \<notin> {9, 10, 12, 13, 32}) (map b64_char ?ns @ ?p) = map b64_char ?ns @ ?p"
    using b64_char_not_space sextet_of_bytes unfolding p
    by (intro filter_True) (auto dest!: in_set_dropD)
  moreover have "those (map b64_val (map b64_char ?ns)) = Some ?ns"
    by (rule those_map_b64_val) (rule sextet_of_bytes)
  moreover have "octets ?ns = map unat bs"
    by (rule octets_sextets) (auto simp: unat_u8_less)
  moreover have "strip_padding (map b64_char ?ns @ ?p) = map b64_char ?ns"
    unfolding p by (rule strip_padding_padded [OF sextet_of_bytes m])
  ultimately have "atob (map of_url_char (map url_char ?ns) @ ?p) = Some (map ucast bs)"
    using m unfolding atob_def Let_def by (simp only: length_map option.map if_False) (simp add: comp_def)
  then show ?thesis
    unfolding base64URLToBytes_def by (simp del: map_map) (simp add: comp_def)
qed

text \<open>The interface of a text codec: encoding may raise, decoding may raise, and what was encoded is
  what is decoded.\<close>

locale codec =
  fixes encode :: "'a \<Rightarrow> 'b option"
    and decode :: "'b \<Rightarrow> 'a option"
  assumes encode_total: "encode x \<noteq> None"
    and decode_encode: "encode x = Some y \<Longrightarrow> decode y = Some x"
begin

lemma encode_inj: "encode x = encode x' \<Longrightarrow> x = x'"
  using encode_total decode_encode by (metis option.exhaust option.inject)

lemma round_trip: "\<exists>y. encode x = Some y \<and> decode y = Some x"
  using encode_total decode_encode by blast

lemma encodings_disjoint: "encode x = Some y \<Longrightarrow> encode x' = Some y \<Longrightarrow> x = x'"
  using encode_inj by simp

end

interpretation b64url: codec bytesToBase64URL base64URLToBytes
  by unfold_locales (auto simp: bytesToBase64URL_eq base64URLToBytes_sextets)

text \<open>Packets survive the text encoding: for every byte sequence the encoder returns, and the
  decoder applied to its result returns exactly that byte sequence.\<close>

theorem base64url_round_trip: "\<exists>s. bytesToBase64URL bs = Some s \<and> base64URLToBytes s = Some bs"
  by (rule b64url.round_trip)

text \<open>C38. The encoder is the unpadded base64url of RFC 4648: the loop over chunks of 32768 bytes, \<open>btoa\<close> with its
  padding, the replacement of the two characters and the removal of the padding together give, for every
  byte sequence of any length, its six-bit groups in order, each as its character.\<close>

theorem chunked_encoder_is_base64url: "bytesToBase64URL bs = Some (map url_char (sextets (map unat bs)))"
  by (rule bytesToBase64URL_eq)

end
