(* ===== verification/E2ePacket.thy ===== *)
theory E2ePacket
  imports Base64Url
begin

text \<open>
  The end-to-end packet layer, \<open>apps/web/src/e2e.ts\<close>: a message is serialised, sealed with AES-GCM
  under the key derived from the portal token, and carried as \<open>sequence (4) | iv (12) | ciphertext\<close>
  in URL-safe base64. The additional data binds the channel, the direction and the sequence number.
  Web Crypto and the text form of JSON values are parameters (the record \<open>platform\<close>); \<open>gcm_exact\<close>
  and \<open>json_faithful\<close> state what the code relies on. The lemmas give the layout of a packet, the
  round trip, the rejection of replayed packets and the separation of channels and directions.
\<close>

section \<open>What the platform provides\<close>

record 'k platform =
  sha256 :: "bytes \<Rightarrow> bytes"
  import_key :: "bytes \<Rightarrow> 'k"
  gcm_encrypt :: "'k \<Rightarrow> bytes \<Rightarrow> bytes \<Rightarrow> bytes \<Rightarrow> bytes"
  gcm_decrypt :: "'k \<Rightarrow> bytes \<Rightarrow> bytes \<Rightarrow> bytes \<Rightarrow> bytes option"
  json_text :: "json \<Rightarrow> jsstring"
  json_parse :: "jsstring \<Rightarrow> json option"

text \<open>AES-GCM is deterministic in key, nonce and additional data, its output is the input and a
  16-byte tag, and decryption accepts exactly what encryption with the same arguments produces.\<close>

definition gcm_exact :: "'k platform \<Rightarrow> bool" where
  "gcm_exact pl \<longleftrightarrow>
     (\<forall>k iv aad c p. gcm_decrypt pl k iv aad c = Some p \<longleftrightarrow> c = gcm_encrypt pl k iv aad p) \<and>
     (\<forall>k iv aad p. length (gcm_encrypt pl k iv aad p) = length p + 16)"

text \<open>\<open>JSON.parse\<close> inverts \<open>JSON.stringify\<close> on a value; the text has no unpaired surrogate (they are
  escaped) and does not begin with a byte-order mark.\<close>

definition json_faithful :: "'k platform \<Rightarrow> json \<Rightarrow> bool" where
  "json_faithful pl v \<longleftrightarrow> json_parse pl (json_text pl v) = Some v \<and> well_formed (json_text pl v) \<and>
     take 1 (scalars (json_text pl v)) \<noteq> [0xFEFF]"

section \<open>Keys, sequence numbers, additional data\<close>

datatype direction = Browser | Connector

fun direction_text :: "direction \<Rightarrow> jsstring" where
  "direction_text Browser = js ''browser''"
| "direction_text Connector = js ''connector''"

definition deriveEncryptionKey :: "'k platform \<Rightarrow> jsstring \<Rightarrow> 'k" where
  "deriveEncryptionKey pl token =
     import_key pl (sha256 pl (text_encode (js ''termlinks-e2e-v1'' @ [0] @ token)))"

text \<open>\<open>DataView.setUint32\<close> and \<open>getUint32\<close>, big-endian.\<close>

definition put_uint32 :: "nat \<Rightarrow> bytes" where
  "put_uint32 n = [of_nat (n div 2 ^ 24), of_nat (n div 2 ^ 16), of_nat (n div 2 ^ 8), of_nat n]"

fun get_uint32 :: "bytes \<Rightarrow> nat" where
  "get_uint32 (a # b # c # d # _) = unat a * 2 ^ 24 + unat b * 2 ^ 16 + unat c * 2 ^ 8 + unat d"
| "get_uint32 _ = 0"

definition encryptionAAD :: "jsstring \<Rightarrow> direction \<Rightarrow> bytes \<Rightarrow> bytes" where
  "encryptionAAD channel dir sequence =
     text_encode (js ''termlinks-e2e-v1:'' @ channel @ js '':'' @ direction_text dir @ js '':'') @ sequence"

datatype packet_error = SequenceInvalid | PacketTooShort | ReplayedOrReordered
  | NotBase64 | DecryptFailed | NotJson

definition encryptPacket ::
  "'k platform \<Rightarrow> bytes \<Rightarrow> 'k \<Rightarrow> jsstring \<Rightarrow> direction \<Rightarrow> jsnum \<Rightarrow> json \<Rightarrow> packet_error + jsstring" where
  "encryptPacket pl iv key channel dir sequence value =
     (if \<not> num_is_integer sequence \<or> num_less sequence (Fin 0) \<or> \<not> num_less sequence (Fin 0xffffffff)
      then Inl SequenceInvalid
      else
        let sequenceBytes = put_uint32 (nat (num_int sequence));
            plaintext = text_encode (json_text pl value);
            ciphertext = gcm_encrypt pl key iv (encryptionAAD channel dir sequenceBytes) plaintext
        in case bytesToBase64URL (sequenceBytes @ iv @ ciphertext) of
             None \<Rightarrow> Inl NotBase64
           | Some packet \<Rightarrow> Inr packet)"

definition decryptPacket ::
  "'k platform \<Rightarrow> 'k \<Rightarrow> jsstring \<Rightarrow> direction \<Rightarrow> nat \<Rightarrow> jsstring \<Rightarrow> packet_error + json" where
  "decryptPacket pl key channel dir expectedSequence packet =
     (case base64URLToBytes packet of
        None \<Rightarrow> Inl NotBase64
      | Some bs \<Rightarrow>
          if length bs < 32 then Inl PacketTooShort
          else
            let sequenceBytes = take 4 bs; sequence = get_uint32 sequenceBytes in
            if sequence \<noteq> expectedSequence then Inl ReplayedOrReordered
            else
              (case gcm_decrypt pl key (take 12 (drop 4 bs)) (encryptionAAD channel dir sequenceBytes)
                      (drop 16 bs) of
                 None \<Rightarrow> Inl DecryptFailed
               | Some plaintext \<Rightarrow>
                   (case json_parse pl (text_decode plaintext) of
                      None \<Rightarrow> Inl NotJson
                    | Some v \<Rightarrow> Inr v)))"

section \<open>Layout\<close>

lemma length_put_uint32 [simp, packet_simps]: "length (put_uint32 n) = 4"
  by (simp add: put_uint32_def)

lemma unat_of_nat_byte: "unat (of_nat n :: u8) = n mod 256"
  by (simp add: unat_of_nat)

lemma get_put_uint32 [simp]: "n < 2 ^ 32 \<Longrightarrow> get_uint32 (put_uint32 n) = n"
proof -
  assume n: "n < 2 ^ 32"
  then have "n div 16777216 < 256" by (simp add: div_less_iff_less_mult)
  then have "get_uint32 (put_uint32 n) = n div 16777216 * 16777216 + n div 65536 mod 256 * 65536 +
      n div 256 mod 256 * 256 + n mod 256"
    by (simp add: put_uint32_def unat_of_nat_byte)
  moreover have "n div 65536 = n div 16777216 * 256 + n div 65536 mod 256"
    "n div 256 = n div 65536 * 256 + n div 256 mod 256"
    using div_mult_mod_eq [of "n div 65536" 256] div_mult_mod_eq [of "n div 256" 256]
    by (simp_all add: div_mult2_eq [symmetric])
  ultimately show ?thesis
    using div_mult_mod_eq [of n 256] by linarith
qed

lemma encryptPacket_nat:
  "encryptPacket pl iv key channel dir (fin_nat n) value =
     (if 0xffffffff \<le> n then Inl SequenceInvalid
      else Inr (map url_char (sextets (map unat (put_uint32 n @ iv @
        gcm_encrypt pl key iv (encryptionAAD channel dir (put_uint32 n)) (text_encode (json_text pl value)))))))"
  by (auto simp: encryptPacket_def bytesToBase64URL_eq Let_def)

text \<open>What the decoder sees of a sealed packet.\<close>

lemma packet_bytes:
  assumes "encryptPacket pl iv key channel dir (fin_nat n) value = Inr packet"
  shows "n < 0xffffffff"
    "base64URLToBytes packet = Some (put_uint32 n @ iv @
      gcm_encrypt pl key iv (encryptionAAD channel dir (put_uint32 n)) (text_encode (json_text pl value)))"
  using assms base64URLToBytes_sextets
  by (auto simp: encryptPacket_nat split: if_splits simp flip: map_append)

lemma decryptPacket_sealed:
  assumes "base64URLToBytes packet = Some (put_uint32 n @ iv @ c)"
    and "n < 2 ^ 32" "length iv = 12" "16 \<le> length c"
  shows "decryptPacket pl key channel dir expected packet =
     (if n \<noteq> expected then Inl ReplayedOrReordered
      else case gcm_decrypt pl key iv (encryptionAAD channel dir (put_uint32 n)) c of
          None \<Rightarrow> Inl DecryptFailed
        | Some plaintext \<Rightarrow> (case json_parse pl (text_decode plaintext) of None \<Rightarrow> Inl NotJson | Some v \<Rightarrow> Inr v))"
  using assms by (simp add: decryptPacket_def Let_def)

lemma gcm_exact_simps:
  assumes "gcm_exact pl"
  shows "gcm_decrypt pl k iv aad (gcm_encrypt pl k iv aad p) = Some p"
    "length (gcm_encrypt pl k iv aad p) = length p + 16"
  using assms by (auto simp: gcm_exact_def)

lemma open_sealed:
  assumes "gcm_exact pl" "json_faithful pl value" "length iv = 12"
    and "encryptPacket pl iv key channel dir (fin_nat n) value = Inr packet"
  shows "decryptPacket pl key channel dir n packet = Inr value"
proof -
  have "text_decode (text_encode (json_text pl value)) = json_text pl value"
    using assms(2) by (intro text_decode_encode) (auto simp: json_faithful_def)
  then show ?thesis
    using decryptPacket_sealed [OF packet_bytes(2) [OF assms(4)] _ assms(3), of pl]
      packet_bytes(1) [OF assms(4)] assms(1,2)
    by (simp add: gcm_exact_simps json_faithful_def)
qed

lemma encryptPacket_succeeds:
  "n < 0xffffffff \<Longrightarrow> \<exists>packet. encryptPacket pl iv key channel dir (fin_nat n) value = Inr packet"
  by (subst encryptPacket_nat) simp

section \<open>Round trip, replay, separation\<close>

text \<open>A sealed message is opened to the message itself by the receiver that expects its sequence
  number on the same channel and direction: encryption and decryption invert each other whenever the
  sequence number is below the limit that the code enforces.\<close>

theorem packet_round_trip:
  assumes "gcm_exact pl" "json_faithful pl value" "length iv = 12" "n < 0xffffffff"
  shows "\<exists>packet. encryptPacket pl iv key channel dir (fin_nat n) value = Inr packet \<and>
    decryptPacket pl key channel dir n packet = Inr value"
  using encryptPacket_succeeds [OF assms(4), of pl iv key channel dir "value"]
    open_sealed [OF assms(1-3)] by blast

text \<open>Replay and reordering are rejected: a sealed packet is refused, before anything is decrypted,
  by a receiver that expects any other sequence number.\<close>

theorem replay_rejected:
  assumes "gcm_exact pl" "length iv = 12" "n \<noteq> expected"
    and "encryptPacket pl iv key channel dir (fin_nat n) value = Inr packet"
  shows "decryptPacket pl key' channel' dir' expected packet = Inl ReplayedOrReordered"
  using decryptPacket_sealed [OF packet_bytes(2) [OF assms(4)] _ assms(2), of pl]
    packet_bytes(1) [OF assms(4)] assms(1,3) by (simp add: gcm_exact_simps)

lemma accepted_layout:
  assumes "gcm_exact pl" "decryptPacket pl key channel dir expected packet = Inr value"
  shows "\<exists>sequenceBytes iv plaintext.
    get_uint32 sequenceBytes = expected \<and> length sequenceBytes = 4 \<and> length iv = 12 \<and>
    base64URLToBytes packet = Some (sequenceBytes @ iv @
      gcm_encrypt pl key iv (encryptionAAD channel dir sequenceBytes) plaintext) \<and>
    json_parse pl (text_decode plaintext) = Some value"
proof -
  obtain bs where bs: "base64URLToBytes packet = Some bs" "\<not> length bs < 32"
    "get_uint32 (take 4 bs) = expected"
    using assms(2) by (auto simp: decryptPacket_def Let_def split: option.splits if_splits)
  then obtain plaintext where
    d: "gcm_decrypt pl key (take 12 (drop 4 bs)) (encryptionAAD channel dir (take 4 bs)) (drop 16 bs)
        = Some plaintext" and j: "json_parse pl (text_decode plaintext) = Some value"
    using assms(2) by (auto simp: decryptPacket_def Let_def split: option.splits)
  have "drop 16 bs = gcm_encrypt pl key (take 12 (drop 4 bs)) (encryptionAAD channel dir (take 4 bs)) plaintext"
    using assms(1) d by (simp add: gcm_exact_def)
  moreover have "bs = take 4 bs @ take 12 (drop 4 bs) @ drop 16 bs"
    using append_take_drop_id [of 12 "drop 4 bs"] by simp
  ultimately show ?thesis using bs j
    by (intro exI [of _ "take 4 bs"] exI [of _ "take 12 (drop 4 bs)"] exI [of _ plaintext]) auto
qed

text \<open>C35. What the receiver accepts was sealed for it: a packet that decryption accepts consists of the
  expected sequence number, a nonce, and a ciphertext made with the receiver's own key for exactly this
  channel, direction and sequence number.\<close>

theorem accepted_packet_was_sealed:
  assumes "gcm_exact pl" "decryptPacket pl key channel dir expected packet = Inr value"
  shows "\<exists>sequenceBytes iv plaintext.
    get_uint32 sequenceBytes = expected \<and> length sequenceBytes = 4 \<and> length iv = 12 \<and>
    base64URLToBytes packet = Some (sequenceBytes @ iv @
      gcm_encrypt pl key iv (encryptionAAD channel dir sequenceBytes) plaintext) \<and>
    json_parse pl (text_decode plaintext) = Some value"
  using assms by (rule accepted_layout)

lemma well_formed_js [simp]: "well_formed (js s)"
proof -
  have "code_units (of_char c) = [of_char c]" for c
    by (simp add: code_units_def of_nat_of_char)
  then have "concat (map code_units (map of_char s)) = map of_char s"
    by (induction s) simp_all
  then show ?thesis unfolding well_formed_def scalars_js by (simp only: js_def)
qed

lemma scalars_js_append: "scalars (js p @ s) = map of_char p @ scalars s"
proof (induction p)
  case (Cons c p)
  have "is_scalar (of_char c)" "(of_char c :: nat) < 0x10000"
    using of_char_less_256 [of c] unfolding is_scalar_def by linarith+
  then have "scalars (of_nat (of_char c) # js p @ s) = of_char c # scalars (js p @ s)"
    by (intro scalars_bmp)
  then show ?case
    using Cons.IH by (simp add: js_def of_nat_of_char)
qed simp

lemma js_not_low: "c \<in> set (js q) \<Longrightarrow> \<not> is_low c"
proof -
  assume "c \<in> set (js q)"
  then have "unat c < 256" using of_char_less_256 by (auto simp: js_def)
  then show ?thesis by (simp add: is_low_def)
qed

lemma scalars_append_js: "scalars (s @ js q) = scalars s @ map of_char q"
proof (induction s rule: scalars.induct)
  case 1
  then show ?case using scalars_js by simp
next
  case (2 c)
  show ?case
  proof (cases "js q")
    case (Cons d r)
    then have "\<not> is_low d" using js_not_low [of d q] by simp
    then show ?thesis using Cons scalars_js [of q] by simp
  qed simp
qed auto

lemma scalars_aad:
  "scalars (js p @ channel @ js q) = map of_char p @ scalars channel @ map of_char q"
  by (simp add: scalars_js_append scalars_append_js)

lemma text_encode_scalars: "text_encode s = text_encode t \<longleftrightarrow> scalars s = scalars t"
  by (metis dec_run_scalars text_encode_def)

text \<open>The additional data separates every use of the key: two packets with the same additional
  data belong to the same channel, the same direction and the same sequence number, so no packet can
  be moved to another channel, reflected to its sender or given another number.\<close>

theorem aad_separates:
  assumes "well_formed channel" "well_formed channel'" "length sq = 4" "length sq' = 4"
    and "encryptionAAD channel dir sq = encryptionAAD channel' dir' sq'"
  shows "channel = channel' \<and> dir = dir' \<and> sq = sq'"
proof -
  define tail where "tail d = (case d of Browser \<Rightarrow> '':browser:'' | Connector \<Rightarrow> '':connector:'')" for d
  have tail: "js '':'' @ direction_text d @ js '':'' = js (tail d)" for d
    by (cases d) (simp_all add: tail_def js_def)
  have "text_encode (js ''termlinks-e2e-v1:'' @ channel @ js (tail dir)) =
      text_encode (js ''termlinks-e2e-v1:'' @ channel' @ js (tail dir')) \<and> sq = sq'"
    using assms(3-5) unfolding encryptionAAD_def tail by (simp add: append_eq_append_conv)
  then have e: "scalars channel @ map of_char (tail dir) = scalars channel' @ map of_char (tail dir')"
    and s: "sq = sq'"
    by (auto simp: text_encode_scalars scalars_aad)
  from arg_cong [OF e, of rev] have "dir = dir'"
    by (cases dir; cases dir') (simp_all add: tail_def)
  with e have "scalars channel = scalars channel'" by simp
  with assms(1,2) have "channel = channel'" by (metis well_formed_def)
  with s \<open>dir = dir'\<close> show ?thesis by simp
qed

section \<open>A concrete platform\<close>

text \<open>A platform on which the hypotheses above hold: the tag is sixteen zero bytes, and the only JSON
  text is \<open>null\<close>.\<close>

definition demo_platform :: "unit platform" where
  "demo_platform = \<lparr>
     sha256 = (\<lambda>bs. bs), import_key = (\<lambda>_. ()),
     gcm_encrypt = (\<lambda>_ _ _ p. p @ replicate 16 0),
     gcm_decrypt = (\<lambda>_ _ _ c. if 16 \<le> length c \<and> drop (length c - 16) c = replicate 16 0
        then Some (take (length c - 16) c) else None),
     json_text = (\<lambda>_. js ''null''), json_parse = (\<lambda>_. Some JNull) \<rparr>"

lemma demo_gcm_exact: "gcm_exact demo_platform"
proof -
  have "(16 \<le> length c \<and> drop (length c - 16) c = replicate 16 0 \<and> take (length c - 16) c = p) \<longleftrightarrow>
      c = p @ replicate 16 0" for c p :: bytes
    by (auto, metis append_take_drop_id)
  then show ?thesis unfolding gcm_exact_def by (auto simp: demo_platform_def)
qed

lemma demo_json_faithful: "json_faithful demo_platform JNull"
  by (simp add: json_faithful_def demo_platform_def scalars_js)

lemma demo_packet:
  "\<exists>packet. encryptPacket demo_platform (replicate 12 7) () (js ''c'') Browser (fin_nat 5) JNull = Inr packet"
  by (rule encryptPacket_succeeds) simp

theorem packet_round_trip_witness:
  "\<exists>packet. encryptPacket demo_platform (replicate 12 7) () (js ''c'') Browser (fin_nat 5) JNull = Inr packet \<and>
    decryptPacket demo_platform () (js ''c'') Browser 5 packet = Inr JNull"
  by (rule packet_round_trip [OF demo_gcm_exact demo_json_faithful]) simp_all

theorem replay_rejected_witness:
  "\<exists>packet. encryptPacket demo_platform (replicate 12 7) () (js ''c'') Browser (fin_nat 5) JNull = Inr packet \<and>
    decryptPacket demo_platform () (js ''c'') Browser 6 packet = Inl ReplayedOrReordered"
proof -
  obtain packet where
    p: "encryptPacket demo_platform (replicate 12 7) () (js ''c'') Browser (fin_nat 5) JNull = Inr packet"
    using demo_packet by blast
  have "length (replicate 12 7) = 12" "(5 :: nat) \<noteq> 6" by simp_all
  from replay_rejected [OF demo_gcm_exact this p] p show ?thesis by blast
qed

theorem accepted_packet_was_sealed_witness:
  "\<exists>packet sequenceBytes iv plaintext.
    decryptPacket demo_platform () (js ''c'') Browser 5 packet = Inr JNull \<and>
    get_uint32 sequenceBytes = 5 \<and> length sequenceBytes = 4 \<and> length iv = 12 \<and>
    base64URLToBytes packet = Some (sequenceBytes @ iv @
      gcm_encrypt demo_platform () iv (encryptionAAD (js ''c'') Browser sequenceBytes) plaintext)"
proof -
  obtain packet where
    p: "encryptPacket demo_platform (replicate 12 7) () (js ''c'') Browser (fin_nat 5) JNull = Inr packet"
    using demo_packet by blast
  have d: "decryptPacket demo_platform () (js ''c'') Browser 5 packet = Inr JNull"
    using open_sealed [OF demo_gcm_exact demo_json_faithful _ p] by simp
  from accepted_packet_was_sealed [OF demo_gcm_exact d] d show ?thesis by blast
qed

theorem aad_separates_witness:
  "well_formed (js ''c'') \<and> encryptionAAD (js ''c'') Browser (put_uint32 1) = encryptionAAD (js ''c'') Browser (put_uint32 1)
   \<and> Browser = Browser \<and> put_uint32 1 = put_uint32 1"
proof -
  have w: "well_formed (js ''c'')" by simp
  from aad_separates [OF w w, of "put_uint32 1" "put_uint32 1" Browser Browser] w show ?thesis by simp
qed

end
