(* ===== verification/ReplyGate.thy ===== *)
theory ReplyGate
  imports JsPrelude
begin

text \<open>
  The reply gate, \<open>apps/web/src/terminal-reply-gate.ts\<close>. While a scrollback snapshot is replayed
  into the terminal emulator, the emulator answers every control query in it; the gate holds those
  answers back, keeps the last small one, and hands it out when the replay it belongs to has finished.
  The state is the class's three fields; each method is a function to the new state and its result.
\<close>

definition MAX_HELD_TERMINAL_REPLY_BYTES :: nat where
  "MAX_HELD_TERMINAL_REPLY_BYTES = 4096"

record reply_gate =
  generation :: nat
  replaying :: bool
  held :: "bytes option"

definition new_gate :: reply_gate where
  "new_gate = \<lparr>generation = 0, replaying = False, held = None\<rparr>"

definition beginSnapshot :: "reply_gate \<Rightarrow> reply_gate \<times> nat" where
  [state_defs]: "beginSnapshot g =
     (let g' = g\<lparr>generation := generation g + 1, replaying := True, held := None\<rparr> in (g', generation g'))"

definition gate_receive :: "reply_gate \<Rightarrow> bytes \<Rightarrow> reply_gate \<times> bytes option" where
  [state_defs]: "gate_receive g data =
     (if \<not> replaying g then (g, Some data)
      else if 0 < length data \<and> length data \<le> MAX_HELD_TERMINAL_REPLY_BYTES
        then (g\<lparr>held := Some data\<rparr>, None)
      else (g, None))"

definition finishSnapshot :: "reply_gate \<Rightarrow> nat \<Rightarrow> reply_gate \<times> bytes option" where
  [state_defs]: "finishSnapshot g gen =
     (if \<not> replaying g \<or> gen \<noteq> generation g then (g, None)
      else (g\<lparr>replaying := False, held := None\<rparr>, held g))"

definition gate_reset :: "reply_gate \<Rightarrow> reply_gate" where
  [state_defs]: "gate_reset g = g\<lparr>generation := generation g + 1, replaying := False, held := None\<rparr>"

section \<open>Runs\<close>

datatype gate_op = GBegin | GReceive bytes | GFinish nat | GReset

fun gate_step :: "reply_gate \<Rightarrow> gate_op \<Rightarrow> reply_gate \<times> bytes option" where
  "gate_step g GBegin = (fst (beginSnapshot g), None)"
| "gate_step g (GReceive data) = gate_receive g data"
| "gate_step g (GFinish gen) = finishSnapshot g gen"
| "gate_step g GReset = (gate_reset g, None)"

fun gate_run :: "reply_gate \<Rightarrow> gate_op list \<Rightarrow> reply_gate \<times> bytes list" where
  "gate_run g [] = (g, [])"
| "gate_run g (e # es) =
     (let (g', out) = gate_step g e; (g'', outs) = gate_run g' es
      in (g'', (case out of None \<Rightarrow> outs | Some b \<Rightarrow> b # outs)))"

definition small_reply :: "bytes \<Rightarrow> bool" where
  "small_reply data \<longleftrightarrow> 0 < length data \<and> length data \<le> MAX_HELD_TERMINAL_REPLY_BYTES"

text \<open>The reply a replay should end with: the last small one.\<close>

fun last_small :: "bytes option \<Rightarrow> bytes list \<Rightarrow> bytes option" where
  "last_small acc [] = acc"
| "last_small acc (d # ds) = last_small (if small_reply d then Some d else acc) ds"

lemma gate_step_generation: "generation g \<le> generation (fst (gate_step g e))"
  by (cases e) (simp_all add: state_defs)

lemma gate_run_generation: "generation g \<le> generation (fst (gate_run g es))"
proof (induction es arbitrary: g)
  case (Cons e es)
  have "generation (fst (gate_step g e)) \<le> generation (fst (gate_run (fst (gate_step g e)) es))"
    by (rule Cons.IH)
  with gate_step_generation [of g e] show ?case
    by (auto simp: split_beta Let_def)
qed simp

lemma gate_run_advances:
  "GBegin \<in> set es \<or> GReset \<in> set es \<Longrightarrow> generation g < generation (fst (gate_run g es))"
proof (induction es arbitrary: g)
  case (Cons e es)
  let ?g = "fst (gate_step g e)"
  have r: "fst (gate_run g (e # es)) = fst (gate_run ?g es)" by (simp add: split_beta Let_def)
  show ?case
  proof (cases "e = GBegin \<or> e = GReset")
    case True
    then have "generation g < generation ?g" by (auto simp: state_defs)
    with gate_run_generation [of ?g es] show ?thesis unfolding r by simp
  next
    case False
    with Cons.prems have "generation ?g < generation (fst (gate_run ?g es))" by (intro Cons.IH) auto
    with gate_step_generation [of g e] show ?thesis unfolding r by simp
  qed
qed simp

lemma gate_run_receives:
  "replaying g \<Longrightarrow>
   gate_run g (map GReceive ds) = (g\<lparr>held := last_small (held g) ds\<rparr>, [])"
  by (induction ds arbitrary: g) (simp_all add: state_defs small_reply_def Let_def)

lemma last_small_Some: "last_small acc ds = Some d \<Longrightarrow> d \<in> set ds \<and> small_reply d \<or> acc = Some d"
  by (induction acc ds rule: last_small.induct) (auto split: if_splits)

lemma gate_run_append:
  "gate_run g (es @ fs) =
     (let (g', o1) = gate_run g es; (g'', o2) = gate_run g' fs in (g'', o1 @ o2))"
  by (induction es arbitrary: g) (simp_all add: split_beta Let_def split: option.splits)

text \<open>A replay releases one reply: of all the replies the emulator produced between
  \<open>beginSnapshot\<close> and the matching \<open>finishSnapshot\<close>, nothing is sent during the replay and the last
  one of 1 to 4096 bytes (if there is one) is sent at its end, after which replies pass unchanged.\<close>

theorem replay_releases_last_small:
  "gate_run g (GBegin # map GReceive ds @ GFinish (snd (beginSnapshot g)) # map GReceive live) =
     (\<lparr>generation = generation g + 1, replaying = False, held = None, \<dots> = reply_gate.more g\<rparr>,
      (case last_small None ds of None \<Rightarrow> [] | Some d \<Rightarrow> [d]) @ live)"
proof -
  have live: "\<not> replaying g' \<Longrightarrow> gate_run g' (map GReceive live) = (g', live)" for g' :: reply_gate
    by (induction live) (simp_all add: gate_receive_def)
  let ?g = "fst (beginSnapshot g)"
  have "gate_run ?g (map GReceive ds) = (?g\<lparr>held := last_small None ds\<rparr>, [])"
    by (subst gate_run_receives) (simp_all add: state_defs)
  then show ?thesis
    by (simp add: gate_run_append live) (simp add: state_defs live Let_def split: option.splits)
qed

text \<open>A stale completion releases nothing: once another replay has begun or the gate was reset,
  finishing the earlier replay changes nothing and sends nothing, whatever happened in between.\<close>

theorem stale_finish_is_silent:
  assumes "GBegin \<in> set es \<or> GReset \<in> set es"
  shows "finishSnapshot (fst (gate_run (fst (beginSnapshot g)) es)) (snd (beginSnapshot g)) =
    (fst (gate_run (fst (beginSnapshot g)) es), None)"
  using gate_run_advances [OF assms, of "fst (beginSnapshot g)"]
  by (simp add: finishSnapshot_def) (simp add: beginSnapshot_def Let_def)

theorem stale_finish_is_silent_witness:
  "finishSnapshot (fst (gate_run (fst (beginSnapshot new_gate)) [GReceive [1], GBegin, GReceive [2]]))
     (snd (beginSnapshot new_gate)) =
   (fst (gate_run (fst (beginSnapshot new_gate)) [GReceive [1], GBegin, GReceive [2]]), None)"
  by (rule stale_finish_is_silent) simp

end
