(* ===== verification/StreamReconciler.thy ===== *)
theory StreamReconciler
  imports JsPrelude
begin

text \<open>
  The stream reconciler, \<open>apps/web/src/terminal-reconnect.ts\<close>: it separates the scrollback snapshot
  that a daemon sends on reconnection from the output produced after it. A daemon that frames the
  snapshot sends a start control with its size, the bytes in any number of binary frames, and an end
  control; an older daemon sends the snapshot as the first binary frame. The methods throw on a
  protocol violation; as they may have changed the state by then, each returns the new state and
  either an error or an optional action.
\<close>

definition MAX_TERMINAL_SNAPSHOT_BYTES :: nat where
  "MAX_TERMINAL_SNAPSHOT_BYTES = 2 * 2 ^ 20"

datatype control = SnapshotStart jsnum | SnapshotEnd

datatype action = Snapshot bytes | Live bytes

datatype phase = Awaiting | InSnapshot | InLive

datatype stream_error = UnexpectedStart | InvalidSize | UnexpectedEnd | IncompleteSnapshot | SizeExceeded

record stream =
  phase :: phase
  expectedBytes :: nat
  receivedBytes :: nat
  chunks :: "bytes list"

definition new_stream :: stream where
  "new_stream = \<lparr>phase = Awaiting, expectedBytes = 0, receivedBytes = 0, chunks = []\<rparr>"

definition waitingForSnapshot :: "stream \<Rightarrow> bool" where
  "waitingForSnapshot s \<longleftrightarrow> phase s \<noteq> InLive"

definition framedSnapshotStarted :: "stream \<Rightarrow> bool" where
  "framedSnapshotStarted s \<longleftrightarrow> phase s = InSnapshot"

definition valid_snapshot_size :: "jsnum \<Rightarrow> bool" where
  "valid_snapshot_size n \<longleftrightarrow>
     (num_is_integer n \<and> \<bar>num_int n\<bar> \<le> 2 ^ 53 - 1) \<and> \<not> num_less n (Fin 0) \<and>
     \<not> num_less (fin_nat MAX_TERMINAL_SNAPSHOT_BYTES) n"

text \<open>The end control assembles the snapshot by copying the chunks one after the other into an
  array of the received size.\<close>

fun assemble :: "bytes \<Rightarrow> nat \<Rightarrow> bytes list \<Rightarrow> bytes" where
  "assemble target offset [] = target"
| "assemble target offset (c # cs) =
     assemble (take offset target @ c @ drop (offset + length c) target) (offset + length c) cs"

fun receiveControl :: "stream \<Rightarrow> control \<Rightarrow> stream \<times> (stream_error + action option)" where
  "receiveControl s (SnapshotStart n) =
     (if phase s \<noteq> Awaiting then (s, Inl UnexpectedStart)
      else if \<not> valid_snapshot_size n then (s, Inl InvalidSize)
      else (s\<lparr>phase := InSnapshot, expectedBytes := nat (num_int n), receivedBytes := 0, chunks := []\<rparr>,
            Inr None))"
| "receiveControl s SnapshotEnd =
     (if phase s \<noteq> InSnapshot then (s, Inl UnexpectedEnd)
      else if receivedBytes s \<noteq> expectedBytes s then (s, Inl IncompleteSnapshot)
      else (s\<lparr>chunks := [], phase := InLive\<rparr>,
            Inr (Some (Snapshot (assemble (replicate (receivedBytes s) 0) 0 (chunks s))))))"

definition receiveBinary :: "stream \<Rightarrow> bytes \<Rightarrow> stream \<times> (stream_error + action option)" where
  "receiveBinary s data =
     (case phase s of
        Awaiting \<Rightarrow> (s\<lparr>phase := InLive\<rparr>, Inr (Some (Snapshot data)))
      | InSnapshot \<Rightarrow>
          (let s' = s\<lparr>receivedBytes := receivedBytes s + length data\<rparr> in
           if expectedBytes s' < receivedBytes s' \<or> MAX_TERMINAL_SNAPSHOT_BYTES < receivedBytes s'
           then (s', Inl SizeExceeded)
           else (s'\<lparr>chunks := chunks s' @ [data]\<rparr>, Inr None))
      | InLive \<Rightarrow> (s, Inr (Some (Live data))))"

definition terminalStreamControl :: "json \<Rightarrow> control option" where
  "terminalStreamControl v =
     (if \<not> isRecord v then None
      else if prop_of v ''type'' = Some (jstr ''terminal_snapshot_start'') \<and>
              as_number (prop_of v ''bytes'') \<noteq> None
        then map_option SnapshotStart (as_number (prop_of v ''bytes''))
      else if prop_of v ''type'' = Some (jstr ''terminal_snapshot_end'') then Some SnapshotEnd
      else None)"

section \<open>Runs over the frames of a connection\<close>

datatype frame = Control control | Binary bytes

fun stream_step :: "stream \<Rightarrow> frame \<Rightarrow> stream \<times> (stream_error + action option)" where
  "stream_step s (Control c) = receiveControl s c"
| "stream_step s (Binary d) = receiveBinary s d"

text \<open>\<open>received\<close> in \<open>main.ts\<close> closes the socket on the first error.\<close>

fun stream_run :: "stream \<Rightarrow> frame list \<Rightarrow> stream \<times> action list \<times> stream_error option" where
  "stream_run s [] = (s, [], None)"
| "stream_run s (f # fs) =
     (case stream_step s f of
        (s', Inl e) \<Rightarrow> (s', [], Some e)
      | (s', Inr act) \<Rightarrow>
          (let (s'', acts, err) = stream_run s' fs
           in (s'', (case act of None \<Rightarrow> acts | Some a \<Rightarrow> a # acts), err)))"

fun action_bytes :: "action \<Rightarrow> bytes" where
  "action_bytes (Snapshot d) = d"
| "action_bytes (Live d) = d"

fun frame_bytes :: "frame \<Rightarrow> bytes" where
  "frame_bytes (Control _) = []"
| "frame_bytes (Binary d) = d"

definition stream_inv :: "stream \<Rightarrow> bool" where
  "stream_inv s \<longleftrightarrow>
     (phase s = InSnapshot \<longrightarrow>
        receivedBytes s = length (concat (chunks s)) \<and> receivedBytes s \<le> expectedBytes s \<and>
        expectedBytes s \<le> MAX_TERMINAL_SNAPSHOT_BYTES) \<and>
     (phase s \<noteq> InSnapshot \<longrightarrow> chunks s = [])"

lemma assemble_concat:
  "offset + length (concat cs) = length target \<Longrightarrow> assemble target offset cs = take offset target @ concat cs"
proof (induction target offset cs rule: assemble.induct)
  case (2 target offset c cs)
  let ?t = "take offset target @ c @ drop (offset + length c) target"
  have l: "length (take offset target) = offset" "length ?t = length target"
    using "2.prems" by simp_all
  with "2" have "assemble ?t (offset + length c) cs = take (offset + length c) ?t @ concat cs"
    by simp
  also have "take (offset + length c) ?t = take offset target @ c"
    using l(1) by simp
  finally show ?case by simp
qed simp

lemma new_stream_inv: "stream_inv new_stream"
  by (simp add: stream_inv_def new_stream_def)

lemma valid_snapshot_size_bound:
  "valid_snapshot_size n \<Longrightarrow> nat (num_int n) \<le> MAX_TERMINAL_SNAPSHOT_BYTES"
  by (cases n) (auto simp: valid_snapshot_size_def num_int_def not_less floor_le_iff
      nat_le_iff MAX_TERMINAL_SNAPSHOT_BYTES_def)

lemma stream_step_inv:
  assumes "stream_inv s" "stream_step s f = (s', Inr act)"
  shows "stream_inv s'"
proof (cases f)
  case (Control c)
  then show ?thesis
    using assms valid_snapshot_size_bound by (cases c) (auto simp: stream_inv_def split: if_splits)
next
  case (Binary d)
  then show ?thesis
    using assms by (auto simp: stream_inv_def receiveBinary_def Let_def split: phase.splits if_splits)
qed

text \<open>The bytes delivered and the bytes still buffered are the bytes received, in order.\<close>

lemma stream_step_conserves:
  assumes "stream_inv s" "stream_step s f = (s', Inr act)"
  shows "concat (chunks s) @ frame_bytes f =
    (case act of None \<Rightarrow> [] | Some a \<Rightarrow> action_bytes a) @ concat (chunks s')"
proof (cases f)
  case (Control c)
  then show ?thesis
    using assms by (cases c) (auto simp: stream_inv_def assemble_concat split: if_splits)
next
  case (Binary d)
  then show ?thesis
    using assms by (auto simp: stream_inv_def receiveBinary_def Let_def split: phase.splits if_splits)
qed

lemma live_step: "phase s = InLive \<Longrightarrow> stream_step s f = (s', Inr act) \<Longrightarrow>
    s' = s \<and> act = Some (Live (frame_bytes f))"
  by (cases f rule: frame_bytes.cases; cases "case f of Control c \<Rightarrow> c | _ \<Rightarrow> SnapshotEnd")
     (auto simp: receiveBinary_def)

lemma waiting_step:
  assumes "phase s \<noteq> InLive" "stream_step s f = (s', Inr act)"
  shows "phase s' \<noteq> InLive \<and> act = None \<or> phase s' = InLive \<and> (\<exists>d. act = Some (Snapshot d))"
proof (cases f)
  case (Control c)
  then show ?thesis using assms by (cases c) (auto split: if_splits)
next
  case (Binary d)
  then show ?thesis
    using assms by (auto simp: receiveBinary_def Let_def split: phase.splits if_splits)
qed

lemma stream_run_Cons:
  "stream_run s (f # fs) = (s'', acts, None) \<longleftrightarrow>
     (\<exists>s' act acts'. stream_step s f = (s', Inr act) \<and> stream_run s' fs = (s'', acts', None) \<and>
        acts = (case act of None \<Rightarrow> acts' | Some a \<Rightarrow> a # acts'))"
  by (auto split: prod.splits sum.splits simp: Let_def)

lemma live_run:
  "phase s = InLive \<Longrightarrow> stream_run s fs = (s', acts, None) \<Longrightarrow> s' = s \<and> acts = map (\<lambda>f. Live (frame_bytes f)) fs"
proof (induction fs arbitrary: acts)
  case (Cons f fs)
  then show ?case using live_step [of s f] by (fastforce simp: stream_run_Cons simp del: stream_run.simps)
qed simp

lemma stream_run_conserves:
  assumes "stream_inv s" "stream_run s fs = (s', acts, None)"
  shows "concat (map action_bytes acts) @ concat (chunks s') =
    concat (chunks s) @ concat (map frame_bytes fs)"
  using assms
proof (induction fs arbitrary: s acts)
  case (Cons f fs)
  then obtain t act acts' where t: "stream_step s f = (t, Inr act)" "stream_run t fs = (s', acts', None)"
    "acts = (case act of None \<Rightarrow> acts' | Some a \<Rightarrow> a # acts')"
    unfolding stream_run_Cons by blast
  let ?a = "case act of None \<Rightarrow> [] | Some a \<Rightarrow> action_bytes a"
  have "concat (map action_bytes acts) @ concat (chunks s') =
      ?a @ concat (map action_bytes acts') @ concat (chunks s')"
    using t(3) by (cases act) simp_all
  also have "\<dots> = (?a @ concat (chunks t)) @ concat (map frame_bytes fs)"
    using Cons.IH [OF stream_step_inv [OF Cons.prems(1) t(1)] t(2)] by simp
  also have "\<dots> = (concat (chunks s) @ frame_bytes f) @ concat (map frame_bytes fs)"
    by (simp only: stream_step_conserves [OF Cons.prems(1) t(1)])
  finally show ?case by simp
qed simp

lemma stream_run_shape:
  "phase s \<noteq> InLive \<Longrightarrow> stream_run s fs = (s', acts, None) \<Longrightarrow>
   acts = [] \<and> waitingForSnapshot s' \<or> (\<exists>d ls. acts = Snapshot d # map Live ls \<and> \<not> waitingForSnapshot s')"
proof (induction fs arbitrary: s acts)
  case (Cons f fs)
  then obtain t act acts' where t: "stream_step s f = (t, Inr act)" "stream_run t fs = (s', acts', None)"
    "acts = (case act of None \<Rightarrow> acts' | Some a \<Rightarrow> a # acts')"
    unfolding stream_run_Cons by blast
  from waiting_step [OF Cons.prems(1) t(1)] show ?case
  proof
    assume "phase t \<noteq> InLive \<and> act = None"
    with Cons.IH [of t acts'] t show ?thesis by simp
  next
    assume l: "phase t = InLive \<and> (\<exists>d. act = Some (Snapshot d))"
    with live_run [OF _ t(2)] have "s' = t" "acts' = map Live (map frame_bytes fs)" by simp_all
    with l t(3) show ?thesis by (auto simp: waitingForSnapshot_def simp del: map_map)
  qed
qed (simp add: waitingForSnapshot_def)

lemma stream_run_inv: "stream_inv s \<Longrightarrow> stream_run s fs = (s', acts, None) \<Longrightarrow> stream_inv s'"
proof (induction fs arbitrary: s acts)
  case (Cons f fs)
  then show ?case using stream_step_inv unfolding stream_run_Cons by blast
qed simp

section \<open>Properties\<close>

text \<open>No byte is lost, repeated or reordered: in every run without a protocol error, the bytes
  handed out (the snapshot, then live output) followed by the bytes still buffered for an unfinished
  snapshot are exactly the bytes received.\<close>

theorem stream_conserves_bytes:
  assumes "stream_inv s" "stream_run s fs = (s', acts, None)"
  shows "concat (map action_bytes acts) @ concat (chunks s') =
    concat (chunks s) @ concat (map frame_bytes fs)"
  using assms by (rule stream_run_conserves)

theorem stream_conserves_bytes_witness:
  "concat (map action_bytes [Snapshot [1, 2, 3], Live [4]]) @ concat (chunks new_stream) =
     concat (chunks new_stream) @ concat (map frame_bytes
       [Control (SnapshotStart (Fin 3)), Binary [1, 2], Binary [3], Control SnapshotEnd, Binary [4]])"
proof -
  have "stream_run new_stream
      [Control (SnapshotStart (Fin 3)), Binary [1, 2], Binary [3], Control SnapshotEnd, Binary [4]] =
      (\<lparr>phase = InLive, expectedBytes = 3, receivedBytes = 3, chunks = []\<rparr>, [Snapshot [1, 2, 3], Live [4]], None)"
    by (simp add: new_stream_def valid_snapshot_size_def MAX_TERMINAL_SNAPSHOT_BYTES_def num_is_integer_def
        num_int_def receiveBinary_def)
  from stream_conserves_bytes [OF new_stream_inv this] show ?thesis by (simp add: new_stream_def)
qed

text \<open>One snapshot, first: in every run of a new reconciler without a protocol error, either
  nothing has been handed out and the reconciler still waits for the snapshot, or the first action is
  a snapshot and every later action is live output.\<close>

theorem snapshot_then_live:
  assumes "stream_run new_stream fs = (s', acts, None)"
  shows "acts = [] \<and> waitingForSnapshot s' \<or>
    (\<exists>d ls. acts = Snapshot d # map Live ls \<and> \<not> waitingForSnapshot s')"
  using stream_run_shape [OF _ assms] by (simp add: new_stream_def)

theorem snapshot_then_live_witness:
  "[Snapshot [5, 6], Live [7]] = [] \<and> waitingForSnapshot (new_stream\<lparr>phase := InLive\<rparr>) \<or>
    (\<exists>d ls. [Snapshot [5, 6], Live [7]] = Snapshot d # map Live ls \<and>
       \<not> waitingForSnapshot (new_stream\<lparr>phase := InLive\<rparr>))"
proof (rule snapshot_then_live)
  show "stream_run new_stream [Binary [5, 6], Binary [7]] =
      (new_stream\<lparr>phase := InLive\<rparr>, [Snapshot [5, 6], Live [7]], None)"
    by (simp add: new_stream_def receiveBinary_def)
qed

text \<open>The memory held for a snapshot is bounded: whatever frames arrive, in every state reached
  without an error the buffered bytes are within the announced size and 2 MiB, and outside a framed
  snapshot nothing is buffered.\<close>

theorem snapshot_buffer_bounded:
  assumes "stream_run new_stream fs = (s', acts, None)"
  shows "length (concat (chunks s')) \<le> MAX_TERMINAL_SNAPSHOT_BYTES \<and>
    (\<not> framedSnapshotStarted s' \<longrightarrow> chunks s' = []) \<and>
    (framedSnapshotStarted s' \<longrightarrow> length (concat (chunks s')) \<le> expectedBytes s')"
  using stream_run_inv [OF new_stream_inv assms]
  by (cases "phase s' = InSnapshot") (auto simp: stream_inv_def framedSnapshotStarted_def)

theorem snapshot_buffer_bounded_witness:
  "length (concat (chunks (new_stream\<lparr>phase := InLive\<rparr>))) \<le> MAX_TERMINAL_SNAPSHOT_BYTES \<and>
    chunks (new_stream\<lparr>phase := InLive\<rparr>) = []"
proof -
  have "stream_run new_stream [Binary [5, 6]] = (new_stream\<lparr>phase := InLive\<rparr>, [Snapshot [5, 6]], None)"
    by (simp add: new_stream_def receiveBinary_def)
  from snapshot_buffer_bounded [OF this] show ?thesis by (simp add: framedSnapshotStarted_def)
qed

lemma buffered_run:
  assumes "phase s = InSnapshot" "receivedBytes s + length (concat ds) \<le> expectedBytes s"
    "expectedBytes s \<le> MAX_TERMINAL_SNAPSHOT_BYTES"
  shows "stream_run s (map Binary ds @ fs) =
    stream_run (s\<lparr>receivedBytes := receivedBytes s + length (concat ds), chunks := chunks s @ ds\<rparr>) fs"
  using assms
proof (induction ds arbitrary: s)
  case (Cons d ds)
  let ?s = "s\<lparr>receivedBytes := receivedBytes s + length d, chunks := chunks s @ [d]\<rparr>"
  have "receiveBinary s d = (?s, Inr None)"
    using Cons.prems by (simp add: receiveBinary_def Let_def)
  then have "stream_run s (map Binary (d # ds) @ fs) = stream_run ?s (map Binary ds @ fs)"
    by (simp add: split_beta Let_def)
  also have "\<dots> = stream_run (?s\<lparr>receivedBytes := receivedBytes ?s + length (concat ds), chunks := chunks ?s @ ds\<rparr>) fs"
    using Cons.prems by (intro Cons.IH) simp_all
  finally show ?case by (simp add: add.assoc)
qed simp

lemma live_frames_run: "phase s = InLive \<Longrightarrow> stream_run s (map Binary ls) = (s, map Live ls, None)"
  by (induction ls) (simp_all add: receiveBinary_def)

text \<open>A framed snapshot arrives whole: for every size up to 2 MiB and every way of cutting the
  bytes into frames, the start control, the frames and the end control produce exactly one action, the
  snapshot with all the bytes; frames after it are passed on one by one.\<close>

theorem framed_snapshot_whole:
  assumes "length (concat ds) = n" "n \<le> MAX_TERMINAL_SNAPSHOT_BYTES"
  shows "snd (stream_run new_stream
      (Control (SnapshotStart (fin_nat n)) # map Binary ds @ Control SnapshotEnd # map Binary ls)) =
    (Snapshot (concat ds) # map Live ls, None)"
proof -
  let ?s = "\<lparr>phase = InSnapshot, expectedBytes = n, receivedBytes = 0, chunks = []\<rparr>"
  let ?t = "\<lparr>phase = InSnapshot, expectedBytes = n, receivedBytes = n, chunks = ds\<rparr>"
  have v: "valid_snapshot_size (fin_nat n)"
    using assms(2) unfolding valid_snapshot_size_def MAX_TERMINAL_SNAPSHOT_BYTES_def by simp
  have "assemble (replicate n 0) 0 ds = concat ds"
    using assms(1) by (subst assemble_concat) simp_all
  then have e: "stream_run ?t (Control SnapshotEnd # map Binary ls) =
      (?t\<lparr>phase := InLive, chunks := []\<rparr>, Snapshot (concat ds) # map Live ls, None)"
    by (simp add: live_frames_run)
  have "stream_run new_stream (Control (SnapshotStart (fin_nat n)) # map Binary ds @ Control SnapshotEnd # map Binary ls) =
      stream_run ?s (map Binary ds @ Control SnapshotEnd # map Binary ls)"
    by (simp add: v new_stream_def split_beta Let_def)
  also have "\<dots> = stream_run ?t (Control SnapshotEnd # map Binary ls)"
    using assms by (subst buffered_run) simp_all
  finally show ?thesis unfolding e by simp
qed

theorem framed_snapshot_whole_witness:
  "snd (stream_run new_stream
      (Control (SnapshotStart (fin_nat 3)) # map Binary [[1, 2], [3]] @ Control SnapshotEnd # map Binary [[4]])) =
    (Snapshot (concat [[1, 2], [3]]) # map Live [[4]], None)"
  by (rule framed_snapshot_whole) (simp_all add: MAX_TERMINAL_SNAPSHOT_BYTES_def)

end
