(* ===== verification/SavedHistory.thy ===== *)
theory SavedHistory
  imports JsPrelude "HOL-Library.Multiset"
begin

text \<open>
  Saved terminals, \<open>apps/web/src/terminal-history.ts\<close>: decoding of the daemon's answer, the grouping
  of the dashboard (favourites and recent, newest activity first, without what is running), and the
  names derived from a saved terminal. \<open>Date.parse\<close> depends on the host for most inputs, so it is the
  parameter \<open>date\<close> of the operations that use it: milliseconds, or \<open>None\<close> where it answers NaN.
  \<open>Array.prototype.sort\<close> is stable, as is \<open>sort_key\<close>.
\<close>

definition MAX_TERMINAL_NAME_LENGTH :: nat where
  "MAX_TERMINAL_NAME_LENGTH = 80"

definition MAX_TERMINAL_CWD_LENGTH :: nat where
  "MAX_TERMINAL_CWD_LENGTH = 4096"

definition MAX_SAVED_TERMINALS :: nat where
  "MAX_SAVED_TERMINALS = 110"

lemmas history_limits = MAX_TERMINAL_NAME_LENGTH_def MAX_TERMINAL_CWD_LENGTH_def MAX_SAVED_TERMINALS_def

record saved_terminal =
  saved_id :: jsstring
  sourceSessionId :: jsstring
  activeSessionId :: "jsstring option"
  saved_name :: jsstring
  saved_cwd :: jsstring
  favorite :: bool
  createdAt :: jsstring
  updatedAt :: jsstring
  lastOpenedAt :: jsstring
  lastClosedAt :: "jsstring option"

type_synonym date_parse = "jsstring \<Rightarrow> int option"

datatype history_error = InvalidHistory

section \<open>Decoding\<close>

definition is_hex_char :: "u16 \<Rightarrow> bool" where
  [js_eval]: "is_hex_char c \<longleftrightarrow> (let u = unat c in 48 \<le> u \<and> u \<le> 57 \<or> 97 \<le> u \<and> u \<le> 102)"

definition valid_id :: "jsstring \<Rightarrow> bool" where
  [js_eval]: "valid_id s \<longleftrightarrow> length s = 32 \<and> list_all is_hex_char s"

definition validID :: "json option \<Rightarrow> bool" where
  "validID v = (case as_string v of None \<Rightarrow> False | Some s \<Rightarrow> valid_id s)"

definition validDate :: "date_parse \<Rightarrow> json option \<Rightarrow> bool" where
  "validDate date v = (case as_string v of None \<Rightarrow> False | Some s \<Rightarrow> date s \<noteq> None)"

definition valid_text :: "nat \<Rightarrow> json option \<Rightarrow> bool" where
  "valid_text limit v = (case as_string v of None \<Rightarrow> False | Some s \<Rightarrow> 1 \<le> length s \<and> length s \<le> limit)"

text \<open>The callback of \<open>value.terminals.map\<close>.\<close>

definition decode_item :: "date_parse \<Rightarrow> json \<Rightarrow> history_error + saved_terminal" where
  "decode_item date item =
     (if \<not> isRecord item \<or> \<not> validID (prop_of item ''id'') \<or> \<not> validID (prop_of item ''sourceSessionId'') \<or>
         (prop_of item ''activeSessionId'' \<noteq> None \<and> \<not> validID (prop_of item ''activeSessionId'')) \<or>
         \<not> valid_text MAX_TERMINAL_NAME_LENGTH (prop_of item ''name'') \<or>
         \<not> valid_text MAX_TERMINAL_CWD_LENGTH (prop_of item ''cwd'') \<or>
         as_boolean (prop_of item ''favorite'') = None \<or>
         \<not> validDate date (prop_of item ''createdAt'') \<or> \<not> validDate date (prop_of item ''updatedAt'') \<or>
         \<not> validDate date (prop_of item ''lastOpenedAt'') \<or>
         (prop_of item ''lastClosedAt'' \<noteq> None \<and> \<not> validDate date (prop_of item ''lastClosedAt''))
      then Inl InvalidHistory
      else Inr \<lparr>
        saved_id = the (as_string (prop_of item ''id'')),
        sourceSessionId = the (as_string (prop_of item ''sourceSessionId'')),
        activeSessionId = as_string (prop_of item ''activeSessionId''),
        saved_name = the (as_string (prop_of item ''name'')),
        saved_cwd = the (as_string (prop_of item ''cwd'')),
        favorite = the (as_boolean (prop_of item ''favorite'')),
        createdAt = the (as_string (prop_of item ''createdAt'')),
        updatedAt = the (as_string (prop_of item ''updatedAt'')),
        lastOpenedAt = the (as_string (prop_of item ''lastOpenedAt'')),
        lastClosedAt = as_string (prop_of item ''lastClosedAt'') \<rparr>)"

fun map_or_throw :: "('a \<Rightarrow> 'e + 'b) \<Rightarrow> 'a list \<Rightarrow> 'e + 'b list" where
  "map_or_throw f [] = Inr []"
| "map_or_throw f (x # xs) =
     (case f x of Inl e \<Rightarrow> Inl e
      | Inr y \<Rightarrow> (case map_or_throw f xs of Inl e \<Rightarrow> Inl e | Inr ys \<Rightarrow> Inr (y # ys)))"

definition decodeTerminalHistory :: "date_parse \<Rightarrow> json \<Rightarrow> history_error + saved_terminal list" where
  "decodeTerminalHistory date v =
     (if \<not> isRecord v then Inl InvalidHistory
      else case prop_of v ''terminals'' of
        Some (JArr items) \<Rightarrow>
          if MAX_SAVED_TERMINALS < length items then Inl InvalidHistory
          else map_or_throw (decode_item date) items
      | _ \<Rightarrow> Inl InvalidHistory)"

definition valid_saved :: "date_parse \<Rightarrow> saved_terminal \<Rightarrow> bool" where
  "valid_saved date s \<longleftrightarrow>
     valid_id (saved_id s) \<and> valid_id (sourceSessionId s) \<and>
     (\<forall>a. activeSessionId s = Some a \<longrightarrow> valid_id a) \<and>
     1 \<le> length (saved_name s) \<and> length (saved_name s) \<le> MAX_TERMINAL_NAME_LENGTH \<and>
     1 \<le> length (saved_cwd s) \<and> length (saved_cwd s) \<le> MAX_TERMINAL_CWD_LENGTH \<and>
     date (createdAt s) \<noteq> None \<and> date (updatedAt s) \<noteq> None \<and> date (lastOpenedAt s) \<noteq> None \<and>
     (\<forall>d. lastClosedAt s = Some d \<longrightarrow> date d \<noteq> None)"

text \<open>The object a daemon sends for a saved terminal.\<close>

definition encode_saved :: "saved_terminal \<Rightarrow> json" where
  "encode_saved s = jmsg (
     [(''id'', JStr (saved_id s)), (''sourceSessionId'', JStr (sourceSessionId s)),
      (''name'', JStr (saved_name s)), (''cwd'', JStr (saved_cwd s)), (''favorite'', JBool (favorite s)),
      (''createdAt'', JStr (createdAt s)), (''updatedAt'', JStr (updatedAt s)),
      (''lastOpenedAt'', JStr (lastOpenedAt s))] @
     (case activeSessionId s of None \<Rightarrow> [] | Some a \<Rightarrow> [(''activeSessionId'', JStr a)]) @
     (case lastClosedAt s of None \<Rightarrow> [] | Some d \<Rightarrow> [(''lastClosedAt'', JStr d)]))"

definition encode_history :: "saved_terminal list \<Rightarrow> json" where
  "encode_history ss = jmsg [(''terminals'', JArr (map encode_saved ss))]"

lemma map_or_throw_Inr:
  "map_or_throw f xs = Inr ys \<longleftrightarrow> list_all2 (\<lambda>x y. f x = Inr y) xs ys"
proof (induction xs arbitrary: ys)
  case (Cons x xs)
  show ?case
    by (cases "f x"; cases "map_or_throw f xs")
       (auto simp: list_all2_Cons1 simp flip: Cons.IH)
qed auto

lemma as_string_None_iff: "as_string v = None \<longleftrightarrow> (\<forall>s. v \<noteq> Some (JStr s))"
  by (cases v rule: as_string.cases) auto

lemma validID_iff: "validID v \<longleftrightarrow> (\<exists>s. v = Some (JStr s) \<and> valid_id s)"
  by (cases v rule: as_string.cases) (auto simp: validID_def)

lemma validDate_iff: "validDate date v \<longleftrightarrow> (\<exists>s. v = Some (JStr s) \<and> date s \<noteq> None)"
  by (cases v rule: as_string.cases) (auto simp: validDate_def)

lemma valid_text_iff: "valid_text n v \<longleftrightarrow> (\<exists>s. v = Some (JStr s) \<and> 1 \<le> length s \<and> length s \<le> n)"
  by (cases v rule: as_string.cases) (auto simp: valid_text_def)

lemmas valid_iffs = validID_iff validDate_iff valid_text_iff

lemma decode_item_valid: "decode_item date item = Inr s \<Longrightarrow> valid_saved date s"
  by (auto simp: decode_item_def valid_saved_def valid_iffs split: if_splits)

lemma decode_item_encode: "valid_saved date s \<Longrightarrow> decode_item date (encode_saved s) = Inr s"
  by (cases s; cases "activeSessionId s"; cases "lastClosedAt s")
     (auto simp: decode_item_def encode_saved_def valid_saved_def valid_iffs)

text \<open>C39. Whatever the daemon answers, decoding either fails or returns at most 110 terminals that
  all satisfy the limits of the client: identifiers of 32 hexadecimal digits, names of 1 to 80 and
  directories of 1 to 4096 code units, and dates that parse.\<close>

theorem decoded_history_valid:
  assumes "decodeTerminalHistory date v = Inr ss"
  shows "length ss \<le> MAX_SAVED_TERMINALS \<and> list_all (valid_saved date) ss"
proof -
  obtain items where "list_all2 (\<lambda>x y. decode_item date x = Inr y) items ss" "length items \<le> MAX_SAVED_TERMINALS"
    using assms by (auto simp: decodeTerminalHistory_def map_or_throw_Inr split: if_splits option.splits json.splits)
  then show ?thesis
    by (auto simp: list_all2_conv_all_nth list_all_length intro: decode_item_valid)
qed

text \<open>Decoding inverts the daemon's encoding: every history of at most 110 valid terminals is
  decoded to itself, optional fields included.\<close>

theorem history_round_trip:
  assumes "length ss \<le> MAX_SAVED_TERMINALS" "list_all (valid_saved date) ss"
  shows "decodeTerminalHistory date (encode_history ss) = Inr ss"
proof -
  have "map_or_throw (decode_item date) (map encode_saved ss) = Inr ss"
    using assms(2) unfolding map_or_throw_Inr
    by (auto simp: list_all2_conv_all_nth list_all_length decode_item_encode)
  then show ?thesis using assms(1) by (simp add: decodeTerminalHistory_def encode_history_def)
qed

definition demo_saved :: saved_terminal where
  "demo_saved = \<lparr>saved_id = replicate 32 97, sourceSessionId = replicate 32 98, activeSessionId = None,
     saved_name = js ''api'', saved_cwd = js ''/srv/api'', favorite = True, createdAt = js ''1'',
     updatedAt = js ''2'', lastOpenedAt = js ''3'', lastClosedAt = Some (js ''4'')\<rparr>"

lemma demo_saved_valid: "valid_saved (\<lambda>_. Some 0) demo_saved"
  by (simp add: demo_saved_def valid_saved_def history_limits valid_id_def is_hex_char_def list_all_iff)

theorem history_round_trip_witness:
  "decodeTerminalHistory (\<lambda>_. Some 0) (encode_history [demo_saved]) = Inr [demo_saved]"
  by (rule history_round_trip) (simp_all add: demo_saved_valid history_limits)

theorem decoded_history_valid_witness:
  "length [demo_saved] \<le> MAX_SAVED_TERMINALS \<and> list_all (valid_saved (\<lambda>_. Some 0)) [demo_saved]"
proof (rule decoded_history_valid)
  show "decodeTerminalHistory (\<lambda>_. Some 0) (encode_history [demo_saved]) = Inr [demo_saved]"
    using decode_item_encode [OF demo_saved_valid]
    by (simp add: decodeTerminalHistory_def encode_history_def history_limits)
qed

section \<open>Grouping\<close>

text \<open>\<open>saved.activeSessionId || saved.sourceSessionId\<close>: the empty string counts as absent.\<close>

definition savedSessionID :: "saved_terminal \<Rightarrow> jsstring" where
  "savedSessionID s =
     (case activeSessionId s of None \<Rightarrow> sourceSessionId s
      | Some a \<Rightarrow> if a = [] then sourceSessionId s else a)"

definition or_zero :: "int option \<Rightarrow> int" where
  "or_zero t = (case t of None \<Rightarrow> 0 | Some ms \<Rightarrow> ms)"

definition savedActivityTime :: "date_parse \<Rightarrow> saved_terminal \<Rightarrow> int" where
  "savedActivityTime date s =
     max (max (or_zero (date (createdAt s))) (or_zero (date (updatedAt s))))
       (max (or_zero (date (lastOpenedAt s)))
          (case lastClosedAt s of None \<Rightarrow> 0 | Some d \<Rightarrow> if d = [] then 0 else or_zero (date d)))"

definition by_activity :: "date_parse \<Rightarrow> saved_terminal list \<Rightarrow> saved_terminal list" where
  "by_activity date ss = sort_key (\<lambda>s. - savedActivityTime date s) ss"

record saved_groups =
  favorites :: "saved_terminal list"
  recent :: "saved_terminal list"

definition visibleSavedGroups :: "date_parse \<Rightarrow> saved_terminal list \<Rightarrow> jsstring set \<Rightarrow> saved_groups" where
  "visibleSavedGroups date items running =
     (let visible = filter (\<lambda>s. savedSessionID s \<notin> running) items in
      \<lparr>favorites = by_activity date (filter favorite visible),
       recent = by_activity date (filter (\<lambda>s. \<not> favorite s) visible)\<rparr>)"

lemma mset_by_activity [simp]: "mset (by_activity date ss) = mset ss"
  by (simp add: by_activity_def)

lemma set_by_activity [simp]: "set (by_activity date ss) = set ss"
  by (simp add: by_activity_def)

lemma by_activity_descending:
  "sorted_wrt (\<lambda>s t. savedActivityTime date t \<le> savedActivityTime date s) (by_activity date ss)"
proof -
  have "sorted (map (\<lambda>s. - savedActivityTime date s) (by_activity date ss))"
    unfolding by_activity_def by (rule sorted_sort_key)
  then show ?thesis by (simp add: sorted_map)
qed

lemma by_activity_stable:
  "filter (\<lambda>s. savedActivityTime date s = t) (by_activity date ss) =
   filter (\<lambda>s. savedActivityTime date s = t) ss"
  using sort_key_stable [of "\<lambda>s. - savedActivityTime date s" "- t" ss]
  by (simp add: by_activity_def)

text \<open>The dashboard's groups are a partition of what is not running: every saved terminal whose
  session is not running appears exactly as often as it is saved, favourites in the first group and the
  others in the second, each group with the latest activity first and in the saved order where activity
  times are equal.\<close>

theorem saved_groups_partition:
  fixes date :: date_parse and items :: "saved_terminal list" and running :: "jsstring set"
  defines "g \<equiv> visibleSavedGroups date items running"
  shows "mset (favorites g) + mset (recent g) = mset (filter (\<lambda>s. savedSessionID s \<notin> running) items) \<and>
    list_all favorite (favorites g) \<and> list_all (\<lambda>s. \<not> favorite s) (recent g) \<and>
    sorted_wrt (\<lambda>s t. savedActivityTime date t \<le> savedActivityTime date s) (favorites g) \<and>
    sorted_wrt (\<lambda>s t. savedActivityTime date t \<le> savedActivityTime date s) (recent g) \<and>
    filter (\<lambda>s. savedActivityTime date s = t) (recent g) =
      filter (\<lambda>s. savedActivityTime date s = t \<and> \<not> favorite s \<and> savedSessionID s \<notin> running) items"
proof -
  have "mset (filter favorite vs) + mset (filter (\<lambda>s. \<not> favorite s) vs) = mset vs" for vs :: "saved_terminal list"
    by (induction vs) simp_all
  from this [of "filter (\<lambda>s. savedSessionID s \<notin> running) items"] show ?thesis
    unfolding g_def visibleSavedGroups_def Let_def saved_groups.simps mset_by_activity
    by (simp only: by_activity_descending by_activity_stable filter_filter conj_ac)
       (simp add: list_all_iff conj_ac)
qed

section \<open>Derived names\<close>

definition duplicateTerminalName :: "jsstring \<Rightarrow> jsstring" where
  "duplicateTerminalName name =
     (let base = (if trim name = [] then js ''Terminal'' else trim name); suffix = js '' Copy'' in
      if length base + length suffix \<le> MAX_TERMINAL_NAME_LENGTH then base @ suffix
      else trim_end (slice base 0 (MAX_TERMINAL_NAME_LENGTH - length suffix)) @ suffix)"

definition is_separator :: "u16 \<Rightarrow> bool" where
  [js_eval]: "is_separator c \<longleftrightarrow> c = 92 \<or> c = 47"

definition is_letter :: "u16 \<Rightarrow> bool" where
  [js_eval]: "is_letter c \<longleftrightarrow> (let u = unat c in 65 \<le> u \<and> u \<le> 90 \<or> 97 \<le> u \<and> u \<le> 122)"

definition is_drive :: "jsstring \<Rightarrow> bool" where
  [js_eval]: "is_drive s \<longleftrightarrow> (case s of [c, d] \<Rightarrow> is_letter c \<and> d = 58 | _ \<Rightarrow> False)"

definition projectLabel :: "jsstring \<Rightarrow> jsstring" where
  "projectLabel cwd =
     (let trimmed = rev (dropWhile is_separator (rev (trim cwd))) in
      if trimmed = [] \<or> trimmed = js ''/'' then js ''/''
      else if is_drive trimmed then trimmed @ [92]
      else (case rev (filter (\<lambda>w. w \<noteq> []) (split_on is_separator trimmed)) of
              [] \<Rightarrow> trimmed | w # _ \<Rightarrow> w))"

lemma filter_last: "xs \<noteq> [] \<Longrightarrow> P (last xs) \<Longrightarrow> \<exists>ys. rev (filter P xs) = last xs # ys"
  by (cases xs rule: rev_cases) auto

lemma duplicate_base_not_Nil:
  "trim name \<noteq> [] \<Longrightarrow> 0 < n \<Longrightarrow> trim_end (slice (trim name) 0 n) \<noteq> []"
  using trim_not_Nil [of name] by (cases n) (auto simp: slice_def trim_end_Cons)

text \<open>A duplicated terminal has an acceptable name: for every original name the derived name has
  6 to 80 code units, so the decoder accepts it, and it ends in \<open>" Copy"\<close>.\<close>

theorem duplicate_name_bounds:
  "6 \<le> length (duplicateTerminalName name) \<and> length (duplicateTerminalName name) \<le> MAX_TERMINAL_NAME_LENGTH \<and>
   drop (length (duplicateTerminalName name) - 5) (duplicateTerminalName name) = js '' Copy''"
proof (cases "trim name = [] \<or> length (trim name) \<le> 75")
  case True
  then show ?thesis
    by (cases "trim name") (auto simp: duplicateTerminalName_def Let_def history_limits)
next
  case False
  let ?b = "trim_end (slice (trim name) 0 75)"
  have "?b \<noteq> []" using False by (intro duplicate_base_not_Nil) auto
  moreover have "length ?b \<le> 75"
    using length_trim_end [of "slice (trim name) 0 75"] False by simp
  moreover have "duplicateTerminalName name = ?b @ js '' Copy''"
    using False by (simp add: duplicateTerminalName_def Let_def history_limits)
  ultimately show ?thesis by (cases ?b) (auto simp: history_limits)
qed

text \<open>A project label is one path component: it is never empty, and unless it is the root or a
  drive it is the text after the last separator of the directory (trailing white space and separators
  removed), so it contains no separator.\<close>

theorem project_label_is_last_component:
  "projectLabel cwd \<noteq> [] \<and>
   (projectLabel cwd = js ''/'' \<or> (\<exists>d. is_drive d \<and> projectLabel cwd = d @ [92]) \<or>
    list_all (\<lambda>c. \<not> is_separator c) (projectLabel cwd) \<and>
    (\<exists>p rest. trim cwd = p @ projectLabel cwd @ rest \<and> (p = [] \<or> is_separator (last p)) \<and>
       list_all is_separator rest))"
proof -
  define t where "t = rev (dropWhile is_separator (rev (trim cwd)))"
  have t: "trim cwd = t @ rev (takeWhile is_separator (rev (trim cwd)))"
    by (metis rev_append rev_rev_ident takeWhile_dropWhile_id t_def)
  have r: "list_all is_separator (rev (takeWhile is_separator (rev (trim cwd))))"
    by (auto simp: list_all_iff dest: set_takeWhileD)
  consider "t = [] \<or> t = js ''/''" | "t \<noteq> []" "t \<noteq> js ''/''" "is_drive t"
    | "t \<noteq> []" "t \<noteq> js ''/''" "\<not> is_drive t" by blast
  then show ?thesis
  proof cases
    case 1
    then show ?thesis by (simp add: projectLabel_def t_def [symmetric])
  next
    case 2
    then show ?thesis by (auto simp: projectLabel_def t_def [symmetric])
  next
    case 3
    let ?w = "rev (takeWhile (\<lambda>c. \<not> is_separator c) (rev t))"
    have w: "last (split_on is_separator t) = ?w" by (rule last_split_on)
    have "\<not> is_separator (last t)"
      using 3(1) hd_dropWhile [of is_separator "rev (trim cwd)"] by (simp add: t_def last_rev)
    then have "?w \<noteq> []" using 3(1) by (cases t rule: rev_cases) auto
    then obtain ys where "rev (filter (\<lambda>w. w \<noteq> []) (split_on is_separator t)) = ?w # ys"
      using filter_last [of "split_on is_separator t" "\<lambda>w. w \<noteq> []"] w by auto
    then have l: "projectLabel cwd = ?w"
      using 3 by (simp add: projectLabel_def t_def [symmetric] Let_def)
    have s: "t = rev (dropWhile (\<lambda>c. \<not> is_separator c) (rev t)) @ ?w"
      by (metis rev_append rev_rev_ident takeWhile_dropWhile_id)
    have "rev (dropWhile (\<lambda>c. \<not> is_separator c) (rev t)) = [] \<or>
        is_separator (last (rev (dropWhile (\<lambda>c. \<not> is_separator c) (rev t))))"
      using hd_dropWhile [of "\<lambda>c. \<not> is_separator c" "rev t"] by (auto simp: last_rev)
    moreover have "list_all (\<lambda>c. \<not> is_separator c) ?w" by (auto simp: list_all_iff dest: set_takeWhileD)
    ultimately show ?thesis
      using l \<open>?w \<noteq> []\<close> s t r by (metis append.assoc)
  qed
qed

end
