(* ===== verification/Relay.thy ===== *)
theory Relay
  imports Base64Url
begin

text \<open>
  The Cloudflare relay, \<open>apps/relay/src/index.ts\<close>: the worker entry point (connector authentication)
  and the Durable Object \<open>TermlinksRelay\<close>, which joins one computer (the connector) to at most eight
  browsers and forwards sealed packets without reading them.

  The object's state is the list of web sockets the runtime keeps for it, each with its tags, its
  attachment and its ready state. Every method is a function from that state to the new state and the
  effects it has on sockets (frames sent, closes). The runtime accepts \<open>close\<close> codes 1000 to 4999
  except four reserved ones, ignores a close of a socket that is closing, and lets \<open>send\<close> throw on a
  socket that is not open or whose peer is gone (\<open>broken\<close>). \<open>JSON.parse\<close> and SHA-256 are parameters;
  frames that the relay itself builds are kept as values.
\<close>

definition MAX_ENCRYPTED_PACKET :: nat where
  "MAX_ENCRYPTED_PACKET = 5 * 1024 * 1024"

definition MAX_BROWSER_SOCKETS :: nat where
  "MAX_BROWSER_SOCKETS = 8"

datatype socket_attachment = ConnectorRole | BrowserRole jsstring

record socket =
  sid :: nat
  ready :: ready_state
  broken :: bool
  tags :: "jsstring list"
  attachment :: json

record relay =
  sockets :: "socket list"
  next_sid :: nat

datatype effect = SendJson nat json | SendText nat jsstring | Close nat int jsstring

type_synonym relay_result = "relay \<times> effect list"

datatype payload = Text jsstring | Bytes bytes

section \<open>Pure helpers\<close>

definition is_uuid_char :: "u16 \<Rightarrow> bool" where
  [js_eval]: "is_uuid_char c \<longleftrightarrow> (let u = unat c in 97 \<le> u \<and> u \<le> 102 \<or> 48 \<le> u \<and> u \<le> 57)"

definition isUUID :: "jsstring \<Rightarrow> bool" where
  "isUUID s \<longleftrightarrow> map length (split_on (\<lambda>c. c = 45) s) = [8, 4, 4, 4, 12] \<and>
     list_all (list_all is_uuid_char) (split_on (\<lambda>c. c = 45) s)"

definition socketAttachment :: "json \<Rightarrow> socket_attachment option" where
  "socketAttachment v =
     (if \<not> isRecord v \<or> (prop_of v ''role'' \<noteq> Some (jstr ''connector'') \<and> prop_of v ''role'' \<noteq> Some (jstr ''browser''))
      then None
      else if prop_of v ''role'' = Some (jstr ''browser'') then
        (case as_string (prop_of v ''channel'') of
           None \<Rightarrow> None
         | Some ch \<Rightarrow> if isUUID ch then Some (BrowserRole ch) else None)
      else Some ConnectorRole)"

definition normalizeCloseCode :: "int \<Rightarrow> int" where
  "normalizeCloseCode code =
     (if 1000 \<le> code \<and> code \<le> 4999 \<and> code \<notin> {1004, 1005, 1006, 1015} then code else 1012)"

definition boundedReason :: "jsstring \<Rightarrow> jsstring" where
  "boundedReason reason =
     (let bs = text_encode reason in
      if length bs \<le> 120 then reason else text_decode (take 120 bs))"

record connector_to_browser =
  ctb_id :: jsstring
  ctb_data :: jsstring

definition parseConnectorToBrowser :: "json \<Rightarrow> connector_to_browser option" where
  "parseConnectorToBrowser v =
     (case (as_string (prop_of v ''id''), as_string (prop_of v ''data'')) of
        (Some i, Some d) \<Rightarrow>
          if \<not> isUUID i \<or> length d = 0 \<or> MAX_ENCRYPTED_PACKET < length d \<or> \<not> isBase64URL d then None
          else Some \<lparr>ctb_id = i, ctb_data = d\<rparr>
      | _ \<Rightarrow> None)"

record channel_close =
  cc_id :: jsstring
  cc_code :: "int option"
  cc_reason :: "jsstring option"

definition valid_code_field :: "json option \<Rightarrow> bool" where
  "valid_code_field v =
     (case v of
        None \<Rightarrow> True
      | Some (JNum n) \<Rightarrow> num_is_integer n \<and> 1000 \<le> num_int n \<and> num_int n \<le> 4999
      | _ \<Rightarrow> False)"

definition parseChannelClose :: "json \<Rightarrow> channel_close option" where
  "parseChannelClose v =
     (case as_string (prop_of v ''id'') of
        None \<Rightarrow> None
      | Some i \<Rightarrow>
          if \<not> isUUID i then None
          else if \<not> valid_code_field (prop_of v ''code'') then None
          else if prop_of v ''reason'' \<noteq> None \<and> as_string (prop_of v ''reason'') = None then None
          else Some \<lparr>cc_id = i, cc_code = map_option num_int (as_number (prop_of v ''code'')),
                     cc_reason = as_string (prop_of v ''reason'')\<rparr>)"

section \<open>Sockets of the object\<close>

definition can_send :: "socket \<Rightarrow> bool" where
  "can_send s \<longleftrightarrow> ready s = OPEN \<and> \<not> broken s"

definition getWebSockets :: "relay \<Rightarrow> jsstring \<Rightarrow> socket list" where
  "getWebSockets r tag = filter (\<lambda>s. tag \<in> set (tags s)) (sockets r)"

definition connector :: "relay \<Rightarrow> socket option" where
  "connector r = find (\<lambda>s. ready s = OPEN) (getWebSockets r (js ''connector''))"

definition browser :: "relay \<Rightarrow> jsstring \<Rightarrow> socket option" where
  "browser r channel = find (\<lambda>s. ready s = OPEN) (getWebSockets r (js ''channel:'' @ channel))"

text \<open>\<open>for (const s of ...) s.close(code, reason)\<close> over the sockets that satisfy \<open>P\<close>.\<close>

definition close_where :: "(socket \<Rightarrow> bool) \<Rightarrow> int \<Rightarrow> jsstring \<Rightarrow> relay \<Rightarrow> relay_result" where
  "close_where P code reason r =
     (r\<lparr>sockets := map (\<lambda>s. if P s \<and> ready s < CLOSING then s\<lparr>ready := CLOSING\<rparr> else s) (sockets r)\<rparr>,
      map (\<lambda>s. Close (sid s) code reason) (filter (\<lambda>s. P s \<and> ready s < CLOSING) (sockets r)))"

definition close_socket :: "socket \<Rightarrow> int \<Rightarrow> string \<Rightarrow> relay \<Rightarrow> relay_result" where
  "close_socket s code reason = close_where (\<lambda>t. sid t = sid s) code (js reason)"

definition closeBrowser :: "jsstring \<Rightarrow> int \<Rightarrow> jsstring \<Rightarrow> relay \<Rightarrow> relay_result" where
  "closeBrowser channel code reason r =
     (case browser r channel of
        None \<Rightarrow> (r, [])
      | Some s \<Rightarrow> close_where (\<lambda>t. sid t = sid s) code reason r)"

definition disconnectBrowsers :: "int \<Rightarrow> jsstring \<Rightarrow> relay \<Rightarrow> relay_result" where
  "disconnectBrowsers code reason =
     close_where (\<lambda>s. js ''browser'' \<in> set (tags s)) (normalizeCloseCode code) (boundedReason reason)"

text \<open>\<open>sendToConnector\<close> returns whether the frame was sent.\<close>

definition sendToConnector :: "relay \<Rightarrow> json \<Rightarrow> effect list \<times> bool" where
  "sendToConnector r message =
     (case connector r of
        None \<Rightarrow> ([], False)
      | Some s \<Rightarrow> if can_send s then ([SendJson (sid s) message], True) else ([], False))"

definition add_socket :: "jsstring list \<Rightarrow> json \<Rightarrow> relay \<Rightarrow> relay \<times> socket" where
  "add_socket ts att r =
     (let s = \<lparr>sid = next_sid r, ready = OPEN, broken = False, tags = ts, attachment = att\<rparr>
      in (r\<lparr>sockets := sockets r @ [s], next_sid := next_sid r + 1\<rparr>, s))"

section \<open>Requests\<close>

record request =
  pathname :: jsstring
  req_method :: jsstring
  headers :: "(jsstring, jsstring) jsmap"

record response =
  status :: nat
  resp_headers :: "(string \<times> string) list"
  resp_body :: "json option"

definition securityHeaders :: "(string \<times> string) list" where
  "securityHeaders =
     [(''Cache-Control'', ''no-store''), (''Referrer-Policy'', ''no-referrer''),
      (''X-Content-Type-Options'', ''nosniff''), (''X-Frame-Options'', ''DENY'')]"

definition jsonError :: "nat \<Rightarrow> string \<Rightarrow> response" where
  "jsonError code message =
     \<lparr>status = code,
      resp_headers = securityHeaders @ [(''Content-Type'', ''application/json; charset=utf-8'')],
      resp_body = Some (jmsg [(''error'', jstr message)])\<rparr>"

definition upgraded :: response where
  "upgraded = \<lparr>status = 101, resp_headers = [], resp_body = None\<rparr>"

text \<open>\<open>toLowerCase\<close>, on the byte strings that header values are.\<close>

definition lower_ascii :: "jsstring \<Rightarrow> jsstring" where
  [js_eval]: "lower_ascii s = map (\<lambda>c. if 65 \<le> unat c \<and> unat c \<le> 90 then c + 32 else c) s"

definition is_upgrade :: "request \<Rightarrow> bool" where
  "is_upgrade q \<longleftrightarrow> map_option lower_ascii (map_get (headers q) (js ''upgrade'')) = Some (js ''websocket'')"

definition acceptConnector :: "request \<Rightarrow> relay \<Rightarrow> relay_result \<times> response" where
  "acceptConnector q r =
     (if \<not> is_upgrade q \<or> map_get (headers q) (js ''x-termlinks-connector'') \<noteq> Some (js ''authorized'')
      then ((r, []), jsonError 400 ''Invalid connector request'')
      else
        let (r1, e1) = close_where (\<lambda>s. js ''connector'' \<in> set (tags s)) 1012 (js ''Replaced by a new connector'') r;
            (r2, e2) = disconnectBrowsers 1012 (js ''Computer reconnected'') r1;
            (r3, relaySide) = add_socket [js ''connector''] (jmsg [(''role'', jstr ''connector'')]) r2
        in ((r3, e1 @ e2 @ [SendJson (sid relaySide)
               (jmsg [(''type'', jstr ''connected''), (''protocol'', jstr ''e2e-v1'')])]), upgraded))"

definition acceptBrowser :: "request \<Rightarrow> jsstring \<Rightarrow> relay \<Rightarrow> relay_result \<times> response" where
  "acceptBrowser q channel r =
     (case connector r of
        None \<Rightarrow> ((r, []), jsonError 503 ''Your computer is offline'')
      | Some c \<Rightarrow>
          if \<not> is_upgrade q then ((r, []), jsonError 426 ''WebSocket upgrade required'')
          else if MAX_BROWSER_SOCKETS \<le> length (getWebSockets r (js ''browser''))
            then ((r, []), jsonError 503 ''Too many portal connections'')
          else
            let (r1, relaySide) = add_socket [js ''browser'', js ''channel:'' @ channel]
                  (jmsg [(''role'', jstr ''browser''), (''channel'', JStr channel)]) r
            in if can_send c then
                 ((r1, [SendJson (sid c) (jmsg [(''type'', jstr ''channel_open''), (''id'', JStr channel)]),
                        SendJson (sid relaySide) (jmsg [(''type'', jstr ''bridge_ready''), (''id'', JStr channel),
                          (''protocol'', jstr ''e2e-v1'')])]), upgraded)
               else (close_socket relaySide 1012 ''Your computer is offline'' r1, upgraded))"

definition relay_fetch :: "request \<Rightarrow> jsstring \<Rightarrow> relay \<Rightarrow> relay_result \<times> response" where
  "relay_fetch q channel r =
     (if pathname q = js ''/connector'' then acceptConnector q r
      else if pathname q = js ''/status'' \<and> req_method q = js ''GET'' then
        ((r, []), \<lparr>status = 200, resp_headers = securityHeaders,
                   resp_body = Some (jmsg [(''online'', JBool (connector r \<noteq> None))])\<rparr>)
      else if pathname q = js ''/ws/bridge'' \<and> req_method q = js ''GET'' then acceptBrowser q channel r
      else ((r, []), jsonError 404 ''Not found''))"

text \<open>The worker in front of the object: a response of its own, or the request to forward.\<close>

definition constantTimeEqual :: "(bytes \<Rightarrow> bytes) \<Rightarrow> jsstring \<Rightarrow> jsstring \<Rightarrow> bool" where
  "constantTimeEqual sha provided expected \<longleftrightarrow> sha (text_encode provided) = sha (text_encode expected)"

definition supplied_token :: "request \<Rightarrow> jsstring" where
  "supplied_token q =
     (case map_get (headers q) (js ''authorization'') of
        None \<Rightarrow> []
      | Some a \<Rightarrow> if starts_with (js ''Bearer '') a then drop 7 a else [])"

definition worker_fetch :: "(bytes \<Rightarrow> bytes) \<Rightarrow> json option \<Rightarrow> request \<Rightarrow> response + request" where
  "worker_fetch sha connector_token q =
     (let hs = map_delete (js ''authorization'') (headers q) in
      if pathname q = js ''/connector'' then
        (case as_string connector_token of
           None \<Rightarrow> Inl (jsonError 503 ''Connector authentication is not configured'')
         | Some expected \<Rightarrow>
             if length expected < 32 then Inl (jsonError 503 ''Connector authentication is not configured'')
             else if \<not> constantTimeEqual sha (supplied_token q) expected then Inl (jsonError 401 ''Unauthorized'')
             else Inr (q\<lparr>headers := map_set (js ''x-termlinks-connector'') (js ''authorized'') hs\<rparr>))
      else Inr (q\<lparr>headers := map_delete (js ''x-termlinks-connector'') hs\<rparr>))"

section \<open>Messages\<close>

definition forwardCiphertext :: "jsstring \<Rightarrow> payload \<Rightarrow> relay \<Rightarrow> relay_result" where
  "forwardCiphertext channel message r =
     (case message of
        Text t \<Rightarrow>
          if length t = 0 \<or> MAX_ENCRYPTED_PACKET < length t \<or> \<not> isBase64URL t
          then closeBrowser channel 1007 (js ''Invalid encrypted packet'') r
          else
            (let (effs, sent) = sendToConnector r
                   (jmsg [(''type'', jstr ''e2e_from_browser''), (''id'', JStr channel), (''data'', JStr t)])
             in if sent then (r, effs) else closeBrowser channel 1012 (js ''Your computer is offline'') r)
      | Bytes _ \<Rightarrow> closeBrowser channel 1007 (js ''Invalid encrypted packet'') r)"

definition handleConnectorMessage :: "socket \<Rightarrow> json \<Rightarrow> relay \<Rightarrow> relay_result" where
  "handleConnectorMessage s v r =
     (case (isRecord v, as_string (prop_of v ''type'')) of
        (True, Some t) \<Rightarrow>
          if t = js ''e2e_to_browser'' then
            (case parseConnectorToBrowser v of
               None \<Rightarrow> close_socket s 1007 ''Invalid encrypted browser message'' r
             | Some m \<Rightarrow>
                 (case browser r (ctb_id m) of
                    None \<Rightarrow> (r, [])
                  | Some b \<Rightarrow>
                      if can_send b then (r, [SendText (sid b) (ctb_data m)])
                      else close_socket b 1011 ''Encrypted forwarding failed'' r))
          else if t = js ''channel_close'' then
            (case parseChannelClose v of
               None \<Rightarrow> close_socket s 1007 ''Invalid channel close'' r
             | Some m \<Rightarrow>
                 closeBrowser (cc_id m) (normalizeCloseCode (case cc_code m of None \<Rightarrow> 1000 | Some c \<Rightarrow> c))
                   (boundedReason (case cc_reason m of None \<Rightarrow> [] | Some x \<Rightarrow> x)) r)
          else if t = js ''ping'' then
            (r, if can_send s then [SendJson (sid s) (jmsg [(''type'', jstr ''pong'')])] else [])
          else if t \<noteq> js ''hello'' then close_socket s 1007 ''Unsupported connector message'' r
          else (r, [])
      | _ \<Rightarrow> close_socket s 1007 ''Invalid connector message'' r)"

definition webSocketMessage :: "(jsstring \<Rightarrow> json option) \<Rightarrow> socket \<Rightarrow> payload \<Rightarrow> relay \<Rightarrow> relay_result" where
  "webSocketMessage parse s message r =
     (case socketAttachment (attachment s) of
        None \<Rightarrow> close_socket s 1008 ''Invalid socket state'' r
      | Some (BrowserRole channel) \<Rightarrow> forwardCiphertext channel message r
      | Some ConnectorRole \<Rightarrow>
          (case message of
             Bytes _ \<Rightarrow> close_socket s 1009 ''Connector message too large'' r
           | Text t \<Rightarrow>
               if MAX_ENCRYPTED_PACKET * 2 < length t then close_socket s 1009 ''Connector message too large'' r
               else (case parse t of
                       None \<Rightarrow> close_socket s 1007 ''Invalid connector message'' r
                     | Some v \<Rightarrow> handleConnectorMessage s v r)))"

definition other_connector :: "relay \<Rightarrow> socket \<Rightarrow> bool" where
  "other_connector r s \<longleftrightarrow> (case connector r of None \<Rightarrow> False | Some c \<Rightarrow> sid c \<noteq> sid s)"

definition channel_close_message :: "jsstring \<Rightarrow> int \<Rightarrow> jsstring \<Rightarrow> json" where
  "channel_close_message channel code reason =
     jmsg [(''type'', jstr ''channel_close''), (''id'', JStr channel), (''code'', jint code), (''reason'', JStr reason)]"

definition webSocketClose :: "socket \<Rightarrow> int \<Rightarrow> jsstring \<Rightarrow> relay \<Rightarrow> relay_result" where
  "webSocketClose s code reason r =
     (case socketAttachment (attachment s) of
        Some ConnectorRole \<Rightarrow>
          if other_connector r s then (r, [])
          else disconnectBrowsers (if code = 1000 then 1012 else code)
                 (if reason = [] then js ''Computer disconnected'' else reason) r
      | Some (BrowserRole channel) \<Rightarrow>
          (r, fst (sendToConnector r
             (channel_close_message channel (normalizeCloseCode code) (boundedReason reason))))
      | None \<Rightarrow> (r, []))"

definition webSocketError :: "socket \<Rightarrow> relay \<Rightarrow> relay_result" where
  "webSocketError s r =
     (case socketAttachment (attachment s) of
        Some ConnectorRole \<Rightarrow>
          if other_connector r s then (r, []) else disconnectBrowsers 1012 (js ''Computer connection failed'') r
      | Some (BrowserRole channel) \<Rightarrow>
          (r, fst (sendToConnector r (channel_close_message channel 1011 (js ''Browser connection failed''))))
      | None \<Rightarrow> (r, []))"

section \<open>Events\<close>

text \<open>What can happen to the relay: a request (with the channel name that \<open>crypto.randomUUID\<close> would
  give it), a message on an open socket, the end of a socket, a failure of a socket, and a peer that
  disappears without notice. For an ended or failed socket the runtime marks it closed, runs the
  handler and drops the socket.\<close>

datatype event = Request request jsstring | Message nat payload | Ended nat int jsstring | Failed nat | PeerLost nat

definition socket_of :: "relay \<Rightarrow> nat \<Rightarrow> socket option" where
  "socket_of r i = find (\<lambda>s. sid s = i) (sockets r)"

definition update_socket :: "nat \<Rightarrow> (socket \<Rightarrow> socket) \<Rightarrow> relay \<Rightarrow> relay" where
  "update_socket i f r = r\<lparr>sockets := map (\<lambda>s. if sid s = i then f s else s) (sockets r)\<rparr>"

definition drop_socket :: "nat \<Rightarrow> relay \<Rightarrow> relay" where
  "drop_socket i r = r\<lparr>sockets := filter (\<lambda>s. sid s \<noteq> i) (sockets r)\<rparr>"

record world =
  parse_text :: "jsstring \<Rightarrow> json option"
  digest :: "bytes \<Rightarrow> bytes"
  token :: "json option"

fun relay_step :: "world \<Rightarrow> relay \<Rightarrow> event \<Rightarrow> relay_result" where
  "relay_step w r (Request q channel) =
     (case worker_fetch (digest w) (token w) q of
        Inl _ \<Rightarrow> (r, [])
      | Inr q' \<Rightarrow> fst (relay_fetch q' channel r))"
| "relay_step w r (Message i m) =
     (case socket_of r i of None \<Rightarrow> (r, []) | Some s \<Rightarrow> webSocketMessage (parse_text w) s m r)"
| "relay_step w r (Ended i code reason) =
     (case socket_of r i of
        None \<Rightarrow> (r, [])
      | Some s \<Rightarrow> (let (r', effs) = webSocketClose s code reason (update_socket i (ready_update (\<lambda>_. CLOSED)) r)
                  in (drop_socket i r', effs)))"
| "relay_step w r (Failed i) =
     (case socket_of r i of
        None \<Rightarrow> (r, [])
      | Some s \<Rightarrow> (let (r', effs) = webSocketError s (update_socket i (ready_update (\<lambda>_. CLOSED)) r)
                  in (drop_socket i r', effs)))"
| "relay_step w r (PeerLost i) = (update_socket i (broken_update (\<lambda>_. True)) r, [])"

definition empty_relay :: relay where
  "empty_relay = \<lparr>sockets = [], next_sid = 0\<rparr>"

text \<open>A fresh channel name: \<open>crypto.randomUUID\<close> gives a lower-case UUID that is not in use.\<close>

definition fresh_channel :: "relay \<Rightarrow> jsstring \<Rightarrow> bool" where
  "fresh_channel r channel \<longleftrightarrow> isUUID channel \<and> getWebSockets r (js ''channel:'' @ channel) = []"

definition event_ok :: "relay \<Rightarrow> event \<Rightarrow> bool" where
  "event_ok r e \<longleftrightarrow> (case e of Request _ channel \<Rightarrow> fresh_channel r channel | _ \<Rightarrow> True)"

inductive reachable :: "world \<Rightarrow> relay \<Rightarrow> bool" for w where
  start: "reachable w empty_relay"
| step: "reachable w r \<Longrightarrow> event_ok r e \<Longrightarrow> reachable w (fst (relay_step w r e))"

end
