(* ===== verification/RelaySafety.thy ===== *)
theory RelaySafety
  imports Relay
begin

text \<open>
  What the relay guarantees in every reachable state: the sockets keep the tags and attachments that
  \<open>acceptConnector\<close> and \<open>acceptBrowser\<close> gave them, no channel has two sockets, at most one connector is
  open and at most eight browser sockets exist (\<open>relay_inv\<close>); frames travel only between the open
  connector and the socket of their own channel; every close the relay issues is one the runtime
  accepts; and a connector is admitted only with the configured token.
\<close>

section \<open>Sockets keep their shape\<close>

definition is_connector :: "socket \<Rightarrow> bool" where
  "is_connector s \<longleftrightarrow> tags s = [js ''connector''] \<and> attachment s = jmsg [(''role'', jstr ''connector'')]"

definition is_browser_of :: "jsstring \<Rightarrow> socket \<Rightarrow> bool" where
  "is_browser_of ch s \<longleftrightarrow> isUUID ch \<and> tags s = [js ''browser'', js ''channel:'' @ ch] \<and>
     attachment s = jmsg [(''role'', jstr ''browser''), (''channel'', JStr ch)]"

definition open_connectors :: "socket list \<Rightarrow> socket list" where
  "open_connectors ss = filter (\<lambda>s. is_connector s \<and> ready s = OPEN) ss"

definition browsers :: "socket list \<Rightarrow> socket list" where
  "browsers ss = filter (\<lambda>s. \<exists>ch. is_browser_of ch s) ss"

definition relay_inv :: "relay \<Rightarrow> bool" where
  "relay_inv r \<longleftrightarrow>
     distinct (map sid (sockets r)) \<and>
     (\<forall>s \<in> set (sockets r). sid s < next_sid r) \<and>
     (\<forall>s \<in> set (sockets r). is_connector s \<or> (\<exists>ch. is_browser_of ch s)) \<and>
     distinct (map tags (browsers (sockets r))) \<and>
     length (open_connectors (sockets r)) \<le> 1 \<and>
     length (browsers (sockets r)) \<le> MAX_BROWSER_SOCKETS"

lemma tag_facts [simp]:
  "js ''connector'' \<noteq> js ''browser''" "js ''connector'' \<noteq> js ''channel:'' @ ch"
  "js ''channel:'' @ ch \<noteq> js ''connector''" "js ''browser'' \<noteq> js ''channel:'' @ ch"
  "js ''channel:'' @ ch \<noteq> js ''browser''"
  by (simp_all add: js_def)

lemma socket_shape:
  "is_connector s \<Longrightarrow> \<not> is_browser_of ch s"
  "is_browser_of ch s \<Longrightarrow> is_browser_of ch' s \<Longrightarrow> ch' = ch"
  "is_connector s \<Longrightarrow> js ''connector'' \<in> set (tags s) \<and> js ''browser'' \<notin> set (tags s)"
  "is_browser_of ch s \<Longrightarrow> js ''connector'' \<notin> set (tags s) \<and> js ''browser'' \<in> set (tags s)"
  "is_connector s \<Longrightarrow> js ''channel:'' @ c \<notin> set (tags s)"
  "is_browser_of ch s \<Longrightarrow> js ''channel:'' @ c \<in> set (tags s) \<longleftrightarrow> c = ch"
  by (auto simp: is_connector_def is_browser_of_def)

lemma attachment_of_shape:
  "is_connector s \<Longrightarrow> socketAttachment (attachment s) = Some ConnectorRole"
  "is_browser_of ch s \<Longrightarrow> socketAttachment (attachment s) = Some (BrowserRole ch)"
  by (simp_all add: is_connector_def is_browser_of_def socketAttachment_def)

lemma tag_iff:
  assumes "is_connector s \<or> (\<exists>ch. is_browser_of ch s)"
  shows "js ''connector'' \<in> set (tags s) \<longleftrightarrow> is_connector s"
    "js ''browser'' \<in> set (tags s) \<longleftrightarrow> (\<exists>ch. is_browser_of ch s)"
    "js ''channel:'' @ c \<in> set (tags s) \<longleftrightarrow> is_browser_of c s"
  using assms by (metis socket_shape)+

lemma getWebSockets_shape:
  assumes "\<forall>s \<in> set (sockets r). is_connector s \<or> (\<exists>ch. is_browser_of ch s)"
  shows "getWebSockets r (js ''connector'') = filter is_connector (sockets r)"
    "getWebSockets r (js ''browser'') = browsers (sockets r)"
    "getWebSockets r (js ''channel:'' @ ch) = filter (is_browser_of ch) (sockets r)"
  using assms unfolding getWebSockets_def browsers_def
  by (auto intro!: filter_cong simp: tag_iff simp del: set_ConsD)

text \<open>A step that changes sockets in place only: nothing is opened, no tag or attachment changes.\<close>

definition ages :: "(socket \<Rightarrow> socket) \<Rightarrow> bool" where
  "ages f \<longleftrightarrow> (\<forall>s. sid (f s) = sid s \<and> tags (f s) = tags s \<and> attachment (f s) = attachment s \<and>
     (ready (f s) = OPEN \<longrightarrow> ready s = OPEN))"

definition only_ages :: "relay \<Rightarrow> relay \<Rightarrow> bool" where
  "only_ages r r' \<longleftrightarrow> (\<exists>f. ages f \<and> r' = r\<lparr>sockets := map f (sockets r)\<rparr>)"

lemma only_ages_map: "ages f \<Longrightarrow> only_ages r (r\<lparr>sockets := map f (sockets r)\<rparr>)"
  by (auto simp: only_ages_def)

lemma only_ages_refl [simp]: "only_ages r r"
  using only_ages_map [of id r] by (simp add: ages_def)

lemma only_ages_trans: "only_ages r r' \<Longrightarrow> only_ages r' r'' \<Longrightarrow> only_ages r r''"
proof -
  assume "only_ages r r'" "only_ages r' r''"
  then obtain f g where "ages f" "ages g" "r' = r\<lparr>sockets := map f (sockets r)\<rparr>"
    "r'' = r'\<lparr>sockets := map g (sockets r')\<rparr>"
    unfolding only_ages_def by blast
  moreover from this have "ages (g \<circ> f)" unfolding ages_def comp_def by metis
  ultimately show ?thesis using only_ages_map [of "g \<circ> f" r] by simp
qed

lemma filter_map_length_le:
  "(\<And>s. P (f s) \<Longrightarrow> P s) \<Longrightarrow> length (filter P (map f ss)) \<le> length (filter P ss)"
  by (induction ss) (auto intro: le_SucI)

lemma only_ages_inv:
  assumes "relay_inv r" "only_ages r r'"
  shows "relay_inv r'"
proof -
  obtain f where "ages f" and r': "r' = r\<lparr>sockets := map f (sockets r)\<rparr>"
    using assms(2) unfolding only_ages_def by blast
  then have f: "sockets r' = map f (sockets r)" "next_sid r' = next_sid r"
    and keep: "\<And>s. sid (f s) = sid s" "\<And>s. tags (f s) = tags s" "\<And>s. attachment (f s) = attachment s"
      "\<And>s. ready (f s) = OPEN \<Longrightarrow> ready s = OPEN"
    by (simp_all add: ages_def)
  have shape: "is_connector (f s) = is_connector s" "is_browser_of ch (f s) = is_browser_of ch s" for s ch
    by (simp_all add: is_connector_def is_browser_of_def keep)
  have "browsers (sockets r') = map f (browsers (sockets r))"
    by (simp add: browsers_def f filter_map comp_def shape)
  moreover have "length (open_connectors (sockets r')) \<le> length (open_connectors (sockets r))"
    unfolding open_connectors_def f by (rule filter_map_length_le) (auto simp: shape dest: keep(4))
  ultimately show ?thesis
    using assms(1) unfolding relay_inv_def
    by (simp add: f comp_def keep shape)
qed

lemma filter_sockets_inv:
  assumes "relay_inv r"
  shows "relay_inv (r\<lparr>sockets := filter P (sockets r)\<rparr>)"
proof -
  have "browsers (filter P (sockets r)) = filter P (browsers (sockets r))"
    "open_connectors (filter P (sockets r)) = filter P (open_connectors (sockets r))"
    by (auto simp: browsers_def open_connectors_def intro: filter_cong)
  then show ?thesis
    using assms unfolding relay_inv_def
    by (auto simp: distinct_map_filter intro: order_trans [OF length_filter_le])
qed

lemma close_where_ages: "only_ages r (fst (close_where P code reason r))"
  unfolding close_where_def fst_conv by (rule only_ages_map) (simp add: ages_def)

lemma closes_age:
  "only_ages r (fst (close_socket s code m r))"
  "only_ages r (fst (closeBrowser ch code reason r))"
  "only_ages r (fst (disconnectBrowsers code reason r))"
  by (auto simp: close_socket_def closeBrowser_def disconnectBrowsers_def close_where_ages split: option.splits)

lemma update_socket_ages:
  "only_ages r (update_socket i (ready_update (\<lambda>_. CLOSED)) r)"
  "only_ages r (update_socket i (broken_update (\<lambda>_. True)) r)"
  unfolding update_socket_def by (rule only_ages_map; simp add: ages_def)+

lemma forwardCiphertext_ages: "only_ages r (fst (forwardCiphertext ch m r))"
  by (cases m) (simp_all add: forwardCiphertext_def closes_age split: prod.split)

lemma handleConnectorMessage_ages: "only_ages r (fst (handleConnectorMessage s v r))"
  by (cases "isRecord v"; cases "as_string (prop_of v ''type'')")
     (simp_all add: handleConnectorMessage_def closes_age split: option.split)

lemma message_ages: "only_ages r (fst (webSocketMessage parse s m r))"
  unfolding webSocketMessage_def
  by (simp add: closes_age forwardCiphertext_ages handleConnectorMessage_ages
      split: option.split socket_attachment.split payload.split)

lemma close_handlers_age:
  "only_ages r (fst (webSocketClose s code reason r))" "only_ages r (fst (webSocketError s r))"
  by (auto simp: webSocketClose_def webSocketError_def closes_age split: option.splits socket_attachment.splits)

section \<open>The invariant is kept\<close>

lemma connector_shape:
  assumes "relay_inv r"
  shows "connector r = Some c \<Longrightarrow> c \<in> set (sockets r) \<and> is_connector c \<and> ready c = OPEN"
    "connector r = None \<longleftrightarrow> open_connectors (sockets r) = []"
    "browser r ch = Some b \<Longrightarrow> b \<in> set (sockets r) \<and> is_browser_of ch b \<and> ready b = OPEN"
  using assms unfolding relay_inv_def connector_def browser_def
  by (auto simp: getWebSockets_shape find_Some_iff find_None_iff open_connectors_def filter_empty_conv
      dest!: nth_mem [of _ "filter _ _"])

lemma add_connector_inv:
  assumes inv: "relay_inv r" and none: "open_connectors (sockets r) = []"
  shows "relay_inv (fst (add_socket [js ''connector''] (jmsg [(''role'', jstr ''connector'')]) r))"
proof -
  have b: "browsers (sockets r @ [s]) = browsers (sockets r)" if "is_connector s" for s
    using that by (simp add: browsers_def socket_shape)
  have o: "length (open_connectors (sockets r @ [s])) \<le> 1" for s
    using none by (simp add: open_connectors_def)
  show ?thesis
    using inv unfolding relay_inv_def add_socket_def Let_def
    by (auto simp: o [simplified] less_SucI b is_connector_def)
qed

lemma add_browser_inv:
  assumes inv: "relay_inv r" and room: "length (browsers (sockets r)) < MAX_BROWSER_SOCKETS"
    and fresh: "fresh_channel r ch"
  shows "relay_inv (fst (add_socket [js ''browser'', js ''channel:'' @ ch]
           (jmsg [(''role'', jstr ''browser''), (''channel'', JStr ch)]) r))"
proof -
  have uuid: "isUUID ch" and unused: "\<And>s. s \<in> set (sockets r) \<Longrightarrow> js ''channel:'' @ ch \<notin> set (tags s)"
    using fresh by (auto simp: fresh_channel_def getWebSockets_def filter_empty_conv)
  let ?s = "\<lparr>sid = next_sid r, ready = OPEN, broken = False, tags = [js ''browser'', js ''channel:'' @ ch],
     attachment = jmsg [(''role'', jstr ''browser''), (''channel'', JStr ch)]\<rparr>"
  have s: "is_browser_of ch ?s" "\<not> is_connector ?s"
    by (simp_all add: is_browser_of_def is_connector_def uuid)
  have "tags ?s \<notin> tags ` set (browsers (sockets r))"
    using unused by (auto simp: browsers_def) (metis list.set_intros)
  then show ?thesis
    using inv room s unfolding relay_inv_def add_socket_def Let_def
    by (auto simp: less_SucI browsers_def open_connectors_def)
qed

lemma closed_connectors_gone:
  "open_connectors (sockets (fst (close_where (\<lambda>s. js ''connector'' \<in> set (tags s)) code reason r))) = []"
  by (auto simp: close_where_def open_connectors_def filter_empty_conv is_connector_def less_CLOSING_iff)

lemma only_ages_no_connectors:
  "only_ages r r' \<Longrightarrow> open_connectors (sockets r) = [] \<Longrightarrow> open_connectors (sockets r') = []"
  by (fastforce simp: only_ages_def ages_def open_connectors_def filter_empty_conv is_connector_def)

lemma acceptConnector_inv: "relay_inv r \<Longrightarrow> relay_inv (fst (fst (acceptConnector q r)))"
proof -
  assume inv: "relay_inv r"
  let ?r1 = "fst (close_where (\<lambda>s. js ''connector'' \<in> set (tags s)) 1012 (js ''Replaced by a new connector'') r)"
  let ?r2 = "fst (disconnectBrowsers 1012 (js ''Computer reconnected'') ?r1)"
  have "relay_inv ?r2"
    using inv by (meson close_where_ages closes_age only_ages_inv)
  moreover have "open_connectors (sockets ?r2) = []"
    by (rule only_ages_no_connectors [OF closes_age(3) closed_connectors_gone])
  ultimately show ?thesis
    using inv add_connector_inv [of ?r2]
    by (simp add: acceptConnector_def case_prod_beta Let_def)
qed

lemma acceptBrowser_inv:
  "relay_inv r \<Longrightarrow> fresh_channel r ch \<Longrightarrow> relay_inv (fst (fst (acceptBrowser q ch r)))"
proof -
  assume inv: "relay_inv r" and fresh: "fresh_channel r ch"
  have b: "getWebSockets r (js ''browser'') = browsers (sockets r)"
    using inv getWebSockets_shape(2) [of r] by (simp add: relay_inv_def)
  have "length (browsers (sockets r)) < MAX_BROWSER_SOCKETS \<Longrightarrow>
      relay_inv (fst (add_socket [js ''browser'', js ''channel:'' @ ch]
           (jmsg [(''role'', jstr ''browser''), (''channel'', JStr ch)]) r))"
    by (rule add_browser_inv [OF inv _ fresh])
  then show ?thesis
    using inv only_ages_inv [OF _ closes_age(1)]
    by (auto simp: acceptBrowser_def b not_le split: option.split prod.split)
qed

lemma relay_fetch_inv: "relay_inv r \<Longrightarrow> fresh_channel r ch \<Longrightarrow> relay_inv (fst (fst (relay_fetch q ch r)))"
  by (simp add: relay_fetch_def acceptConnector_inv acceptBrowser_inv)

lemma drop_socket_inv: "relay_inv r \<Longrightarrow> relay_inv (drop_socket i r)"
  by (simp add: drop_socket_def filter_sockets_inv)

lemma relay_step_inv: "relay_inv r \<Longrightarrow> event_ok r e \<Longrightarrow> relay_inv (fst (relay_step w r e))"
proof (cases e)
  case (Ended i code reason)
  moreover assume "relay_inv r"
  ultimately show ?thesis
    by (auto split: option.split prod.split intro!: drop_socket_inv
        dest: only_ages_inv [OF only_ages_inv [OF _ update_socket_ages(1)] close_handlers_age(1)])
       (metis close_handlers_age(1) fst_conv only_ages_inv update_socket_ages(1))
next
  case (Failed i)
  moreover assume "relay_inv r"
  ultimately show ?thesis
    by (auto split: option.split prod.split intro!: drop_socket_inv)
       (metis close_handlers_age(2) fst_conv only_ages_inv update_socket_ages(1))
qed (auto simp: event_ok_def relay_fetch_inv split: option.split sum.split
      intro: only_ages_inv [OF _ message_ages] only_ages_inv [OF _ update_socket_ages(2)])

lemma empty_relay_inv: "relay_inv empty_relay"
  by (simp add: relay_inv_def empty_relay_def browsers_def open_connectors_def)

lemma reachable_inv: "reachable w r \<Longrightarrow> relay_inv r"
  by (induction rule: reachable.induct) (simp_all add: empty_relay_inv relay_step_inv)

section \<open>Close frames\<close>

lemma drop_bom_length: "sum_list (map f (drop_bom ns)) \<le> (sum_list (map f ns) :: nat)"
  by (cases ns) auto

lemma length_text_encode_decode:
  assumes "\<And>n. n \<in> set (dec_run Start (map unat bs)) \<Longrightarrow> is_scalar n"
  shows "length (text_encode (text_decode bs)) \<le>
    sum_list (map (\<lambda>n. length (utf8_scalar n)) (dec_run Start (map unat bs)))"
  using drop_bom_length [of _ "dec_run Start (map unat bs)"]
  by (simp only: length_text_encode scalars_decoded [OF assms])

lemma boundedReason_le: "length (text_encode (boundedReason s)) \<le> 122"
proof (cases "length (text_encode s) \<le> 120")
  case True
  then show ?thesis by (simp add: boundedReason_def)
next
  case False
  let ?bs = "take 120 (text_encode s)"
  have "120 \<le> length (concat (map utf8_scalar (scalars s)))"
    using False by (simp flip: map_unat_text_encode)
  then obtain ms t rest where split: "take 120 (concat (map utf8_scalar (scalars s))) = concat (map utf8_scalar ms) @ t"
    "scalars s = ms @ rest" "t = [] \<or> (\<exists>n r j. rest = n # r \<and> 0 < j \<and> j < length (utf8_scalar n) \<and> t = take j (utf8_scalar n))"
    by (rule take_concat_split)
  have ms: "\<And>n. n \<in> set ms \<Longrightarrow> is_scalar n" and rest: "\<And>n. n \<in> set rest \<Longrightarrow> is_scalar n"
    using scalars_are_scalar [of _ s] by (auto simp: split(2))
  have bs: "map unat ?bs = concat (map utf8_scalar ms) @ t"
    by (simp only: take_map [symmetric] map_unat_text_encode split(1))
  have run: "dec_run Start (map unat ?bs) = ms @ dec_run Start t"
    unfolding bs using ms by (rule dec_run_concat)
  have tail: "dec_run Start t = (if t = [] then [] else [0xFFFD])"
    using split(3) rest dec_run_truncated by auto
  have "length (concat (map utf8_scalar ms)) + length t \<le> 120"
    using bs [THEN arg_cong, of length] by simp
  moreover have "length (text_encode (text_decode ?bs)) \<le>
      sum_list (map (\<lambda>n. length (utf8_scalar n)) (ms @ dec_run Start t))"
    unfolding run [symmetric]
    by (rule length_text_encode_decode) (auto simp: run tail intro: ms split: if_splits, simp_all add: is_scalar_def)
  moreover have "sum_list (map (\<lambda>n. length (utf8_scalar n)) (dec_run Start t)) \<le> (if t = [] then 0 else 3)"
    by (simp add: tail utf8_scalar_def)
  ultimately show ?thesis
    using False by (cases t) (auto simp: boundedReason_def length_concat comp_def)
qed

text \<open>What the runtime requires of \<open>close(code, reason)\<close>.\<close>

definition server_close_ok :: "int \<Rightarrow> jsstring \<Rightarrow> bool" where
  "server_close_ok code reason \<longleftrightarrow>
     1000 \<le> code \<and> code \<le> 4999 \<and> code \<notin> {1004, 1005, 1006, 1015} \<and> length (text_encode reason) \<le> 123"

lemma length_text_encode_js: "length (text_encode (js s)) \<le> 2 * length s"
proof -
  have "(of_char c :: nat) < 0x800" for c
    by (rule less_le_trans [OF of_char_less_256]) simp
  then have "length (utf8_scalar (of_char c)) \<le> 2" for c
    by (simp add: utf8_scalar_def)
  then have "sum_list (map (\<lambda>c. length (utf8_scalar (of_char c))) s) \<le> sum_list (map (\<lambda>_. 2) s)"
    by (rule sum_list_mono)
  then show ?thesis by (simp add: length_text_encode scalars_js comp_def sum_list_triv)
qed

lemma literal_close_ok:
  "1000 \<le> code \<Longrightarrow> code \<le> 4999 \<Longrightarrow> code \<notin> {1004, 1005, 1006, 1015} \<Longrightarrow> length s \<le> 61 \<Longrightarrow> server_close_ok code (js s)"
  using length_text_encode_js [of s] by (simp add: server_close_ok_def)

lemma normalized_close_ok:
  "length (text_encode reason) \<le> 123 \<Longrightarrow> server_close_ok (normalizeCloseCode code) reason"
  by (auto simp: server_close_ok_def normalizeCloseCode_def)


definition closes_ok :: "effect list \<Rightarrow> bool" where
  "closes_ok effs \<longleftrightarrow> (\<forall>i code reason. Close i code reason \<in> set effs \<longrightarrow> server_close_ok code reason)"

lemma closes_ok_simps [simp]:
  "closes_ok []" "closes_ok (SendJson i v # effs) = closes_ok effs" "closes_ok (SendText i t # effs) = closes_ok effs"
  "closes_ok (effs @ effs') \<longleftrightarrow> closes_ok effs \<and> closes_ok effs'"
  by (auto simp: closes_ok_def)

lemma close_where_ok: "server_close_ok code reason \<Longrightarrow> closes_ok (snd (close_where P code reason r))"
  by (auto simp: close_where_def closes_ok_def)

lemma close_socket_ok:
  "server_close_ok code (js m) \<Longrightarrow> closes_ok (snd (close_socket s code m r))"
  by (simp add: close_socket_def close_where_ok)

lemma closeBrowser_ok: "server_close_ok code reason \<Longrightarrow> closes_ok (snd (closeBrowser ch code reason r))"
  by (simp add: closeBrowser_def close_where_ok split: option.split)

lemma disconnectBrowsers_ok: "closes_ok (snd (disconnectBrowsers code reason r))"
  using boundedReason_le [of reason]
  by (simp add: disconnectBrowsers_def close_where_ok normalized_close_ok)

lemma sendToConnector_ok: "closes_ok (fst (sendToConnector r v))"
  by (simp add: sendToConnector_def split: option.split)

lemmas handler_closes_ok = close_where_ok close_socket_ok closeBrowser_ok disconnectBrowsers_ok sendToConnector_ok
  literal_close_ok

lemma bounded_close_ok: "server_close_ok (normalizeCloseCode code) (boundedReason reason)"
  using boundedReason_le [of reason] by (simp add: normalized_close_ok)

lemma relay_fetch_closes_ok: "closes_ok (snd (fst (relay_fetch q ch r)))"
  by (auto simp: relay_fetch_def acceptConnector_def acceptBrowser_def case_prod_beta Let_def handler_closes_ok
      split: option.split)

lemma forwardCiphertext_closes_ok: "closes_ok (snd (forwardCiphertext ch m r))"
  by (cases m)
     (auto simp: forwardCiphertext_def case_prod_beta Let_def handler_closes_ok)

lemma handleConnectorMessage_closes_ok: "closes_ok (snd (handleConnectorMessage s v r))"
  by (cases "isRecord v"; cases "as_string (prop_of v ''type'')")
     (simp_all add: handleConnectorMessage_def handler_closes_ok bounded_close_ok split: option.split)

lemma webSocketMessage_closes_ok: "closes_ok (snd (webSocketMessage parse s m r))"
  by (simp add: webSocketMessage_def handler_closes_ok forwardCiphertext_closes_ok
      handleConnectorMessage_closes_ok split: option.split socket_attachment.split payload.split)

lemma relay_step_closes_ok: "closes_ok (snd (relay_step w r e))"
  by (cases e)
     (simp_all add: relay_fetch_closes_ok webSocketMessage_closes_ok webSocketClose_def webSocketError_def
        case_prod_beta Let_def handler_closes_ok split: sum.split option.split socket_attachment.split)

text \<open>Every close the relay issues is accepted by the runtime: whatever a connector, a browser or a
  peer's close frame said, the code is between 1000 and 4999 and none of the reserved ones, and the
  reason has at most 123 bytes of UTF-8, so \<open>close\<close> never throws in the middle of a handler.\<close>

theorem close_frames_are_legal:
  assumes "Close i code reason \<in> set (snd (relay_step w r e))"
  shows "1000 \<le> code \<and> code \<le> 4999 \<and> code \<notin> {1004, 1005, 1006, 1015} \<and> length (text_encode reason) \<le> 123"
  using assms relay_step_closes_ok [of w r e] by (auto simp: closes_ok_def server_close_ok_def)

text \<open>A close reason is cut to the size of a control frame: whatever text the peer sent, even one
  that is cut inside a character, the text the relay passes on has at most 122 bytes, and a text of at
  most 120 bytes is passed on unchanged.\<close>

theorem bounded_reason_fits:
  "length (text_encode (boundedReason reason)) \<le> 122 \<and>
   (boundedReason reason = reason \<or> 120 < length (text_encode reason))"
  using boundedReason_le [of reason] by (auto simp: boundedReason_def)


section \<open>Routing\<close>

lemma socket_of_Some: "socket_of r i = Some s \<Longrightarrow> s \<in> set (sockets r) \<and> sid s = i"
  by (auto simp: socket_of_def find_Some_iff)

lemma socket_of_member: "relay_inv r \<Longrightarrow> s \<in> set (sockets r) \<Longrightarrow> socket_of r (sid s) = Some s"
proof (cases "socket_of r (sid s)")
  case None
  moreover assume "s \<in> set (sockets r)"
  ultimately show ?thesis by (auto simp: socket_of_def find_None_iff)
next
  case (Some t)
  moreover assume "relay_inv r" "s \<in> set (sockets r)"
  ultimately show ?thesis
    using socket_of_Some [OF Some] by (auto simp: relay_inv_def distinct_map dest: inj_onD)
qed

definition is_ciphertext_frame :: "json \<Rightarrow> bool" where
  "is_ciphertext_frame v \<longleftrightarrow> prop_of v ''type'' = Some (jstr ''e2e_from_browser'')"

definition only_control :: "effect list \<Rightarrow> bool" where
  "only_control effs \<longleftrightarrow> (\<forall>i t. SendText i t \<notin> set effs) \<and>
     (\<forall>i v. SendJson i v \<in> set effs \<longrightarrow> \<not> is_ciphertext_frame v)"

lemma only_control_simps [simp]:
  "only_control []" "only_control (SendJson i v # effs) \<longleftrightarrow> \<not> is_ciphertext_frame v \<and> only_control effs"
  "\<not> only_control (SendText i t # effs)" "only_control (Close i code reason # effs) \<longleftrightarrow> only_control effs"
  "only_control (effs @ effs') \<longleftrightarrow> only_control effs \<and> only_control effs'"
  by (auto simp: only_control_def)

lemma closes_only_control:
  "only_control (snd (close_where P code reason r))" "only_control (snd (close_socket s code m r))"
  "only_control (snd (closeBrowser ch code reason r))" "only_control (snd (disconnectBrowsers code reason r))"
  by (auto simp: only_control_def close_where_def close_socket_def closeBrowser_def disconnectBrowsers_def
      split: option.splits)

lemma frame_kinds [simp]:
  "\<not> is_ciphertext_frame (jmsg ((''type'', jstr ''connected'') # ps))"
  "\<not> is_ciphertext_frame (jmsg ((''type'', jstr ''channel_open'') # ps))"
  "\<not> is_ciphertext_frame (jmsg ((''type'', jstr ''bridge_ready'') # ps))"
  "\<not> is_ciphertext_frame (jmsg ((''type'', jstr ''pong'') # ps))"
  "\<not> is_ciphertext_frame (channel_close_message ch code reason)"
  by (simp_all add: is_ciphertext_frame_def channel_close_message_def)

lemma request_only_control: "only_control (snd (fst (relay_fetch q ch r)))"
  by (simp add: relay_fetch_def acceptConnector_def acceptBrowser_def case_prod_beta Let_def
      closes_only_control split: option.split)

lemma ended_only_control:
  "only_control (snd (webSocketClose s code reason r))" "only_control (snd (webSocketError s r))"
  by (simp_all add: webSocketClose_def webSocketError_def closes_only_control sendToConnector_def
      split: option.split socket_attachment.split)

lemma relay_step_only_control: "\<nexists>i m. e = Message i m \<Longrightarrow> only_control (snd (relay_step w r e))"
  by (cases e) (simp_all add: request_only_control ended_only_control case_prod_beta Let_def
      split: sum.split option.split)

lemma connector_message_frames:
  "effect \<in> set (snd (handleConnectorMessage s v r)) \<Longrightarrow>
     (case effect of
        SendText i d \<Rightarrow> \<exists>ch b. prop_of v ''id'' = Some (JStr ch) \<and> prop_of v ''data'' = Some (JStr d) \<and>
          browser r ch = Some b \<and> sid b = i
      | SendJson i u \<Rightarrow> u = jmsg [(''type'', jstr ''pong'')] \<and> i = sid s
      | Close _ _ _ \<Rightarrow> True)"
  by (cases "isRecord v"; cases "as_string (prop_of v ''type'')")
     (auto simp: handleConnectorMessage_def close_socket_def closeBrowser_def close_where_def
        parseConnectorToBrowser_def split: option.splits if_splits)

lemma browser_message_frames:
  "effect \<in> set (snd (forwardCiphertext ch m r)) \<Longrightarrow>
     (case effect of
        SendText i d \<Rightarrow> False
      | SendJson i u \<Rightarrow> \<exists>d c. m = Text d \<and> isBase64URL d \<and> length d \<le> MAX_ENCRYPTED_PACKET \<and>
          connector r = Some c \<and> sid c = i \<and>
          u = jmsg [(''type'', jstr ''e2e_from_browser''), (''id'', JStr ch), (''data'', JStr d)]
      | Close _ _ _ \<Rightarrow> True)"
  by (cases m)
     (auto simp: forwardCiphertext_def closeBrowser_def close_where_def sendToConnector_def
        split: option.splits if_splits)

lemma message_frames:
  assumes inv: "relay_inv r" and "effect \<in> set (snd (relay_step w r (Message i m)))"
  shows "\<exists>s. socket_of r i = Some s \<and>
    (is_connector s \<and> (\<exists>t v. m = Text t \<and> parse_text w t = Some v \<and> effect \<in> set (snd (handleConnectorMessage s v r))) \<or>
     (\<exists>ch. is_browser_of ch s \<and> effect \<in> set (snd (forwardCiphertext ch m r))) \<or>
     (\<exists>k code reason. effect = Close k code reason))"
proof -
  obtain s where s: "socket_of r i = Some s" and e: "effect \<in> set (snd (webSocketMessage (parse_text w) s m r))"
    using assms(2) by (auto split: option.splits)
  then have "is_connector s \<or> (\<exists>ch. is_browser_of ch s)"
    using inv by (auto simp: relay_inv_def dest!: socket_of_Some)
  then show ?thesis
    using s e by (auto simp: webSocketMessage_def attachment_of_shape close_socket_def close_where_def
        split: payload.splits option.splits if_splits; blast)
qed


text \<open>C5. What the computer receives as a browser's packet was sent by that browser: a frame of type
  \<open>e2e_from_browser\<close> leaves the relay only while it handles a text message of a browser socket; it
  carries that socket's own channel and the message unchanged, a non-empty base64url text within the
  packet limit, and goes to the open connector.\<close>

theorem browser_frames_carry_their_channel:
  assumes "reachable w r" "SendJson i v \<in> set (snd (relay_step w r e))"
    "prop_of v ''type'' = Some (jstr ''e2e_from_browser'')"
  shows "\<exists>j d b ch c. e = Message j (Text d) \<and> isBase64URL d \<and> length d \<le> MAX_ENCRYPTED_PACKET \<and>
    socket_of r j = Some b \<and> tags b = [js ''browser'', js ''channel:'' @ ch] \<and>
    v = jmsg [(''type'', jstr ''e2e_from_browser''), (''id'', JStr ch), (''data'', JStr d)] \<and>
    socket_of r i = Some c \<and> tags c = [js ''connector''] \<and> ready c = OPEN"
proof -
  have inv: "relay_inv r" using assms(1) by (rule reachable_inv)
  obtain j m where e: "e = Message j m"
    using assms(2,3) relay_step_only_control [of e w r]
    by (auto simp: only_control_def is_ciphertext_frame_def)
  from message_frames [OF inv assms(2) [unfolded e]] assms(3) obtain b ch where
    "socket_of r j = Some b" "is_browser_of ch b" "SendJson i v \<in> set (snd (forwardCiphertext ch m r))"
    by (auto dest!: connector_message_frames)
  moreover from browser_message_frames [OF this(3)] obtain d c where
    "m = Text d" "isBase64URL d" "length d \<le> MAX_ENCRYPTED_PACKET" "connector r = Some c" "sid c = i"
    "v = jmsg [(''type'', jstr ''e2e_from_browser''), (''id'', JStr ch), (''data'', JStr d)]"
    by auto
  moreover have "c \<in> set (sockets r) \<and> is_connector c \<and> ready c = OPEN"
    by (rule connector_shape(1) [OF inv \<open>connector r = Some c\<close>])
  ultimately show ?thesis
    using e socket_of_member [OF inv, of c] by (auto simp: is_connector_def is_browser_of_def)
qed

section \<open>Admission, forwarding, loss of the computer\<close>

text \<open>C8. The relay serves one computer and few browsers: in every reachable state at most one connector
  socket is open, at most eight browser sockets exist, and no channel name has two sockets.\<close>

theorem one_connector_eight_browsers:
  assumes "reachable w r"
  shows "length (filter (\<lambda>s. ready s = OPEN) (getWebSockets r (js ''connector''))) \<le> 1 \<and>
    length (getWebSockets r (js ''browser'')) \<le> 8 \<and>
    distinct (map tags (getWebSockets r (js ''browser'')))"
proof -
  have inv: "relay_inv r" using assms by (rule reachable_inv)
  then have shape: "\<forall>s \<in> set (sockets r). is_connector s \<or> (\<exists>ch. is_browser_of ch s)"
    by (simp add: relay_inv_def)
  show ?thesis
    using inv unfolding getWebSockets_shape [OF shape] relay_inv_def
    by (simp add: open_connectors_def MAX_BROWSER_SOCKETS_def conj_commute)
qed

lemma accepted_connector_auth:
  assumes "s \<in> set (sockets (fst (fst (acceptConnector q r))))" "sid s \<notin> sid ` set (sockets r)"
  shows "map_get (headers q) (js ''x-termlinks-connector'') = Some (js ''authorized'')"
proof (rule ccontr)
  assume "\<not> ?thesis"
  then have "fst (fst (acceptConnector q r)) = r" by (simp add: acceptConnector_def)
  with assms show False by auto
qed

lemma accept_browser_new_tags:
  assumes "s \<in> set (sockets (fst (fst (acceptBrowser q ch r))))" "sid s \<notin> sid ` set (sockets r)"
  shows "tags s = [js ''browser'', js ''channel:'' @ ch]"
  using assms
  by (auto simp: acceptBrowser_def add_socket_def close_socket_def close_where_def Let_def
      split: option.splits if_splits) (metis imageI)+

text \<open>C10. Only the holder of the connector token becomes the computer: whenever a request adds a
  connector socket, a token of at least 32 characters is configured and the request's bearer token has
  the same digest; in particular a client cannot supply the internal authorization header itself.\<close>

theorem connector_needs_token:
  assumes "s \<in> set (sockets (fst (relay_step w r (Request q ch))))" "sid s \<notin> sid ` set (sockets r)"
    "tags s = [js ''connector'']"
  shows "\<exists>expected. token w = Some (JStr expected) \<and> 32 \<le> length expected \<and>
    digest w (text_encode (supplied_token q)) = digest w (text_encode expected)"
proof -
  obtain q' where q': "worker_fetch (digest w) (token w) q = Inr q'"
    and s: "s \<in> set (sockets (fst (fst (relay_fetch q' ch r))))"
    using assms(1,2) by (auto split: sum.splits)
  have "tags s = [js ''browser'', js ''channel:'' @ ch]" if "pathname q' \<noteq> js ''/connector''"
    using s that assms(2) accept_browser_new_tags [of s q' ch r]
    by (auto simp: relay_fetch_def split: if_splits)
  then have path: "pathname q' = js ''/connector''" using assms(3) by auto
  moreover have "map_get (headers q') (js ''x-termlinks-connector'') = Some (js ''authorized'')"
    using s path assms(2) accepted_connector_auth [of s q' r] by (simp add: relay_fetch_def)
  ultimately show ?thesis
    using q' by (auto simp: worker_fetch_def Let_def constantTimeEqual_def split: if_splits option.splits)
qed

text \<open>A packet is forwarded exactly once: when an open browser socket sends a non-empty base64url
  text within the limit and the computer's socket can send, the relay sends exactly that packet, under
  the browser's channel, and its own state does not change.\<close>

theorem valid_packet_forwarded_once:
  assumes "reachable w r" "socket_of r i = Some b" "tags b = [js ''browser'', js ''channel:'' @ ch]"
    "isBase64URL d" "length d \<le> MAX_ENCRYPTED_PACKET" "connector r = Some c" "\<not> broken c"
  shows "relay_step w r (Message i (Text d)) =
    (r, [SendJson (sid c) (jmsg [(''type'', jstr ''e2e_from_browser''), (''id'', JStr ch), (''data'', JStr d)])])"
proof -
  have inv: "relay_inv r" using assms(1) by (rule reachable_inv)
  then have "is_connector b \<or> (\<exists>ch. is_browser_of ch b)"
    using assms(2) by (auto simp: relay_inv_def dest!: socket_of_Some)
  then have "is_browser_of ch b" using assms(3) by (auto simp: is_connector_def is_browser_of_def)
  moreover have "can_send c"
    using connector_shape(1) [OF inv assms(6)] assms(7) by (simp add: can_send_def)
  moreover have "d \<noteq> []" using assms(4) by (simp add: isBase64URL_def)
  ultimately show ?thesis
    using assms by (simp add: webSocketMessage_def attachment_of_shape forwardCiphertext_def sendToConnector_def)
qed

text \<open>Losing the computer disconnects its browsers: when the socket of the only connector ends, with
  whatever code, or fails, no browser socket stays open, no connector is left, and new portal
  connections are refused with status 503.\<close>

theorem connector_loss_closes_browsers:
  assumes "reachable w r" "socket_of r i = Some c" "tags c = [js ''connector'']" "ready c = OPEN"
    "e = Ended i code reason \<or> e = Failed i"
  shows "(\<forall>s \<in> set (sockets (fst (relay_step w r e))). ready s \<noteq> OPEN) \<and>
    status (snd (acceptBrowser q ch (fst (relay_step w r e)))) = 503"
proof -
  have inv: "relay_inv r" using assms(1) by (rule reachable_inv)
  let ?r1 = "update_socket i (ready_update (\<lambda>_. CLOSED)) r"
  have inv1: "relay_inv ?r1" by (rule only_ages_inv [OF inv update_socket_ages(1)])
  have c: "c \<in> set (sockets r)" "sid c = i" using socket_of_Some [OF assms(2)] by simp_all
  then have conn: "is_connector c"
    using inv assms(3) by (auto simp: relay_inv_def is_browser_of_def)
  have only: "s = c" if "s \<in> set (open_connectors (sockets r))" for s
    using inv that c conn assms(4) unfolding relay_inv_def
    by (cases "open_connectors (sockets r)"; cases "tl (open_connectors (sockets r))")
       (auto simp: open_connectors_def dest!: arg_cong [of _ _ set])
  have none: "open_connectors (sockets ?r1) = []"
    using only c by (auto simp: open_connectors_def filter_empty_conv update_socket_def is_connector_def)
  then have oc: "connector ?r1 = None" using connector_shape(2) [OF inv1] by simp
  have shut: "ready s \<noteq> OPEN" if "s \<in> set (sockets (fst (disconnectBrowsers code' reason' ?r1)))" for s code' reason'
  proof -
    from that obtain t where t: "t \<in> set (sockets ?r1)"
      "s = (if js ''browser'' \<in> set (tags t) \<and> ready t < CLOSING then t\<lparr>ready := CLOSING\<rparr> else t)"
      by (auto simp: disconnectBrowsers_def close_where_def)
    have "is_connector t \<or> (\<exists>ch. is_browser_of ch t)" using t(1) inv1 by (auto simp: relay_inv_def)
    then show ?thesis
      using t none by (auto simp: open_connectors_def filter_empty_conv is_browser_of_def less_CLOSING_iff)
  qed
  have step: "\<exists>code' reason'. sockets (fst (relay_step w r e)) =
      filter (\<lambda>s. sid s \<noteq> i) (sockets (fst (disconnectBrowsers code' reason' ?r1)))"
    using assms(2,5) conn oc
    by (auto simp: webSocketClose_def webSocketError_def attachment_of_shape other_connector_def
        drop_socket_def case_prod_beta Let_def; blast)
  then have all: "\<forall>s \<in> set (sockets (fst (relay_step w r e))). ready s \<noteq> OPEN"
    using shut by auto
  then have "connector (fst (relay_step w r e)) = None"
    by (auto simp: connector_def find_None_iff getWebSockets_def)
  then show ?thesis using all by (simp add: acceptBrowser_def jsonError_def)
qed

section \<open>The properties on a concrete relay\<close>

lemma js_take_drop: "take n (js s) = js (take n s)" "drop n (js s) = js (drop n s)"
  by (simp_all add: js_def take_map drop_map)

definition demo_uuid :: jsstring where
  "demo_uuid = js ''01234567-89ab-cdef-0123-456789abcdef''"

definition demo_world :: world where
  "demo_world = \<lparr>parse_text = (\<lambda>_. Some (jmsg [(''type'', jstr ''e2e_to_browser''), (''id'', JStr demo_uuid),
       (''data'', jstr ''QUJD'')])),
     digest = (\<lambda>bs. bs), token = Some (jstr ''0123456789abcdef0123456789abcdef'')\<rparr>"

definition demo_connect :: request where
  "demo_connect = \<lparr>pathname = js ''/connector'', req_method = js ''GET'',
     headers = [(js ''upgrade'', js ''websocket''),
       (js ''authorization'', js ''Bearer 0123456789abcdef0123456789abcdef'')]\<rparr>"

definition demo_join :: request where
  "demo_join = \<lparr>pathname = js ''/ws/bridge'', req_method = js ''GET'', headers = [(js ''upgrade'', js ''WebSocket'')]\<rparr>"

definition demo_computer :: socket where
  "demo_computer = \<lparr>sid = 0, ready = OPEN, broken = False, tags = [js ''connector''],
     attachment = jmsg [(''role'', jstr ''connector'')]\<rparr>"

definition demo_browser :: socket where
  "demo_browser = \<lparr>sid = 1, ready = OPEN, broken = False, tags = [js ''browser'', js ''channel:'' @ demo_uuid],
     attachment = jmsg [(''role'', jstr ''browser''), (''channel'', JStr demo_uuid)]\<rparr>"

definition demo_relay :: relay where
  "demo_relay = \<lparr>sockets = [demo_computer, demo_browser], next_sid = 2\<rparr>"

lemma demo_uuid_ok [simp]: "isUUID demo_uuid"
  by (simp add: isUUID_def demo_uuid_def js_def is_uuid_char_def Let_def)

lemma demo_first:
  "relay_step demo_world empty_relay (Request demo_connect demo_uuid) =
     (\<lparr>sockets = [demo_computer], next_sid = 1\<rparr>,
      [SendJson 0 (jmsg [(''type'', jstr ''connected''), (''protocol'', jstr ''e2e-v1'')])])"
proof -
  have "is_upgrade (demo_connect\<lparr>headers := hs\<rparr>)" if "map_get hs (js ''upgrade'') = Some (js ''websocket'')" for hs
    using that by (simp add: is_upgrade_def js_def lower_ascii_def)
  then show ?thesis
    by (simp add: demo_connect_def demo_world_def worker_fetch_def Let_def supplied_token_def starts_with_def
        js_take_drop constantTimeEqual_def relay_fetch_def acceptConnector_def close_where_def empty_relay_def
        disconnectBrowsers_def add_socket_def demo_computer_def map_delete_def)
qed

lemma demo_second:
  "relay_step demo_world \<lparr>sockets = [demo_computer], next_sid = 1\<rparr> (Request demo_join demo_uuid) =
     (demo_relay,
      [SendJson 0 (jmsg [(''type'', jstr ''channel_open''), (''id'', JStr demo_uuid)]),
       SendJson 1 (jmsg [(''type'', jstr ''bridge_ready''), (''id'', JStr demo_uuid), (''protocol'', jstr ''e2e-v1'')])])"
proof -
  have "lower_ascii (js ''WebSocket'') = js ''websocket''" by (simp add: js_def lower_ascii_def)
  then show ?thesis
    by (simp add: demo_join_def worker_fetch_def Let_def relay_fetch_def acceptBrowser_def is_upgrade_def
        connector_def getWebSockets_def demo_computer_def demo_browser_def demo_relay_def add_socket_def
        can_send_def MAX_BROWSER_SOCKETS_def map_delete_def)
qed

lemma demo_reachable: "reachable demo_world demo_relay"
proof -
  have "reachable demo_world (fst (relay_step demo_world empty_relay (Request demo_connect demo_uuid)))"
    by (rule reachable.step [OF reachable.start])
       (simp add: event_ok_def fresh_channel_def getWebSockets_def empty_relay_def)
  then have "reachable demo_world \<lparr>sockets = [demo_computer], next_sid = 1\<rparr>" by (simp only: demo_first fst_conv)
  moreover have "event_ok \<lparr>sockets = [demo_computer], next_sid = 1\<rparr> (Request demo_join demo_uuid)"
    by (simp add: event_ok_def fresh_channel_def getWebSockets_def demo_computer_def)
  ultimately have "reachable demo_world
      (fst (relay_step demo_world \<lparr>sockets = [demo_computer], next_sid = 1\<rparr> (Request demo_join demo_uuid)))"
    by (rule reachable.step)
  then show ?thesis by (simp only: demo_second fst_conv)
qed

lemmas demo_lookup = demo_relay_def demo_computer_def demo_browser_def socket_of_def connector_def browser_def
  getWebSockets_def

lemma demo_data_ok: "isBase64URL (js ''QUJD'')"
  by (simp add: isBase64URL_def js_def is_base64url_char_def Let_def)

lemma demo_to_browser:
  "SendText 1 (js ''QUJD'') \<in> set (snd (relay_step demo_world demo_relay (Message 0 (Text []))))"
proof -
  have s: "socket_of demo_relay 0 = Some demo_computer" by (simp add: demo_lookup)
  have b: "browser demo_relay demo_uuid = Some demo_browser" by (simp add: demo_lookup)
  have "socketAttachment (attachment demo_computer) = Some ConnectorRole"
    by (simp add: demo_computer_def socketAttachment_def)
  then show ?thesis
    using demo_data_ok
    by (simp add: s b webSocketMessage_def handleConnectorMessage_def demo_world_def parseConnectorToBrowser_def
        MAX_ENCRYPTED_PACKET_def can_send_def demo_browser_def)
qed

lemma demo_forward:
  "relay_step demo_world demo_relay (Message 1 (Text (js ''QUJD''))) =
    (demo_relay, [SendJson 0 (jmsg [(''type'', jstr ''e2e_from_browser''), (''id'', JStr demo_uuid),
       (''data'', jstr ''QUJD'')])])"
proof -
  have s: "socket_of demo_relay 1 = Some demo_browser" by (simp add: demo_lookup)
  have c: "connector demo_relay = Some demo_computer" by (simp add: demo_lookup)
  have "socketAttachment (attachment demo_browser) = Some (BrowserRole demo_uuid)"
    by (simp add: demo_browser_def socketAttachment_def)
  then show ?thesis
    using demo_data_ok
    by (simp del: One_nat_def add: s c webSocketMessage_def forwardCiphertext_def sendToConnector_def
        MAX_ENCRYPTED_PACKET_def can_send_def demo_computer_def)
qed

theorem one_connector_eight_browsers_witness:
  "length (getWebSockets demo_relay (js ''browser'')) \<le> 8 \<and>
   length (filter (\<lambda>s. ready s = OPEN) (getWebSockets demo_relay (js ''connector''))) \<le> 1"
  using one_connector_eight_browsers [OF demo_reachable] by simp


theorem browser_frames_carry_their_channel_witness:
  "\<exists>b ch. socket_of demo_relay 1 = Some b \<and> tags b = [js ''browser'', js ''channel:'' @ ch]"
  using browser_frames_carry_their_channel [OF demo_reachable, of 0 "jmsg [(''type'', jstr ''e2e_from_browser''),
      (''id'', JStr demo_uuid), (''data'', jstr ''QUJD'')]" "Message 1 (Text (js ''QUJD''))"]
  by (auto simp: demo_forward simp del: relay_step.simps One_nat_def)

theorem close_frames_are_legal_witness:
  "length (text_encode (js ''Invalid encrypted packet'')) \<le> 123"
proof -
  have "socketAttachment (attachment demo_browser) = Some (BrowserRole demo_uuid)"
    by (simp add: demo_browser_def socketAttachment_def)
  then have "Close 1 1007 (js ''Invalid encrypted packet'') \<in> set (snd (relay_step demo_world demo_relay (Message 1 (Bytes []))))"
    by (simp add: demo_lookup webSocketMessage_def forwardCiphertext_def closeBrowser_def close_where_def less_CLOSING_iff)
  from close_frames_are_legal [OF this] show ?thesis by simp
qed

theorem connector_needs_token_witness: "32 \<le> length (js ''0123456789abcdef0123456789abcdef'')"
  using connector_needs_token [of demo_computer demo_world empty_relay demo_connect demo_uuid]
  unfolding demo_first by (simp add: empty_relay_def demo_computer_def demo_world_def)

theorem valid_packet_forwarded_once_witness:
  "snd (relay_step demo_world demo_relay (Message 1 (Text (js ''QUJD'')))) \<noteq> []"
  using valid_packet_forwarded_once [OF demo_reachable, of 1 demo_browser demo_uuid "js ''QUJD''" demo_computer]
    demo_data_ok
  by (simp del: relay_step.simps add: demo_lookup MAX_ENCRYPTED_PACKET_def)

theorem connector_loss_closes_browsers_witness:
  "list_all (\<lambda>s. ready s \<noteq> OPEN) (sockets (fst (relay_step demo_world demo_relay (Failed 0))))"
  using connector_loss_closes_browsers [OF demo_reachable, of 0 demo_computer "Failed 0"]
  by (simp del: relay_step.simps add: demo_lookup list_all_iff)

end
