(* ===== verification/Links.thy ===== *)
theory Links
  imports JsPrelude
begin

text \<open>
  The three stream links of \<open>main.ts\<close>: \<open>EncryptedTerminalLink\<close>, \<open>EncryptedDesktopLink\<close> and
  \<open>EncryptedWindowLink\<close>. Each stands for a web socket that is carried inside the encrypted bridge: it
  has a ready state, calls back its owner, and asks the bridge to transmit or to retire the stream.
  A method returns the new link and what it calls, in order (\<open>link_out\<close>); a rejected transmission comes
  back as a later call of \<open>fail\<close>, as \<open>.catch(() => this.fail())\<close> makes it. \<open>close\<close> passes through
  \<open>CLOSING\<close> while the bridge forgets the stream, which reads nothing of the link.

  The locale \<open>duplex_link\<close> is the contract the three classes share; what every owner relies on (one
  opening, one ending, data only in between) is proved in it once.
\<close>

datatype ('i, 'o) link_out =
    Opened                          \<comment> \<open>the open callback\<close>
  | Got 'i                          \<comment> \<open>the message, frame or notice callback\<close>
  | Errored                         \<comment> \<open>the error callback\<close>
  | Ended jsnum "jsstring option"   \<comment> \<open>the close callback\<close>
  | Transmit 'o                     \<comment> \<open>\<open>bridge.send...Data(id, data)\<close>\<close>
  | Retire                          \<comment> \<open>\<open>bridge.close...(id)\<close>\<close>

datatype data = Str jsstring | Buf bytes

section \<open>Terminal links\<close>

record terminal_link =
  t_ready :: ready_state

type_synonym t_result = "terminal_link \<times> (data, data) link_out list"

definition new_terminal :: terminal_link where
  "new_terminal = \<lparr>t_ready = CONNECTING\<rparr>"

definition t_markOpen :: "terminal_link \<Rightarrow> t_result" where
  "t_markOpen l = (if t_ready l \<noteq> CONNECTING then (l, []) else (l\<lparr>t_ready := OPEN\<rparr>, [Opened]))"

definition t_receive :: "data \<Rightarrow> terminal_link \<Rightarrow> t_result" where
  "t_receive d l = (l, if t_ready l = OPEN then [Got d] else [])"

definition t_remoteClose :: "jsnum \<Rightarrow> terminal_link \<Rightarrow> t_result" where
  "t_remoteClose code l =
     (if t_ready l = CLOSED then (l, []) else (l\<lparr>t_ready := CLOSED\<rparr>, [Ended code None]))"

definition t_fail :: "terminal_link \<Rightarrow> t_result" where
  "t_fail l =
     (if t_ready l = CLOSED then (l, [])
      else (let (l', outs) = t_remoteClose (fin_int 1011) l in (l', Errored # outs)))"

definition t_send :: "data \<Rightarrow> terminal_link \<Rightarrow> t_result" where
  "t_send d l = (l, if t_ready l \<noteq> OPEN then [] else [Transmit d])"

definition t_close :: "terminal_link \<Rightarrow> t_result" where
  "t_close l = (if t_ready l = CLOSED then (l, []) else (l\<lparr>t_ready := CLOSED\<rparr>, [Retire]))"

section \<open>Desktop links\<close>

record desktop_link =
  d_ready :: ready_state
  d_lastReason :: jsstring

type_synonym d_result = "desktop_link \<times> (bytes, data) link_out list"

definition new_desktop :: desktop_link where
  "new_desktop = \<lparr>d_ready = CONNECTING, d_lastReason = []\<rparr>"

definition d_markOpen :: "desktop_link \<Rightarrow> d_result" where
  "d_markOpen l = (if d_ready l \<noteq> CONNECTING then (l, []) else (l\<lparr>d_ready := OPEN\<rparr>, [Opened]))"

definition d_receive :: "bytes \<Rightarrow> desktop_link \<Rightarrow> d_result" where
  "d_receive d l = (l, if d_ready l = OPEN then [Got d] else [])"

definition d_remoteClose :: "jsnum \<Rightarrow> jsstring \<Rightarrow> desktop_link \<Rightarrow> d_result" where
  "d_remoteClose code reason l =
     (if d_ready l = CLOSED then (l, [])
      else (l\<lparr>d_lastReason := reason, d_ready := CLOSED\<rparr>, [Ended code (Some reason)]))"

definition d_fail :: "desktop_link \<Rightarrow> d_result" where
  "d_fail l =
     (if d_ready l = CLOSED then (l, [])
      else (let (l', outs) = d_remoteClose (fin_int 1011) (js ''Encrypted desktop tunnel failed'') l in (l', Errored # outs)))"

definition d_send :: "data \<Rightarrow> desktop_link \<Rightarrow> d_result" where
  "d_send d l = (l, if d_ready l \<noteq> OPEN then [] else [Transmit d])"

definition d_close :: "desktop_link \<Rightarrow> d_result" where
  "d_close l = (if d_ready l = CLOSED then (l, []) else (l\<lparr>d_ready := CLOSED\<rparr>, [Retire]))"

section \<open>Window links\<close>

datatype window_input = Frame bytes jsnum jsnum | Notice jsstring

record window_link =
  w_ready :: ready_state

type_synonym w_result = "window_link \<times> (window_input, json) link_out list"

definition new_window :: window_link where
  "new_window = \<lparr>w_ready = CONNECTING\<rparr>"

definition w_markOpen :: "window_link \<Rightarrow> w_result" where
  "w_markOpen l = (if w_ready l \<noteq> CONNECTING then (l, []) else (l\<lparr>w_ready := OPEN\<rparr>, [Opened]))"

definition w_receive :: "bytes \<Rightarrow> jsnum \<Rightarrow> jsnum \<Rightarrow> window_link \<Rightarrow> w_result" where
  "w_receive d width height l = (l, if w_ready l = OPEN then [Got (Frame d width height)] else [])"

definition w_notice :: "jsstring \<Rightarrow> window_link \<Rightarrow> w_result" where
  "w_notice reason l = (l, if w_ready l = OPEN then [Got (Notice reason)] else [])"

definition w_remoteClose :: "jsnum \<Rightarrow> jsstring \<Rightarrow> window_link \<Rightarrow> w_result" where
  "w_remoteClose code reason l =
     (if w_ready l = CLOSED then (l, []) else (l\<lparr>w_ready := CLOSED\<rparr>, [Ended code (Some reason)]))"

definition w_fail :: "window_link \<Rightarrow> w_result" where
  "w_fail l =
     (if w_ready l = CLOSED then (l, [])
      else (let (l', outs) = w_remoteClose (fin_int 1011) (js ''Encrypted selected-window stream failed'') l
            in (l', Errored # outs)))"

definition w_send :: "json \<Rightarrow> window_link \<Rightarrow> w_result" where
  "w_send v l = (l, if w_ready l \<noteq> OPEN then [] else [Transmit v])"

definition w_close :: "window_link \<Rightarrow> w_result" where
  "w_close l = (if w_ready l = CLOSED then (l, []) else (l\<lparr>w_ready := CLOSED\<rparr>, [Retire]))"

fun w_input :: "window_input \<Rightarrow> window_link \<Rightarrow> w_result" where
  "w_input (Frame d width height) = w_receive d width height"
| "w_input (Notice reason) = w_notice reason"

section \<open>The shared contract\<close>

datatype ('i, 'o) link_op = MarkOpen | Receive 'i | RemoteClose jsnum jsstring | FailLink | SendData 'o | CloseLink

text \<open>A trace is complete silence or an opening followed by data, and then at most one ending.\<close>

definition is_data :: "('i, 'o) link_out \<Rightarrow> bool" where
  "is_data x \<longleftrightarrow> (case x of Got _ \<Rightarrow> True | Transmit _ \<Rightarrow> True | _ \<Rightarrow> False)"

definition is_ending :: "('i, 'o) link_out list \<Rightarrow> bool" where
  "is_ending xs \<longleftrightarrow> xs = [Retire] \<or> (\<exists>code reason. xs = [Ended code reason] \<or> xs = [Errored, Ended code reason])"

definition proper_trace :: "('i, 'o) link_out list \<Rightarrow> bool" where
  "proper_trace xs \<longleftrightarrow>
     (\<exists>body ending. xs = body @ ending \<and> (ending = [] \<or> is_ending ending) \<and>
        (body = [] \<or> (\<exists>rest. body = Opened # rest \<and> list_all is_data rest)))"

fun terminal_step :: "terminal_link \<Rightarrow> (data, data) link_op \<Rightarrow> t_result" where
  "terminal_step l MarkOpen = t_markOpen l"
| "terminal_step l (Receive d) = t_receive d l"
| "terminal_step l (RemoteClose code reason) = t_remoteClose code l"
| "terminal_step l FailLink = t_fail l"
| "terminal_step l (SendData d) = t_send d l"
| "terminal_step l CloseLink = t_close l"

fun desktop_step :: "desktop_link \<Rightarrow> (bytes, data) link_op \<Rightarrow> d_result" where
  "desktop_step l MarkOpen = d_markOpen l"
| "desktop_step l (Receive d) = d_receive d l"
| "desktop_step l (RemoteClose code reason) = d_remoteClose code reason l"
| "desktop_step l FailLink = d_fail l"
| "desktop_step l (SendData d) = d_send d l"
| "desktop_step l CloseLink = d_close l"

fun window_step :: "window_link \<Rightarrow> (window_input, json) link_op \<Rightarrow> w_result" where
  "window_step l MarkOpen = w_markOpen l"
| "window_step l (Receive i) = w_input i l"
| "window_step l (RemoteClose code reason) = w_remoteClose code reason l"
| "window_step l FailLink = w_fail l"
| "window_step l (SendData v) = w_send v l"
| "window_step l CloseLink = w_close l"

locale duplex_link =
  fixes ready :: "'l \<Rightarrow> ready_state"
    and new :: 'l
    and step :: "'l \<Rightarrow> ('i, 'o) link_op \<Rightarrow> 'l \<times> ('i, 'o) link_out list"
  assumes new: "ready new = CONNECTING"
    and markOpen: "ready (fst (step l MarkOpen)) = (if ready l = CONNECTING then OPEN else ready l)"
      "snd (step l MarkOpen) = (if ready l = CONNECTING then [Opened] else [])"
    and receive: "ready (fst (step l (Receive i))) = ready l"
      "snd (step l (Receive i)) = (if ready l = OPEN then [Got i] else [])"
    and send: "ready (fst (step l (SendData d))) = ready l"
      "snd (step l (SendData d)) = (if ready l = OPEN then [Transmit d] else [])"
    and remoteClose: "ready (fst (step l (RemoteClose code reason))) = CLOSED"
      "\<exists>shown. snd (step l (RemoteClose code reason)) = (if ready l = CLOSED then [] else [Ended code shown])"
    and fail: "ready (fst (step l FailLink)) = CLOSED"
      "\<exists>shown. snd (step l FailLink) = (if ready l = CLOSED then [] else [Errored, Ended (fin_int 1011) shown])"
    and close: "ready (fst (step l CloseLink)) = CLOSED"
      "snd (step l CloseLink) = (if ready l = CLOSED then [] else [Retire])"
begin

lemma step_closed: "ready l = CLOSED \<Longrightarrow> ready (fst (step l x)) = CLOSED \<and> snd (step l x) = []"
  using remoteClose [of l] fail [of l]
  by (cases x) (auto simp: markOpen receive send close)

lemma run_closed: "ready l = CLOSED \<Longrightarrow> ready (fst (run_steps step l xs)) = CLOSED \<and> snd (run_steps step l xs) = []"
  by (induction xs arbitrary: l) (simp_all add: step_closed)

lemma step_live:
  assumes "ready l = CONNECTING \<or> ready l = OPEN"
  shows "ready (fst (step l x)) = ready l \<and> list_all is_data (snd (step l x)) \<and> (ready l = OPEN \<or> snd (step l x) = [])
    \<or> ready l = CONNECTING \<and> ready (fst (step l x)) = OPEN \<and> snd (step l x) = [Opened]
    \<or> ready (fst (step l x)) = CLOSED \<and> is_ending (snd (step l x))"
proof (cases x)
  case (RemoteClose code reason)
  then show ?thesis using assms remoteClose(1) [of l code reason] remoteClose(2) [of l code reason]
    by (auto simp: is_ending_def)
next
  case FailLink
  then show ?thesis using assms fail(1) [of l] fail(2) [of l] by (auto simp: is_ending_def)
qed (use assms in \<open>auto simp: markOpen receive send close is_data_def is_ending_def\<close>)

lemma run_open:
  "ready l = OPEN \<Longrightarrow> \<exists>body ending. snd (run_steps step l xs) = body @ ending \<and> list_all is_data body \<and>
     (ending = [] \<or> is_ending ending)"
proof (induction xs arbitrary: l)
  case Nil
  then show ?case by simp
next
  case (Cons x xs)
  note split = run_steps_Cons(2) [of step l x xs]
  consider "ready (fst (step l x)) = OPEN" "list_all is_data (snd (step l x))"
    | "ready (fst (step l x)) = CLOSED" "is_ending (snd (step l x))"
    using step_live [of l x] Cons.prems by auto
  then show ?case
  proof cases
    case 1
    from Cons.IH [OF 1(1)] obtain body ending where
      "snd (run_steps step (fst (step l x)) xs) = body @ ending" "list_all is_data body" "ending = [] \<or> is_ending ending"
      by blast
    then show ?thesis
      using 1(2) unfolding split by (intro exI [of _ "snd (step l x) @ body"] exI [of _ ending]) simp
  next
    case 2
    then show ?thesis
      unfolding split using run_closed [OF 2(1)]
      by (intro exI [of _ "[]"] exI [of _ "snd (step l x)"]) simp
  qed
qed

lemma run_connecting: "ready l = CONNECTING \<Longrightarrow> proper_trace (snd (run_steps step l xs))"
proof (induction xs arbitrary: l)
  case Nil
  then show ?case by (simp add: proper_trace_def)
next
  case (Cons x xs)
  note split = run_steps_Cons(2) [of step l x xs]
  consider "ready (fst (step l x)) = CONNECTING" "snd (step l x) = []"
    | "ready (fst (step l x)) = OPEN" "snd (step l x) = [Opened]"
    | "ready (fst (step l x)) = CLOSED" "is_ending (snd (step l x))"
    using step_live [of l x] Cons.prems by auto
  then show ?case
  proof cases
    case 1
    then show ?thesis unfolding split using Cons.IH by simp
  next
    case 2
    obtain body ending where "snd (run_steps step (fst (step l x)) xs) = body @ ending" "list_all is_data body"
      "ending = [] \<or> is_ending ending"
      using run_open [OF 2(1)] by blast
    then show ?thesis
      unfolding split proper_trace_def 2(2)
      by (intro exI [of _ "Opened # body"] exI [of _ ending]) simp
  next
    case 3
    then show ?thesis
      unfolding split proper_trace_def using run_closed [OF 3(1)]
      by (intro exI [of _ "[]"] exI [of _ "snd (step l x)"]) simp
  qed
qed

lemma lifecycle: "proper_trace (snd (run_steps step new xs))"
  by (rule run_connecting) (rule new)

end

interpretation tl: duplex_link t_ready new_terminal terminal_step
  by unfold_locales
     (simp_all add: new_terminal_def t_markOpen_def t_receive_def t_remoteClose_def t_fail_def t_send_def t_close_def)

interpretation dl: duplex_link d_ready new_desktop desktop_step
  by unfold_locales
     (simp_all add: new_desktop_def d_markOpen_def d_receive_def d_remoteClose_def d_fail_def d_send_def d_close_def)

interpretation wl: duplex_link w_ready new_window window_step
proof unfold_locales
  fix i l
  show "w_ready (fst (window_step l (Receive i))) = w_ready l"
    "snd (window_step l (Receive i)) = (if w_ready l = OPEN then [Got i] else [])"
    by (cases i; simp add: w_receive_def w_notice_def)+
qed (simp_all add: new_window_def w_markOpen_def w_remoteClose_def w_fail_def w_send_def w_close_def)

text \<open>A stream opens once and ends once: whatever calls arrive in whatever order, a terminal, desktop
  or window link first calls its open callback (if at all), passes data only after that, ends at most
  once (by a close, an error and a close, or a request of its owner to retire it), and is silent
  afterwards.\<close>

theorem links_open_and_end_once:
  "proper_trace (snd (run_steps terminal_step new_terminal ts)) \<and>
   proper_trace (snd (run_steps desktop_step new_desktop ds)) \<and>
   proper_trace (snd (run_steps window_step new_window ws))"
  by (simp add: tl.lifecycle dl.lifecycle wl.lifecycle)

end
