(* ===== verification/Bridge.thy ===== *)
theory Bridge
  imports E2ePacket Links
begin

text \<open>
  The encrypted bridge of the portal: \<open>EncryptedBridge\<close> and \<open>waitForBridge\<close> in \<open>main.ts\<close>. One web socket
  to the relay carries requests, uploads, window lists and the streams of terminals, desktops and
  windows, all as sealed packets with consecutive numbers.

  The state is the class's fields. A promise chain (\<open>sendChain\<close>, \<open>receiveChain\<close>) is the queue of its
  tasks: the tasks run one after another, a task of \<open>sendChain\<close> is split at its \<open>await\<close> (\<open>send_start\<close>,
  \<open>send_finish\<close>), and once one of its tasks has failed the chain is rejected and every later task is
  skipped with the same error. A pending promise is an entry of its map; settling it is an output. Every
  callback, timer and socket event is a \<open>bevent\<close>, and \<open>bridge_step\<close> is the whole handler of each.

  \<open>browser_close\<close> is the socket's own \<open>close\<close>, which throws on the code 1008 (WHATWG WebSockets).
  AES-GCM, SHA-256 and JSON are the parameters of \<open>E2ePacket\<close>; error messages of the platform come
  from the parameters \<open>describe\<close> and \<open>type_error\<close>.
\<close>

section \<open>State\<close>

datatype origin = FromAuth | FromRequest jsstring | FromWindowList jsstring | FromUpload jsstring
  | FromTerminal jsstring | FromDesktop jsstring | FromWindow jsstring | FromClose

record submission =
  origin_of :: origin
  message :: json

record window_source =
  ws_id :: int
  ws_title :: jsstring
  ws_application :: jsstring
  ws_bundle :: "jsstring option"
  ws_width :: jsnum
  ws_height :: jsnum

record window_list =
  supported :: bool
  screenRecording :: bool
  accessibility :: bool
  sources :: "window_source list"
  list_error :: "jsstring option"

record upload_reply =
  reply_type :: jsstring
  reply_received :: jsnum
  reply_total :: jsnum
  reply_path :: "jsstring option"

record 'k bridge =
  key :: "'k option"
  socket :: "ready_state option"
  greeting :: bool               \<comment> \<open>\<open>waitForBridge\<close> is pending\<close>
  channel :: jsstring
  challenge :: jsstring
  authPending :: bool            \<comment> \<open>the promise \<open>authenticated\<close> is pending\<close>
  listening :: bool              \<comment> \<open>the session's listeners are attached\<close>
  failed :: bool
  sendSequence :: nat
  receiveSequence :: nat
  send_queue :: "submission list"
  sending :: "(nat \<times> submission) option"
  send_error :: "jsstring option"
  inbox :: "jsstring list"
  inbox_rejected :: bool
  requests :: "(jsstring, unit) jsmap"
  windowLists :: "(jsstring, unit) jsmap"
  uploads :: "(jsstring, jsstring) jsmap"
  terminals :: "(jsstring, terminal_link) jsmap"
  desktops :: "(jsstring, desktop_link) jsmap"
  windows :: "(jsstring, window_link) jsmap"

datatype out =
    Wire nat jsstring                       \<comment> \<open>a packet handed to the socket, with its number\<close>
  | CloseSocket int string
  | Connected | ConnectFailed jsstring      \<comment> \<open>\<open>connectWithKey\<close> settles\<close>
  | RequestDone jsstring jsnum jsstring | RequestFailed jsstring jsstring
  | WindowsDone jsstring window_list | WindowsFailed jsstring jsstring
  | UploadDone jsstring upload_reply | UploadFailed jsstring jsstring
  | SendRejected origin jsstring            \<comment> \<open>the \<open>sendEncrypted\<close> promise of a submission rejects\<close>
  | TerminalOut jsstring "(data, data) link_out"
  | DesktopOut jsstring "(bytes, data) link_out"
  | WindowOut jsstring "(window_input, json) link_out"
  | BridgeLost jsstring                     \<comment> \<open>the end of \<open>fail\<close>: the portal is told\<close>

type_synonym 'k b_result = "'k bridge \<times> out list"

record 'k env =
  platform :: "'k platform"
  describe :: "packet_error \<Rightarrow> jsstring"
  type_error :: jsstring        \<comment> \<open>the message of a property read of \<open>undefined\<close>\<close>

definition new_bridge :: "'k bridge" where
  "new_bridge = \<lparr>key = None, socket = None, greeting = False, channel = [], challenge = [], authPending = False,
     listening = False, failed = False, sendSequence = 0, receiveSequence = 0, send_queue = [], sending = None, send_error = None,
     inbox = [], inbox_rejected = False, requests = [], windowLists = [], uploads = [],
     terminals = [], desktops = [], windows = []\<rparr>"

definition isReady :: "'k bridge \<Rightarrow> bool" where
  "isReady b \<longleftrightarrow> \<not> failed b \<and> socket b = Some OPEN"

section \<open>Links in their maps\<close>

definition on_terminal :: "jsstring \<Rightarrow> (terminal_link \<Rightarrow> t_result) \<Rightarrow> 'k bridge \<Rightarrow> 'k b_result" where
  "on_terminal i f b =
     (case map_get (terminals b) i of
        None \<Rightarrow> (b, [])
      | Some l \<Rightarrow> (b\<lparr>terminals := map_set i (fst (f l)) (terminals b)\<rparr>, map (TerminalOut i) (snd (f l))))"

definition on_desktop :: "jsstring \<Rightarrow> (desktop_link \<Rightarrow> d_result) \<Rightarrow> 'k bridge \<Rightarrow> 'k b_result" where
  "on_desktop i f b =
     (case map_get (desktops b) i of
        None \<Rightarrow> (b, [])
      | Some l \<Rightarrow> (b\<lparr>desktops := map_set i (fst (f l)) (desktops b)\<rparr>, map (DesktopOut i) (snd (f l))))"

definition on_window :: "jsstring \<Rightarrow> (window_link \<Rightarrow> w_result) \<Rightarrow> 'k bridge \<Rightarrow> 'k b_result" where
  "on_window i f b =
     (case map_get (windows b) i of
        None \<Rightarrow> (b, [])
      | Some l \<Rightarrow> (b\<lparr>windows := map_set i (fst (f l)) (windows b)\<rparr>, map (WindowOut i) (snd (f l))))"

section \<open>Failing\<close>

text \<open>The loops of \<open>fail\<close> over the pending maps and the links, in the order of the code. The last
  output tells the portal, which compares the bridge with its own (\<open>encryptedBridge === this\<close>).\<close>

definition fail_rest :: "jsstring \<Rightarrow> 'k bridge \<Rightarrow> 'k b_result" where
  "fail_rest e b =
     (b\<lparr>authPending := False, requests := [], terminals := [], desktops := [], windows := [],
        windowLists := [], uploads := []\<rparr>,
      (if authPending b then [ConnectFailed e] else []) @
      map (\<lambda>(i, _). RequestFailed i e) (requests b) @
      concat (map (\<lambda>(i, l). map (TerminalOut i) (snd (t_remoteClose (fin_int 1012) l))) (terminals b)) @
      concat (map (\<lambda>(i, l). map (DesktopOut i) (snd (d_remoteClose (fin_int 1012) e l))) (desktops b)) @
      concat (map (\<lambda>(i, l). map (WindowOut i) (snd (w_remoteClose (fin_int 1012) e l))) (windows b)) @
      map (\<lambda>(i, _). WindowsFailed i e) (windowLists b) @
      map (\<lambda>(i, _). UploadFailed i e) (uploads b) @
      [BridgeLost e])"

text \<open>The flag says whether \<open>fail\<close> itself throws, which the close of an open socket makes it do.\<close>

definition bridge_fail :: "jsstring \<Rightarrow> 'k bridge \<Rightarrow> 'k b_result \<times> bool" where
  "bridge_fail e b =
     (if failed b then ((b, []), False)
      else
        let b1 = b\<lparr>failed := True\<rparr> in
        case socket b1 of
          Some r \<Rightarrow>
            if r < CLOSING then
              (case browser_close r 1008 of
                 None \<Rightarrow> ((b1, []), True)
               | Some r' \<Rightarrow>
                   (let (b2, outs) = fail_rest e (b1\<lparr>socket := Some r'\<rparr>)
                    in ((b2, CloseSocket 1008 ''Encrypted connection failed'' # outs), False)))
            else (fail_rest e b1, False)
        | None \<Rightarrow> (fail_rest e b1, False))"

definition bridge_close :: "'k bridge \<Rightarrow> 'k b_result" where
  "bridge_close b =
     (let (b', outs) = fst (bridge_fail (js ''Portal closed'') (b\<lparr>socket := None\<rparr>))
      in (b', (case socket b of None \<Rightarrow> [] | Some _ \<Rightarrow> [CloseSocket 1000 ''Portal closed'']) @ outs))"

section \<open>Sending\<close>

definition submit :: "origin \<Rightarrow> json \<Rightarrow> 'k bridge \<Rightarrow> 'k bridge" where
  "submit o' v b = b\<lparr>send_queue := send_queue b @ [\<lparr>origin_of = o', message = v\<rparr>]\<rparr>"

text \<open>What a rejected \<open>sendEncrypted\<close> does to its submitter.\<close>

definition reject_upload :: "jsstring \<Rightarrow> jsstring \<Rightarrow> 'k bridge \<Rightarrow> 'k b_result" where
  "reject_upload i e b =
     (case map_get (uploads b) i of
        None \<Rightarrow> (b, [])
      | Some _ \<Rightarrow> (b\<lparr>uploads := map_delete i (uploads b)\<rparr>, [UploadFailed i e]))"

fun reject_effect :: "origin \<Rightarrow> jsstring \<Rightarrow> 'k bridge \<Rightarrow> 'k b_result" where
  "reject_effect (FromUpload i) e b = reject_upload i e b"
| "reject_effect (FromTerminal i) e b = on_terminal i t_fail b"
| "reject_effect (FromDesktop i) e b = on_desktop i d_fail b"
| "reject_effect (FromWindow i) e b = on_window i w_fail b"
| "reject_effect _ e b = (b, [])"

definition reject_submission :: "submission \<Rightarrow> jsstring \<Rightarrow> 'k bridge \<Rightarrow> 'k b_result" where
  "reject_submission s e b =
     (let (b', outs) = reject_effect (origin_of s) e b in (b', SendRejected (origin_of s) e # outs))"

definition send_start :: "'k bridge \<Rightarrow> 'k b_result" where
  "send_start b =
     (case (sending b, send_queue b) of
        (None, s # q) \<Rightarrow>
          (case send_error b of
             Some e \<Rightarrow> reject_submission s e (b\<lparr>send_queue := q\<rparr>)
           | None \<Rightarrow>
               if key b = None \<or> channel b = [] \<or> socket b \<noteq> Some OPEN then
                 (let e = js ''Encrypted portal is disconnected'' in
                  reject_submission s e (b\<lparr>send_queue := q, send_error := Some e\<rparr>))
               else (b\<lparr>send_queue := q, sendSequence := sendSequence b + 1, sending := Some (sendSequence b, s)\<rparr>, []))
      | _ \<Rightarrow> (b, []))"

definition send_finish :: "'k env \<Rightarrow> bytes \<Rightarrow> 'k bridge \<Rightarrow> 'k b_result" where
  "send_finish w iv b =
     (case (sending b, key b) of
        (Some (n, s), Some k) \<Rightarrow>
          (case encryptPacket (platform w) iv k (channel b) Browser (fin_nat n) (message s) of
             Inl pe \<Rightarrow> reject_submission s (describe w pe) (b\<lparr>sending := None, send_error := Some (describe w pe)\<rparr>)
           | Inr packet \<Rightarrow>
               (case socket b of
                  None \<Rightarrow>
                    reject_submission s (type_error w) (b\<lparr>sending := None, send_error := Some (type_error w)\<rparr>)
                | Some r \<Rightarrow> (b\<lparr>sending := None\<rparr>, if r = OPEN then [Wire n packet] else [])))
      | _ \<Rightarrow> (b, []))"

section \<open>Operations of the portal\<close>

definition packet :: "string \<Rightarrow> (string \<times> json) list \<Rightarrow> json" where
  "packet t ps = jmsg ((''v'', jint 1) # (''type'', jstr t) # ps)"

text \<open>\<open>bytesToBase64URL\<close> never throws on bytes (\<open>base64url_round_trip\<close>).\<close>

definition base64_json :: "bytes \<Rightarrow> json" where
  "base64_json bs = (case bytesToBase64URL bs of Some s \<Rightarrow> JStr s | None \<Rightarrow> JNull)"

definition close_packet :: "string \<Rightarrow> jsstring \<Rightarrow> json" where
  "close_packet t i = packet t [(''id'', JStr i), (''code'', jint 1000), (''reason'', jstr ''Viewer closed'')]"

definition bridge_request :: "jsstring \<Rightarrow> jsstring \<Rightarrow> jsstring \<Rightarrow> jsstring \<Rightarrow> 'k bridge \<Rightarrow> 'k bridge" where
  "bridge_request i method path body b =
     submit (FromRequest i)
       (packet ''http_request'' [(''id'', JStr i), (''method'', JStr method), (''path'', JStr path), (''body'', JStr body)])
       (b\<lparr>requests := map_set i () (requests b)\<rparr>)"

definition request_timeout :: "jsstring \<Rightarrow> 'k bridge \<Rightarrow> 'k b_result" where
  "request_timeout i b =
     (case map_get (requests b) i of
        None \<Rightarrow> (b, [])
      | Some _ \<Rightarrow> (b\<lparr>requests := map_delete i (requests b)\<rparr>, [RequestFailed i (js ''Your computer did not respond'')]))"

definition openTerminal :: "jsstring \<Rightarrow> jsstring \<Rightarrow> 'k bridge \<Rightarrow> 'k bridge" where
  "openTerminal i sessionId b =
     submit (FromTerminal i) (packet ''terminal_open'' [(''id'', JStr i), (''sessionId'', JStr sessionId)])
       (b\<lparr>terminals := map_set i new_terminal (terminals b)\<rparr>)"

definition openDesktop :: "jsstring \<Rightarrow> 'k bridge \<Rightarrow> 'k bridge" where
  "openDesktop i b =
     submit (FromDesktop i) (packet ''desktop_open'' [(''id'', JStr i)])
       (b\<lparr>desktops := map_set i new_desktop (desktops b)\<rparr>)"

definition listWindows :: "jsstring \<Rightarrow> 'k bridge \<Rightarrow> 'k bridge" where
  "listWindows i b =
     submit (FromWindowList i) (packet ''window_sources_request'' [(''id'', JStr i)])
       (b\<lparr>windowLists := map_set i () (windowLists b)\<rparr>)"

definition list_timeout :: "jsstring \<Rightarrow> 'k bridge \<Rightarrow> 'k b_result" where
  "list_timeout i b =
     (case map_get (windowLists b) i of
        None \<Rightarrow> (b, [])
      | Some _ \<Rightarrow> (b\<lparr>windowLists := map_delete i (windowLists b)\<rparr>,
                  [WindowsFailed i (js ''Your Mac did not return its window list'')]))"

definition openWindow :: "jsstring \<Rightarrow> jsnum \<Rightarrow> jsnum \<Rightarrow> jsnum \<Rightarrow> 'k bridge \<Rightarrow> 'k bridge" where
  "openWindow i windowId maxWidth maxHeight b =
     submit (FromWindow i)
       (packet ''window_open'' [(''id'', JStr i), (''windowId'', JNum windowId), (''maxWidth'', JNum maxWidth),
          (''maxHeight'', JNum maxHeight)])
       (b\<lparr>windows := map_set i new_window (windows b)\<rparr>)"

text \<open>\<open>{ ...base, ...v }\<close>: the fields of \<open>v\<close> are added to \<open>base\<close> and override those of the same name.\<close>

definition spread :: "json \<Rightarrow> json \<Rightarrow> json" where
  "spread base v =
     (case (base, v) of (JObj ps, JObj qs) \<Rightarrow> JObj (fold (\<lambda>(k, x). map_set k x) qs ps) | _ \<Rightarrow> base)"

definition sendWindowInput :: "jsstring \<Rightarrow> json \<Rightarrow> 'k bridge \<Rightarrow> 'k bridge" where
  "sendWindowInput i v = submit (FromWindow i) (spread (packet ''window_input'' [(''id'', JStr i)]) v)"

definition sendTerminalData :: "jsstring \<Rightarrow> data \<Rightarrow> 'k bridge \<Rightarrow> 'k bridge" where
  "sendTerminalData i d = submit (FromTerminal i)
     (case d of
        Str s \<Rightarrow> packet ''terminal_data'' [(''id'', JStr i), (''binary'', JBool False), (''data'', JStr s)]
      | Buf bs \<Rightarrow> packet ''terminal_data'' [(''id'', JStr i), (''binary'', JBool True), (''data'', base64_json bs)])"

text \<open>\<open>sendDesktopData\<close> throws on text before anything is submitted, which fails the link.\<close>

definition sendDesktopData :: "jsstring \<Rightarrow> data \<Rightarrow> 'k bridge \<Rightarrow> 'k b_result" where
  "sendDesktopData i d b =
     (case d of
        Str _ \<Rightarrow> on_desktop i d_fail b
      | Buf bs \<Rightarrow>
          (submit (FromDesktop i) (packet ''desktop_data'' [(''id'', JStr i), (''data'', base64_json bs)]) b, []))"

definition if_open :: "json \<Rightarrow> 'k bridge \<Rightarrow> 'k bridge" where
  "if_open v b = (if socket b = Some OPEN then submit FromClose v b else b)"

definition closeTerminal :: "jsstring \<Rightarrow> 'k bridge \<Rightarrow> 'k bridge" where
  "closeTerminal i b = if_open (close_packet ''terminal_close'' i) (b\<lparr>terminals := map_delete i (terminals b)\<rparr>)"

definition closeDesktop :: "jsstring \<Rightarrow> 'k bridge \<Rightarrow> 'k bridge" where
  "closeDesktop i b = if_open (close_packet ''desktop_close'' i) (b\<lparr>desktops := map_delete i (desktops b)\<rparr>)"

definition closeWindow :: "jsstring \<Rightarrow> 'k bridge \<Rightarrow> 'k bridge" where
  "closeWindow i b = if_open (close_packet ''window_close'' i) (b\<lparr>windows := map_delete i (windows b)\<rparr>)"

text \<open>\<open>send\<close> and \<open>close\<close> of a link, with what they make the bridge do.\<close>

definition terminal_send :: "jsstring \<Rightarrow> data \<Rightarrow> 'k bridge \<Rightarrow> 'k bridge" where
  "terminal_send i d b =
     (case map_get (terminals b) i of
        None \<Rightarrow> b
      | Some l \<Rightarrow> (case snd (t_send d l) of [Transmit d'] \<Rightarrow> sendTerminalData i d' b | _ \<Rightarrow> b))"

definition desktop_send :: "jsstring \<Rightarrow> data \<Rightarrow> 'k bridge \<Rightarrow> 'k b_result" where
  "desktop_send i d b =
     (case map_get (desktops b) i of
        None \<Rightarrow> (b, [])
      | Some l \<Rightarrow> (case snd (d_send d l) of [Transmit d'] \<Rightarrow> sendDesktopData i d' b | _ \<Rightarrow> (b, [])))"

definition window_send :: "jsstring \<Rightarrow> json \<Rightarrow> 'k bridge \<Rightarrow> 'k bridge" where
  "window_send i v b =
     (case map_get (windows b) i of
        None \<Rightarrow> b
      | Some l \<Rightarrow> (case snd (w_send v l) of [Transmit v'] \<Rightarrow> sendWindowInput i v' b | _ \<Rightarrow> b))"

definition terminal_close :: "jsstring \<Rightarrow> 'k bridge \<Rightarrow> 'k bridge" where
  "terminal_close i b =
     (case map_get (terminals b) i of
        None \<Rightarrow> b
      | Some l \<Rightarrow> if Retire \<in> set (snd (t_close l)) then closeTerminal i b else b)"

definition desktop_close :: "jsstring \<Rightarrow> 'k bridge \<Rightarrow> 'k bridge" where
  "desktop_close i b =
     (case map_get (desktops b) i of
        None \<Rightarrow> b
      | Some l \<Rightarrow> if Retire \<in> set (snd (d_close l)) then closeDesktop i b else b)"

definition window_close :: "jsstring \<Rightarrow> 'k bridge \<Rightarrow> 'k bridge" where
  "window_close i b =
     (case map_get (windows b) i of
        None \<Rightarrow> b
      | Some l \<Rightarrow> if Retire \<in> set (snd (w_close l)) then closeWindow i b else b)"

text \<open>\<open>uploadExchange\<close>: the reply is awaited under the upload's id; a rejected submission rejects it
  (\<open>reject_upload\<close>).\<close>

definition uploadExchange :: "jsstring \<Rightarrow> string \<Rightarrow> json \<Rightarrow> 'k bridge \<Rightarrow> 'k bridge" where
  "uploadExchange i expected v b = submit (FromUpload i) v (b\<lparr>uploads := map_set i (js expected) (uploads b)\<rparr>)"

definition upload_timeout :: "jsstring \<Rightarrow> 'k bridge \<Rightarrow> 'k b_result" where
  "upload_timeout i b =
     (case map_get (uploads b) i of
        None \<Rightarrow> (b, [])
      | Some _ \<Rightarrow> (b\<lparr>uploads := map_delete i (uploads b)\<rparr>, [UploadFailed i (js ''The file transfer timed out'')]))"

section \<open>Receiving\<close>

text \<open>A handler either returns or throws; an error is the message of the thrown \<open>Error\<close>.\<close>

type_synonym 'k r_result = "'k bridge \<times> out list \<times> jsstring option"

definition returns :: "'k b_result \<Rightarrow> 'k r_result" where
  "returns r = (fst r, snd r, None)"

definition throws :: "string \<Rightarrow> 'k bridge \<Rightarrow> 'k r_result" where
  "throws e b = (b, [], Some (js e))"

definition string_or :: "json option \<Rightarrow> string \<Rightarrow> jsstring" where
  "string_or v d = (case as_string v of None \<Rightarrow> js d | Some s \<Rightarrow> s)"

definition number_or :: "json option \<Rightarrow> int \<Rightarrow> jsnum" where
  "number_or v d = (case as_number v of None \<Rightarrow> fin_int d | Some n \<Rightarrow> n)"

definition isWindowSource :: "json \<Rightarrow> window_source option" where
  "isWindowSource v =
     (case (as_number (prop_of v ''id''), as_string (prop_of v ''title''), as_string (prop_of v ''application''),
            as_number (prop_of v ''width''), as_number (prop_of v ''height'')) of
        (Some i, Some t, Some a, Some wd, Some h) \<Rightarrow>
          if num_is_integer i \<and> num_less (Fin 0) i \<and> t \<noteq> [] \<and> a \<noteq> [] \<and> num_less (Fin 0) wd \<and> num_less (Fin 0) h \<and>
             (prop_of v ''bundleId'' = None \<or> as_string (prop_of v ''bundleId'') \<noteq> None)
          then Some \<lparr>ws_id = num_int i, ws_title = t, ws_application = a,
                     ws_bundle = as_string (prop_of v ''bundleId''), ws_width = wd, ws_height = h\<rparr>
          else None
      | _ \<Rightarrow> None)"

definition receive_authenticated :: "json \<Rightarrow> 'k bridge \<Rightarrow> 'k r_result" where
  "receive_authenticated v b =
     (if prop_of v ''challenge'' \<noteq> Some (JStr (challenge b)) then throws ''Encrypted login challenge did not match'' b
      else (b\<lparr>authPending := False\<rparr>, if authPending b then [Connected] else [], None))"

definition receive_http :: "json \<Rightarrow> 'k bridge \<Rightarrow> 'k r_result" where
  "receive_http v b =
     (case (as_string (prop_of v ''id''), as_number (prop_of v ''status''), as_string (prop_of v ''body'')) of
        (Some i, Some st, Some body) \<Rightarrow>
          (case map_get (requests b) i of
             None \<Rightarrow> (b, [], None)
           | Some _ \<Rightarrow> (b\<lparr>requests := map_delete i (requests b)\<rparr>, [RequestDone i st body], None))
      | _ \<Rightarrow> throws ''Invalid encrypted API response'' b)"

definition receive_upload :: "jsstring \<Rightarrow> jsstring \<Rightarrow> json \<Rightarrow> 'k bridge \<Rightarrow> 'k r_result" where
  "receive_upload t i v b =
     (case map_get (uploads b) i of
        None \<Rightarrow> (b, [], None)
      | Some expected \<Rightarrow>
          if t = js ''file_upload_error'' then
            (b\<lparr>uploads := map_delete i (uploads b)\<rparr>,
             [UploadFailed i (string_or (prop_of v ''reason'') ''The computer rejected the file'')], None)
          else
            (case (as_number (prop_of v ''received''), as_number (prop_of v ''total'')) of
               (Some received, Some tot) \<Rightarrow>
                 if t \<noteq> expected then throws ''Invalid encrypted file upload response'' b
                 else (b\<lparr>uploads := map_delete i (uploads b)\<rparr>,
                       [UploadDone i \<lparr>reply_type = t, reply_received = received, reply_total = tot,
                          reply_path = as_string (prop_of v ''path'')\<rparr>], None)
             | _ \<Rightarrow> throws ''Invalid encrypted file upload response'' b))"

definition receive_windows :: "jsstring \<Rightarrow> json \<Rightarrow> 'k bridge \<Rightarrow> 'k r_result" where
  "receive_windows i v b =
     (case map_get (windowLists b) i of
        None \<Rightarrow> (b, [], None)
      | Some _ \<Rightarrow>
          (case (prop_of v ''permissions'', prop_of v ''sources'') of
             (Some p, Some (JArr items)) \<Rightarrow>
               if \<not> isRecord p then throws ''Invalid encrypted window list'' b
               else
                 (case those (map isWindowSource items) of
                    None \<Rightarrow> throws ''Invalid encrypted window source'' b
                  | Some srcs \<Rightarrow>
                      (b\<lparr>windowLists := map_delete i (windowLists b)\<rparr>,
                       [WindowsDone i
                          \<lparr>supported = (prop_of p ''supported'' = Some (JBool True)),
                           screenRecording = (prop_of p ''screenRecording'' = Some (JBool True)),
                           accessibility = (prop_of p ''accessibility'' = Some (JBool True)),
                           sources = srcs, list_error = as_string (prop_of v ''error'')\<rparr>], None))
           | _ \<Rightarrow> throws ''Invalid encrypted window list'' b))"

text \<open>Invalid base64 makes \<open>atob\<close> throw; its message is the platform's.\<close>

definition decoded :: "'k env \<Rightarrow> jsstring \<Rightarrow> 'k bridge \<Rightarrow> (bytes \<Rightarrow> 'k r_result) \<Rightarrow> 'k r_result" where
  "decoded w s b f = (case base64URLToBytes s of None \<Rightarrow> (b, [], Some (describe w NotBase64)) | Some bs \<Rightarrow> f bs)"

definition receive_window :: "'k env \<Rightarrow> jsstring \<Rightarrow> jsstring \<Rightarrow> json \<Rightarrow> 'k bridge \<Rightarrow> 'k r_result" where
  "receive_window w t i v b =
     (if t = js ''window_opened'' then returns (on_window i w_markOpen b)
      else if t = js ''window_frame'' then
        (case (as_string (prop_of v ''data''), as_number (prop_of v ''width''), as_number (prop_of v ''height'')) of
           (Some d, Some wd, Some h) \<Rightarrow> decoded w d b (\<lambda>bs. returns (on_window i (w_receive bs wd h) b))
         | _ \<Rightarrow> throws ''Invalid selected-window frame'' b)
      else if t = js ''window_notice'' then
        returns (on_window i (w_notice (string_or (prop_of v ''reason'') ''macOS rejected that input'')) b)
      else if t = js ''window_close'' then
        (let (b', outs) = on_window i (w_remoteClose (number_or (prop_of v ''code'') 1000)
                            (string_or (prop_of v ''reason'') ''Selected window closed'')) b
         in (b'\<lparr>windows := map_delete i (windows b')\<rparr>, outs, None))
      else throws ''Unsupported selected-window message'' b)"

definition receive_desktop :: "'k env \<Rightarrow> jsstring \<Rightarrow> jsstring \<Rightarrow> json \<Rightarrow> 'k bridge \<Rightarrow> 'k r_result" where
  "receive_desktop w t i v b =
     (if t = js ''desktop_opened'' then returns (on_desktop i d_markOpen b)
      else if t = js ''desktop_data'' then
        (case as_string (prop_of v ''data'') of
           None \<Rightarrow> throws ''Invalid encrypted desktop data'' b
         | Some d \<Rightarrow> decoded w d b (\<lambda>bs. returns (on_desktop i (d_receive bs) b)))
      else if t = js ''desktop_close'' then
        (let (b', outs) = on_desktop i (d_remoteClose (number_or (prop_of v ''code'') 1000)
                            (string_or (prop_of v ''reason'') ''Remote desktop closed'')) b
         in (b'\<lparr>desktops := map_delete i (desktops b')\<rparr>, outs, None))
      else throws ''Unsupported encrypted desktop message'' b)"

definition receive_terminal :: "'k env \<Rightarrow> jsstring \<Rightarrow> jsstring \<Rightarrow> json \<Rightarrow> 'k bridge \<Rightarrow> 'k r_result" where
  "receive_terminal w t i v b =
     (if t = js ''terminal_opened'' then returns (on_terminal i t_markOpen b)
      else if t = js ''terminal_data'' then
        (case (as_boolean (prop_of v ''binary''), as_string (prop_of v ''data'')) of
           (Some binary, Some d) \<Rightarrow>
             if binary then decoded w d b (\<lambda>bs. returns (on_terminal i (t_receive (Buf bs)) b))
             else returns (on_terminal i (t_receive (Str d)) b)
         | _ \<Rightarrow> throws ''Invalid encrypted terminal data'' b)
      else if t = js ''terminal_close'' then
        (let (b', outs) = on_terminal i (t_remoteClose (number_or (prop_of v ''code'') 1000)) b
         in (b'\<lparr>terminals := map_delete i (terminals b')\<rparr>, outs, None))
      else throws ''Unsupported encrypted message'' b)"

definition receive_value :: "'k env \<Rightarrow> json \<Rightarrow> 'k bridge \<Rightarrow> 'k r_result" where
  "receive_value w v b =
     (case as_string (prop_of v ''type'') of
        None \<Rightarrow> throws ''Invalid encrypted message'' b
      | Some t \<Rightarrow>
          if \<not> isRecord v \<or> prop_of v ''v'' \<noteq> Some (jint 1) then throws ''Invalid encrypted message'' b
          else if t = js ''authenticated'' then receive_authenticated v b
          else if t = js ''http_response'' then receive_http v b
          else
            (case as_string (prop_of v ''id'') of
               None \<Rightarrow> throws ''Invalid encrypted stream response'' b
             | Some i \<Rightarrow>
                 if starts_with (js ''file_upload_'') t then receive_upload t i v b
                 else if t = js ''window_sources'' then receive_windows i v b
                 else if map_get (windows b) i \<noteq> None then receive_window w t i v b
                 else if map_get (desktops b) i \<noteq> None then receive_desktop w t i v b
                 else if map_get (terminals b) i \<noteq> None then receive_terminal w t i v b
                 else (b, [], None)))"

text \<open>\<open>decrypt\<close> counts a packet only when it was accepted.\<close>

definition bridge_receive :: "'k env \<Rightarrow> jsstring \<Rightarrow> 'k bridge \<Rightarrow> 'k r_result" where
  "bridge_receive w pkt b =
     (case key b of
        None \<Rightarrow> throws ''Encryption key is unavailable'' b
      | Some k \<Rightarrow>
          (case decryptPacket (platform w) k (channel b) Connector (receiveSequence b) pkt of
             Inl pe \<Rightarrow> (b, [], Some (describe w pe))
           | Inr v \<Rightarrow> receive_value w v (b\<lparr>receiveSequence := receiveSequence b + 1\<rparr>)))"

text \<open>One link of \<open>receiveChain\<close>: \<open>then(receive).catch(fail)\<close>. When \<open>fail\<close> throws inside \<open>catch\<close>, the
  chain is rejected, so the next packet is skipped and only then the chain recovers.\<close>

definition receive_next :: "'k env \<Rightarrow> 'k bridge \<Rightarrow> 'k b_result" where
  "receive_next w b =
     (case inbox b of
        [] \<Rightarrow> (b, [])
      | pkt # rest \<Rightarrow>
          (let (b1, outs, err) =
             (if inbox_rejected b then (b\<lparr>inbox := rest\<rparr>, [], Some []) else bridge_receive w pkt (b\<lparr>inbox := rest\<rparr>))
           in case err of
                None \<Rightarrow> (b1, outs)
              | Some e \<Rightarrow>
                  (let ((b2, outs'), threw) = bridge_fail e b1
                   in (b2\<lparr>inbox_rejected := threw\<rparr>, outs @ outs'))))"

section \<open>Connecting\<close>

definition connectWithKey :: "'k \<Rightarrow> 'k bridge" where
  "connectWithKey k = new_bridge\<lparr>key := Some k, socket := Some CONNECTING, greeting := True\<rparr>"

text \<open>\<open>waitForBridge\<close>: the first valid greeting gives the channel; anything else is waited over.\<close>

definition parse_greeting :: "'k env \<Rightarrow> jsstring \<Rightarrow> jsstring option" where
  "parse_greeting w t =
     (case json_parse (platform w) t of
        None \<Rightarrow> None
      | Some v \<Rightarrow>
          if \<not> isRecord v \<or> prop_of v ''type'' \<noteq> Some (jstr ''bridge_ready'') \<or>
             prop_of v ''protocol'' \<noteq> Some (jstr ''e2e-v1'')
          then None else as_string (prop_of v ''id''))"

definition start_session :: "jsstring \<Rightarrow> jsstring \<Rightarrow> 'k bridge \<Rightarrow> 'k bridge" where
  "start_session ch nonce b =
     submit FromAuth (packet ''authenticate'' [(''challenge'', JStr nonce)])
       (b\<lparr>greeting := False, channel := ch, challenge := nonce, authPending := True, listening := True\<rparr>)"

text \<open>After a timeout the listeners stay but the promise is settled, so nothing follows from them; the
  socket is not closed.\<close>

definition greeting_failed :: "string \<Rightarrow> 'k bridge \<Rightarrow> 'k b_result" where
  "greeting_failed e b = (if greeting b then (b\<lparr>greeting := False\<rparr>, [ConnectFailed (js e)]) else (b, []))"

text \<open>The timer of the login rejects the promise; settling it again later has no effect.\<close>

definition auth_timeout :: "'k bridge \<Rightarrow> 'k b_result" where
  "auth_timeout b =
     (b\<lparr>authPending := False\<rparr>, if authPending b then [ConnectFailed (js ''Encrypted login timed out'')] else [])"

section \<open>Events\<close>

datatype bevent =
    SocketOpened
  | SocketText jsstring bytes         \<comment> \<open>a text frame; the random bytes are used if it is the greeting\<close>
  | SocketBinary
  | SocketEnding                      \<comment> \<open>the peer's close frame: \<open>readyState\<close> becomes \<open>CLOSING\<close>\<close>
  | SocketClosed int
  | SocketError
  | GreetingTimeout | AuthTimeout
  | ReceiveNext | SendStart | SendFinish bytes
  | DoRequest jsstring jsstring jsstring jsstring | RequestTimeout jsstring
  | DoListWindows jsstring | ListTimeout jsstring
  | DoOpenTerminal jsstring jsstring | DoOpenDesktop jsstring | DoOpenWindow jsstring jsnum jsnum jsnum
  | TerminalSend jsstring data | DesktopSend jsstring data | WindowSend jsstring json
  | TerminalClose jsstring | DesktopClose jsstring | WindowClose jsstring
  | DoUpload jsstring string json | UploadTimeout jsstring | UploadCancel jsstring
  | DoClose

definition set_socket :: "ready_state \<Rightarrow> 'k bridge \<Rightarrow> 'k bridge" where
  "set_socket r b = b\<lparr>socket := map_option (\<lambda>_. r) (socket b)\<rparr>"

definition fail_event :: "jsstring \<Rightarrow> 'k bridge \<Rightarrow> 'k b_result" where
  "fail_event e b = (if listening b then fst (bridge_fail e b) else (b, []))"

fun bridge_step :: "'k env \<Rightarrow> 'k bridge \<Rightarrow> bevent \<Rightarrow> 'k b_result" where
  "bridge_step w b SocketOpened = (if socket b = Some CONNECTING then (set_socket OPEN b, []) else (b, []))"
| "bridge_step w b (SocketText t nonce) =
     (if greeting b then
        (case (parse_greeting w t, bytesToBase64URL nonce) of
           (Some ch, Some c) \<Rightarrow> (start_session ch c b, [])
         | _ \<Rightarrow> (b, []))
      else if listening b then (b\<lparr>inbox := inbox b @ [t]\<rparr>, [])
      else (b, []))"
| "bridge_step w b SocketBinary =
     (if greeting b then (b, []) else fail_event (js ''The encrypted relay returned invalid data'') b)"
| "bridge_step w b SocketEnding = (set_socket CLOSING b, [])"
| "bridge_step w b (SocketClosed code) =
     (let b1 = set_socket CLOSED b in
      if greeting b then greeting_failed ''Your computer is offline'' b1
      else fail_event (js (if code = 1008 then ''Invalid portal token'' else ''The computer connection closed'')) b1)"
| "bridge_step w b SocketError =
     (if greeting b then greeting_failed ''Could not reach your computer'' b
      else fail_event (js ''Could not connect to your computer'') b)"
| "bridge_step w b GreetingTimeout = greeting_failed ''Computer connection timed out'' b"
| "bridge_step w b AuthTimeout = auth_timeout b"
| "bridge_step w b ReceiveNext = receive_next w b"
| "bridge_step w b SendStart = send_start b"
| "bridge_step w b (SendFinish iv) = send_finish w iv b"
| "bridge_step w b (DoRequest i m p body) = (bridge_request i m p body b, [])"
| "bridge_step w b (RequestTimeout i) = request_timeout i b"
| "bridge_step w b (DoListWindows i) = (listWindows i b, [])"
| "bridge_step w b (ListTimeout i) = list_timeout i b"
| "bridge_step w b (DoOpenTerminal i s) = (openTerminal i s b, [])"
| "bridge_step w b (DoOpenDesktop i) = (openDesktop i b, [])"
| "bridge_step w b (DoOpenWindow i n wd h) = (openWindow i n wd h b, [])"
| "bridge_step w b (TerminalSend i d) = (terminal_send i d b, [])"
| "bridge_step w b (DesktopSend i d) = desktop_send i d b"
| "bridge_step w b (WindowSend i v) = (window_send i v b, [])"
| "bridge_step w b (TerminalClose i) = (terminal_close i b, [])"
| "bridge_step w b (DesktopClose i) = (desktop_close i b, [])"
| "bridge_step w b (WindowClose i) = (window_close i b, [])"
| "bridge_step w b (DoUpload i expected v) = (uploadExchange i expected v b, [])"
| "bridge_step w b (UploadTimeout i) = upload_timeout i b"
| "bridge_step w b (UploadCancel i) = (if_open (packet ''file_upload_cancel'' [(''id'', JStr i)]) b, [])"
| "bridge_step w b DoClose = bridge_close b"

abbreviation bridge_run :: "'k env \<Rightarrow> 'k bridge \<Rightarrow> bevent list \<Rightarrow> 'k b_result" where
  "bridge_run w \<equiv> run_steps (bridge_step w)"

end
