(* ===== verification/BridgeDelivery.thy ===== *)
theory BridgeDelivery
  imports BridgeSafety
begin

text \<open>
  What the users of the bridge see of it: a lost connection settles and closes everything, a failure on
  a connection that is still open strands its users, a message from the computer reaches only the stream
  it names, login needs the computer's sealed answer, and no packet is delivered twice.
\<close>

section \<open>Losing the connection\<close>


text \<open>Events that come from the socket and the portal, not from the computer.\<close>

fun ambient :: "bevent \<Rightarrow> bool" where
  "ambient SocketOpened = True"
| "ambient SocketBinary = True"
| "ambient SocketEnding = True"
| "ambient (SocketClosed code) = True"
| "ambient SocketError = True"
| "ambient GreetingTimeout = True"
| "ambient DoClose = True"
| "ambient _ = False"

definition same_streams :: "'k bridge \<Rightarrow> 'k bridge \<Rightarrow> bool" where
  "same_streams b b' \<longleftrightarrow> requests b' = requests b \<and> windowLists b' = windowLists b \<and> uploads b' = uploads b \<and>
     terminals b' = terminals b \<and> desktops b' = desktops b \<and> windows b' = windows b"

definition only_closes :: "out list \<Rightarrow> bool" where
  "only_closes outs \<longleftrightarrow> set outs \<subseteq> {CloseSocket 1000 ''Portal closed''}"

lemma failed_ambient:
  assumes "failed b" "\<not> greeting b" "ambient e"
  shows "failed (fst (bridge_step w b e)) \<and> \<not> greeting (fst (bridge_step w b e)) \<and>
    same_streams b (fst (bridge_step w b e)) \<and> only_closes (snd (bridge_step w b e))"
  using assms
  by (cases e) (auto simp: same_streams_def only_closes_def set_socket_def fail_event_def bridge_fail_def
      greeting_failed_def bridge_close_def Let_def split: option.split)

lemma failed_ambient_run:
  "failed b \<Longrightarrow> \<not> greeting b \<Longrightarrow> list_all ambient es \<Longrightarrow>
   same_streams b (fst (bridge_run w b es)) \<and> only_closes (snd (bridge_run w b es))"
proof (induction es arbitrary: b)
  case Nil
  then show ?case by (simp add: same_streams_def only_closes_def)
next
  case (Cons e es)
  have step: "failed (fst (bridge_step w b e))" "\<not> greeting (fst (bridge_step w b e))"
    "same_streams b (fst (bridge_step w b e))" "only_closes (snd (bridge_step w b e))"
    using failed_ambient [of b e w] Cons.prems by simp_all
  have "list_all ambient es" using Cons.prems(3) by simp
  from Cons.IH [OF step(1,2) this] step(3,4) show ?case
    by (simp add: same_streams_def only_closes_def)
qed

text \<open>C12. A failure on an open connection strands its users: when \<open>fail\<close> is reached while the socket is
  open (a binary frame, or a packet that does not decrypt or parse), closing the socket with code 1008
  throws, so nothing is rejected and no stream is told, and since the bridge counts as failed neither
  the later close of the socket nor closing the portal repairs it: requests stay pending until their
  own timers, and streams stay open in their tables although the bridge is no longer ready.\<close>

theorem failure_on_open_socket_strands:
  assumes "socket b = Some OPEN" "\<not> failed b" "\<not> greeting b" "list_all ambient es"
    and "bridge_fail e b = ((b1, outs1), threw)" "bridge_run w b1 es = (b2, outs2)"
  shows "threw \<and> outs1 = [] \<and> \<not> isReady b1 \<and>
    requests b2 = requests b \<and> windowLists b2 = windowLists b \<and> uploads b2 = uploads b \<and>
    terminals b2 = terminals b \<and> desktops b2 = desktops b \<and> windows b2 = windows b \<and>
    set outs2 \<subseteq> {CloseSocket 1000 ''Portal closed''}"
proof -
  have "OPEN < CLOSING" by (simp add: less_CLOSING_iff)
  then have b1: "b1 = b\<lparr>failed := True\<rparr>" "outs1 = []" "threw"
    using assms(1,2,5) by (auto simp: bridge_fail_def browser_close_def close_code_allowed_def)
  then have "same_streams b1 b2 \<and> only_closes outs2"
    using failed_ambient_run [of b1 es w] assms(3,4,6) by simp
  then show ?thesis using b1 by (simp add: isReady_def same_streams_def only_closes_def)
qed

section \<open>A packet concerns its stream only\<close>

fun out_id :: "out \<Rightarrow> jsstring option" where
  "out_id (RequestDone i st body) = Some i"
| "out_id (RequestFailed i e) = Some i"
| "out_id (WindowsDone i l) = Some i"
| "out_id (WindowsFailed i e) = Some i"
| "out_id (UploadDone i r) = Some i"
| "out_id (UploadFailed i e) = Some i"
| "out_id (TerminalOut i x) = Some i"
| "out_id (DesktopOut i x) = Some i"
| "out_id (WindowOut i x) = Some i"
| "out_id _ = None"

definition same_at :: "jsstring \<Rightarrow> 'k bridge \<Rightarrow> 'k bridge \<Rightarrow> bool" where
  "same_at j b b' \<longleftrightarrow> map_get (requests b') j = map_get (requests b) j \<and>
     map_get (windowLists b') j = map_get (windowLists b) j \<and> map_get (uploads b') j = map_get (uploads b) j \<and>
     map_get (terminals b') j = map_get (terminals b) j \<and> map_get (desktops b') j = map_get (desktops b) j \<and>
     map_get (windows b') j = map_get (windows b) j"

definition spares :: "jsstring \<Rightarrow> 'k bridge \<Rightarrow> 'k r_result \<Rightarrow> bool" where
  "spares j b r \<longleftrightarrow> same_at j b (fst r) \<and> Some j \<notin> out_id ` set (fst (snd r))"

lemma spares_simps [simp]:
  "spares j b (returns q) \<longleftrightarrow> same_at j b (fst q) \<and> Some j \<notin> out_id ` set (snd q)" "spares j b (throws e b)"
  "spares j b (b', outs, err) \<longleftrightarrow> same_at j b b' \<and> Some j \<notin> out_id ` set outs" "same_at j b b"
  by (simp_all add: spares_def returns_def throws_def same_at_def)

lemma on_link_spares:
  assumes "j \<noteq> i"
  shows "same_at j b (fst (on_terminal i ft b))" "Some j \<notin> out_id ` set (snd (on_terminal i ft b))"
    "same_at j b (fst (on_desktop i fd b))" "Some j \<notin> out_id ` set (snd (on_desktop i fd b))"
    "same_at j b (fst (on_window i fw b))" "Some j \<notin> out_id ` set (snd (on_window i fw b))"
  using assms by (auto simp: on_terminal_def on_desktop_def on_window_def same_at_def split: option.splits)

lemma same_at_delete:
  "j \<noteq> i \<Longrightarrow> same_at j b b' \<Longrightarrow> same_at j b (b'\<lparr>terminals := map_delete i (terminals b')\<rparr>)"
  "j \<noteq> i \<Longrightarrow> same_at j b b' \<Longrightarrow> same_at j b (b'\<lparr>desktops := map_delete i (desktops b')\<rparr>)"
  "j \<noteq> i \<Longrightarrow> same_at j b b' \<Longrightarrow> same_at j b (b'\<lparr>windows := map_delete i (windows b')\<rparr>)"
  "j \<noteq> i \<Longrightarrow> same_at j b (b\<lparr>requests := map_delete i (requests b)\<rparr>)"
  "j \<noteq> i \<Longrightarrow> same_at j b (b\<lparr>windowLists := map_delete i (windowLists b)\<rparr>)"
  "j \<noteq> i \<Longrightarrow> same_at j b (b\<lparr>uploads := map_delete i (uploads b)\<rparr>)"
  by (simp_all add: same_at_def)

lemma receive_spares:
  assumes "j \<noteq> i"
  shows "spares j b (receive_window w t i v b)" "spares j b (receive_desktop w t i v b)"
    "spares j b (receive_terminal w t i v b)" "spares j b (receive_upload t i v b)" "spares j b (receive_windows i v b)"
  using assms
  by (simp_all add: receive_window_def receive_desktop_def receive_terminal_def receive_upload_def receive_windows_def
      decoded_def case_prod_beta Let_def on_link_spares same_at_delete split: option.split json.split)

text \<open>A message concerns the stream or promise it names and no other: whatever the computer sends,
  the requests, window lists, uploads, terminals, desktops and windows under every other id keep their
  state and receive no callback.\<close>

theorem message_touches_only_its_id:
  assumes "prop_of v ''id'' \<noteq> Some (JStr j)" "receive_value w v b = (b', outs, err)"
  shows "map_get (requests b') j = map_get (requests b) j \<and> map_get (windowLists b') j = map_get (windowLists b) j \<and>
    map_get (uploads b') j = map_get (uploads b) j \<and> map_get (terminals b') j = map_get (terminals b) j \<and>
    map_get (desktops b') j = map_get (desktops b) j \<and> map_get (windows b') j = map_get (windows b) j \<and>
    Some j \<notin> out_id ` set outs"
proof -
  have "spares j b (receive_authenticated v b)" by (auto simp: receive_authenticated_def same_at_def)
  moreover have "spares j b (receive_http v b)"
    using assms(1) by (auto simp: receive_http_def same_at_delete split: option.split)
  ultimately have "spares j b (receive_value w v b)"
    using assms(1) by (auto simp: receive_value_def receive_spares split: option.split)
  then show ?thesis using assms(2) by (simp add: spares_def same_at_def)
qed

section \<open>Login and replay\<close>

lemma no_Connected:
  "Connected \<notin> set (snd (on_terminal i ft b))" "Connected \<notin> set (snd (on_desktop i fd b))"
  "Connected \<notin> set (snd (on_window i fw b))" "Connected \<notin> set (snd (fail_rest e b))"
  by (auto simp: on_terminal_def on_desktop_def on_window_def fail_rest_def split: option.splits)

lemma bridge_fail_no_Connected: "Connected \<notin> set (snd (fst (bridge_fail e b)))"
  by (simp add: bridge_fail_def case_prod_beta Let_def no_Connected split: option.split)

lemma receive_no_Connected:
  "Connected \<notin> set (fst (snd (receive_window w t i v b)))" "Connected \<notin> set (fst (snd (receive_desktop w t i v b)))"
  "Connected \<notin> set (fst (snd (receive_terminal w t i v b)))" "Connected \<notin> set (fst (snd (receive_upload t i v b)))"
  "Connected \<notin> set (fst (snd (receive_windows i v b)))" "Connected \<notin> set (fst (snd (receive_http v b)))"
  by (auto simp: receive_window_def receive_desktop_def receive_terminal_def receive_upload_def receive_windows_def
      receive_http_def decoded_def returns_def throws_def no_Connected case_prod_beta Let_def
      split: option.splits json.splits if_splits)

lemma Connected_value:
  "Connected \<in> set (fst (snd (receive_value w v b))) \<Longrightarrow>
   prop_of v ''type'' = Some (jstr ''authenticated'') \<and> prop_of v ''challenge'' = Some (JStr (challenge b)) \<and> authPending b"
  using receive_no_Connected(1) [of w _ _ v b] receive_no_Connected(2) [of w _ _ v b]
    receive_no_Connected(3) [of w _ _ v b] receive_no_Connected(4) [of _ _ v b] receive_no_Connected(5) [of _ v b]
    receive_no_Connected(6) [of v b]
  by (auto simp: receive_value_def receive_authenticated_def throws_def split: option.splits if_splits)

lemma Connected_receive:
  assumes "Connected \<in> set (snd (receive_next w b))"
  shows "\<exists>pkt rest k v. inbox b = pkt # rest \<and> key b = Some k \<and>
    decryptPacket (platform w) k (channel b) Connector (receiveSequence b) pkt = Inr v \<and>
    prop_of v ''type'' = Some (jstr ''authenticated'') \<and> prop_of v ''challenge'' = Some (JStr (challenge b))"
proof (cases "inbox b")
  case Nil
  then show ?thesis using assms by (simp add: receive_next_def)
next
  case (Cons pkt rest)
  let ?b = "b\<lparr>inbox := rest\<rparr>"
  obtain b1 outs err where r:
    "(if inbox_rejected b then (?b, [], Some []) else bridge_receive w pkt ?b) = (b1, outs, err)"
    by (metis prod_cases3)
  have "Connected \<in> set outs"
    using assms bridge_fail_no_Connected unfolding receive_next_unfold [OF Cons r] by (auto split: option.splits)
  then have "Connected \<in> set (fst (snd (bridge_receive w pkt ?b)))" using r by (auto split: if_splits)
  then obtain k v where "key b = Some k"
    "decryptPacket (platform w) k (channel b) Connector (receiveSequence b) pkt = Inr v"
    "Connected \<in> set (fst (snd (receive_value w v (?b\<lparr>receiveSequence := receiveSequence b + 1\<rparr>))))"
    by (auto simp: bridge_receive_def throws_def split: option.splits sum.splits)
  then show ?thesis using Connected_value [of w v] Cons by fastforce
qed

text \<open>C1. Login needs the computer: the portal considers itself connected only when a packet arrives that
  was sealed with the portal's own key for this channel, in the direction of the computer and with the
  expected number, and that repeats the challenge this bridge sent.\<close>

theorem login_needs_sealed_challenge:
  assumes "gcm_exact (platform w)" "Connected \<in> set (snd (receive_next w b))"
  shows "\<exists>pkt rest k n iv plaintext v. inbox b = pkt # rest \<and> key b = Some k \<and> length n = 4 \<and>
    get_uint32 n = receiveSequence b \<and>
    base64URLToBytes pkt =
      Some (n @ iv @ gcm_encrypt (platform w) k iv (encryptionAAD (channel b) Connector n) plaintext) \<and>
    json_parse (platform w) (text_decode plaintext) = Some v \<and>
    prop_of v ''type'' = Some (jstr ''authenticated'') \<and> prop_of v ''challenge'' = Some (JStr (challenge b))"
proof -
  obtain pkt rest k v where "inbox b = pkt # rest" "key b = Some k"
    "decryptPacket (platform w) k (channel b) Connector (receiveSequence b) pkt = Inr v"
    "prop_of v ''type'' = Some (jstr ''authenticated'')" "prop_of v ''challenge'' = Some (JStr (challenge b))"
    using Connected_receive [OF assms(2)] by blast
  moreover from accepted_layout [OF assms(1) this(3)] obtain n iv plaintext where
    "get_uint32 n = receiveSequence b" "length n = 4"
    "base64URLToBytes pkt = Some (n @ iv @ gcm_encrypt (platform w) k iv (encryptionAAD (channel b) Connector n) plaintext)"
    "json_parse (platform w) (text_decode plaintext) = Some v"
    by blast
  ultimately show ?thesis by blast
qed

text \<open>The number of accepted packets never goes back.\<close>

definition counts_up :: "'k bridge \<Rightarrow> 'k bridge \<Rightarrow> bool" where
  "counts_up b b' \<longleftrightarrow> receiveSequence b \<le> receiveSequence b' \<and> key b' = key b"

lemma submit_counts [simp]:
  "receiveSequence (submit or' v b) = receiveSequence b" "receiveSequence (if_open v b) = receiveSequence b"
  "key (submit or' v b) = key b" "key (if_open v b) = key b"
  by (simp_all add: submit_def if_open_def)

lemma on_link_counts [simp]:
  "receiveSequence (fst (on_terminal i ft b)) = receiveSequence b" "key (fst (on_terminal i ft b)) = key b"
  "receiveSequence (fst (on_desktop i fd b)) = receiveSequence b" "key (fst (on_desktop i fd b)) = key b"
  "receiveSequence (fst (on_window i fw b)) = receiveSequence b" "key (fst (on_window i fw b)) = key b"
  by (simp_all add: on_terminal_def on_desktop_def on_window_def split: option.split)

lemma bridge_fail_counts [simp]:
  "receiveSequence (fst (fst (bridge_fail e b))) = receiveSequence b" "key (fst (fst (bridge_fail e b))) = key b"
  by (simp_all add: bridge_fail_def fail_rest_def case_prod_beta Let_def split: option.split)

lemma reject_submission_counts [simp]:
  "receiveSequence (fst (reject_submission s e b)) = receiveSequence b" "key (fst (reject_submission s e b)) = key b"
  by (cases "origin_of s"; simp add: reject_submission_def reject_upload_def case_prod_beta split: option.split)+

definition same_count :: "'k bridge \<Rightarrow> 'k r_result \<Rightarrow> bool" where
  "same_count b r \<longleftrightarrow> receiveSequence (fst r) = receiveSequence b \<and> key (fst r) = key b"

lemma same_count_simps [simp]:
  "same_count b (returns q) \<longleftrightarrow> receiveSequence (fst q) = receiveSequence b \<and> key (fst q) = key b"
  "same_count b (throws e b)"
  "same_count b (b', outs, err) \<longleftrightarrow> receiveSequence b' = receiveSequence b \<and> key b' = key b"
  by (simp_all add: same_count_def returns_def throws_def)

lemma receive_counts:
  "same_count b (receive_authenticated v b)" "same_count b (receive_http v b)" "same_count b (receive_upload t i v b)"
  "same_count b (receive_windows i v b)" "same_count b (receive_window w t i v b)"
  "same_count b (receive_desktop w t i v b)" "same_count b (receive_terminal w t i v b)"
  by (simp_all add: receive_authenticated_def receive_http_def receive_upload_def receive_windows_def
      receive_window_def receive_desktop_def receive_terminal_def decoded_def case_prod_beta Let_def
      split: option.split json.split)

lemma receive_value_counts: "same_count b (receive_value w v b)"
  by (simp add: receive_value_def receive_counts split: option.split)

lemma bridge_receive_counts_up: "counts_up b (fst (bridge_receive w pkt b))"
  using receive_value_counts [of "b\<lparr>receiveSequence := Suc (receiveSequence b)\<rparr>" w]
  by (simp add: counts_up_def bridge_receive_def throws_def same_count_def split: option.split sum.split)

lemma receive_next_counts_up: "counts_up b (fst (receive_next w b))"
proof (cases "inbox b")
  case Nil
  then show ?thesis by (simp add: receive_next_def counts_up_def)
next
  case (Cons pkt rest)
  let ?b = "b\<lparr>inbox := rest\<rparr>"
  obtain b1 outs err where r:
    "(if inbox_rejected b then (?b, [], Some []) else bridge_receive w pkt ?b) = (b1, outs, err)"
    by (metis prod_cases3)
  then have "counts_up ?b b1" using bridge_receive_counts_up [of ?b w pkt] by (auto simp: counts_up_def split: if_splits)
  then show ?thesis
    unfolding receive_next_unfold [OF Cons r] by (simp add: counts_up_def split: option.split)
qed

lemma user_events_count:
  "counts_up b (bridge_request i m p body b)" "counts_up b (listWindows i b)" "counts_up b (openTerminal i s b)"
  "counts_up b (openDesktop i b)" "counts_up b (openWindow i n wd h b)" "counts_up b (terminal_send i d b)"
  "counts_up b (fst (desktop_send i d b))" "counts_up b (window_send i v b)" "counts_up b (terminal_close i b)"
  "counts_up b (desktop_close i b)" "counts_up b (window_close i b)" "counts_up b (uploadExchange i ex v b)"
  by (simp_all add: counts_up_def bridge_request_def listWindows_def openTerminal_def openDesktop_def openWindow_def
      terminal_send_def desktop_send_def window_send_def terminal_close_def desktop_close_def window_close_def
      uploadExchange_def t_send_def d_send_def w_send_def sendTerminalData_def sendDesktopData_def
      sendWindowInput_def closeTerminal_def closeDesktop_def closeWindow_def split: option.split data.split)

lemma send_counts: "counts_up b (fst (send_start b))" "counts_up b (fst (send_finish w iv b))"
  by (simp_all add: counts_up_def send_start_def send_finish_def Let_def split: option.split list.split sum.split)

lemma other_events_count:
  "counts_up b (set_socket r b)" "counts_up b (start_session ch c b)" "counts_up b (fst (fail_event e (set_socket r b)))"
  "counts_up b (fst (fail_event e b))" "counts_up b (fst (greeting_failed m b))"
  "counts_up b (fst (greeting_failed m (set_socket r b)))" "counts_up b (fst (auth_timeout b))"
  "counts_up b (fst (request_timeout i b))" "counts_up b (fst (list_timeout i b))" "counts_up b (fst (upload_timeout i b))"
  "counts_up b (fst (bridge_close b))" "counts_up b b" "counts_up b (if_open v b)" "counts_up b (b\<lparr>inbox := q\<rparr>)"
  by (simp_all add: counts_up_def set_socket_def start_session_def fail_event_def greeting_failed_def auth_timeout_def
      request_timeout_def list_timeout_def upload_timeout_def bridge_close_def case_prod_beta Let_def split: option.split)

lemma bridge_step_counts_up: "counts_up b (fst (bridge_step w b e))"
  by (cases e)
     (simp_all add: receive_next_counts_up user_events_count send_counts other_events_count Let_def split: option.split)

lemma counts_up_trans: "counts_up b b1 \<Longrightarrow> counts_up b1 b2 \<Longrightarrow> counts_up b b2"
  by (simp add: counts_up_def)

lemma bridge_run_counts_up: "counts_up b (fst (bridge_run w b es))"
proof (induction es arbitrary: b)
  case (Cons e es)
  then show ?case
    using counts_up_trans [OF bridge_step_counts_up [of b w e]] by (simp del: bridge_step.simps)
qed (simp add: counts_up_def)

lemma decryptPacket_sequence:
  "decryptPacket pl k ch dir n pkt = Inr v \<Longrightarrow> m \<noteq> n \<Longrightarrow> decryptPacket pl k' ch' dir' m pkt = Inl ReplayedOrReordered"
  by (auto simp: decryptPacket_def Let_def split: option.splits if_splits)


section \<open>The properties on concrete runs\<close>


definition demo_env :: "json \<Rightarrow> unit env" where
  "demo_env v = \<lparr>platform = demo_platform\<lparr>json_parse := (\<lambda>_. Some v)\<rparr>, describe = (\<lambda>_. []), type_error = []\<rparr>"

definition demo_bridge :: "jsstring list \<Rightarrow> unit bridge" where
  "demo_bridge pkts = new_bridge\<lparr>key := Some (), socket := Some OPEN, channel := js ''c'', challenge := js ''n'',
     listening := True, authPending := True, inbox := pkts, requests := [(js ''r'', ())],
     terminals := [(js ''t'', \<lparr>t_ready = OPEN\<rparr>)]\<rparr>"

definition demo_answer :: json where
  "demo_answer = jmsg [(''v'', jint 1), (''type'', jstr ''authenticated''), (''challenge'', jstr ''n'')]"

lemma demo_env_exact: "gcm_exact (platform (demo_env v))"
  using demo_gcm_exact by (simp add: gcm_exact_def demo_env_def)

lemma demo_sealed:
  "\<exists>pkt. decryptPacket (platform (demo_env v)) () (js ''c'') Connector 0 pkt = Inr v"
proof -
  obtain pkt where "encryptPacket (platform (demo_env v)) (replicate 12 7) () (js ''c'') Connector (fin_nat 0) v = Inr pkt"
    using encryptPacket_succeeds by (metis zero_less_numeral)
  moreover have "json_faithful (platform (demo_env v)) v"
    by (simp add: json_faithful_def demo_env_def demo_platform_def scalars_js)
  ultimately show ?thesis using open_sealed [OF demo_env_exact, of v v "replicate 12 7" "()" "js ''c''" Connector 0] by auto
qed


theorem failure_on_open_socket_strands_witness:
  "requests (fst (bridge_run (demo_env JNull) (fst (fst (bridge_fail [] (demo_bridge []))))
     [SocketEnding, SocketClosed 1006, DoClose])) = [(js ''r'', ())]"
proof -
  obtain b1 outs1 threw where f: "bridge_fail [] (demo_bridge []) = ((b1, outs1), threw)"
    by (metis prod.collapse)
  obtain b2 outs2 where run: "bridge_run (demo_env JNull) b1 [SocketEnding, SocketClosed 1006, DoClose] = (b2, outs2)"
    by (metis prod.collapse)
  have "requests (demo_bridge []) = [(js ''r'', ())]" "socket (demo_bridge []) = Some OPEN"
    "\<not> failed (demo_bridge [])" "\<not> greeting (demo_bridge [])"
    by (simp_all add: demo_bridge_def new_bridge_def)
  then show ?thesis
    using failure_on_open_socket_strands [OF _ _ _ _ f run] run
    by (simp add: f del: bridge_step.simps run_steps_Cons)
qed

theorem message_touches_only_its_id_witness:
  "map_get (terminals (fst (receive_value (demo_env JNull) JNull (demo_bridge [])))) (js ''t'') =
     Some \<lparr>t_ready = OPEN\<rparr>"
  using message_touches_only_its_id [of JNull "js ''t''" "demo_env JNull" "demo_bridge []"
      "fst (receive_value (demo_env JNull) JNull (demo_bridge []))"
      "fst (snd (receive_value (demo_env JNull) JNull (demo_bridge [])))"
      "snd (snd (receive_value (demo_env JNull) JNull (demo_bridge [])))"]
  by (simp add: jget_def) (simp add: demo_bridge_def new_bridge_def)

theorem login_needs_sealed_challenge_witness:
  "\<exists>pkt v. Connected \<in> set (snd (receive_next (demo_env demo_answer) (demo_bridge [pkt]))) \<and>
     json_parse (platform (demo_env demo_answer)) [] = Some v \<and> prop_of v ''challenge'' = Some (jstr ''n'')"
proof -
  obtain pkt where p: "decryptPacket (platform (demo_env demo_answer)) () (js ''c'') Connector 0 pkt = Inr demo_answer"
    using demo_sealed by blast
  have c: "Connected \<in> set (snd (receive_next (demo_env demo_answer) (demo_bridge [pkt])))"
    using p by (simp add: receive_next_def demo_bridge_def new_bridge_def bridge_receive_def receive_value_def
        receive_authenticated_def demo_answer_def)
  from login_needs_sealed_challenge [OF demo_env_exact c] c show ?thesis
    by (force simp: demo_env_def demo_bridge_def new_bridge_def)
qed


end
