(* ===== verification/Sessions.thy ===== *)
theory Sessions
  imports SavedHistory
begin

text \<open>
  The portal's list data, as \<open>main.ts\<close> declares and looks it up: running sessions and the saved
  terminals of the history, their labels, and the checks on a name typed by the user.

  A session is an object that several closures share, so the state of the portal keeps sessions in a
  store and passes references (theory \<open>TerminalConn\<close>); here are the operations on the values. The date
  parser and the number formatter of the language are arguments where a label needs them.
\<close>

section \<open>Sessions\<close>

datatype viewer = ViewerHidden | ViewerOpening | ViewerVisible | ViewerUnsupported

record session =
  ses_id :: jsstring
  ses_name :: jsstring
  command :: "jsstring list"
  ses_cwd :: jsstring
  startedAt :: jsstring
  endedAt :: "jsstring option"
  running :: bool
  exitCode :: "jsnum option"
  signal :: "jsstring option"
  ses_rows :: jsnum
  ses_cols :: jsnum
  viewer :: "viewer option"

text \<open>Code units outside ASCII that the labels use: the middle dot, the ellipsis, the question mark.\<close>

definition mid_dot :: jsstring where
  [js_eval]: "mid_dot = js '' '' @ [0xB7] @ js '' ''"

definition ellipsis :: jsstring where
  [js_eval]: "ellipsis = [0x2026]"

fun nat_text :: "nat \<Rightarrow> jsstring" where
  "nat_text n = (if n < 10 then [of_nat (48 + n)] else nat_text (n div 10) @ [of_nat (48 + n mod 10)])"

declare nat_text.simps [simp del]

text \<open>\<open>signal\<close> and \<open>endedAt\<close> are tested for truth: the empty string counts as absent.\<close>

definition describeSessionExit :: "(jsnum \<Rightarrow> jsstring) \<Rightarrow> session \<Rightarrow> jsstring" where
  "describeSessionExit show_num s =
     (case signal s of
        Some sg \<Rightarrow> if sg \<noteq> [] then js ''Killed'' @ mid_dot @ sg
                   else if exitCode s = Some (Fin 0) then js ''Exited successfully''
                   else js ''Exited'' @ mid_dot @ js ''code '' @ (case exitCode s of Some c \<Rightarrow> show_num c | None \<Rightarrow> js ''?'')
      | None \<Rightarrow> if exitCode s = Some (Fin 0) then js ''Exited successfully''
                else js ''Exited'' @ mid_dot @ js ''code '' @ (case exitCode s of Some c \<Rightarrow> show_num c | None \<Rightarrow> js ''?''))"

section \<open>Lookups\<close>

definition savedTerminalBySession :: "saved_terminal list \<Rightarrow> session \<Rightarrow> saved_terminal option" where
  "savedTerminalBySession saved s =
     find (\<lambda>item. sourceSessionId item = ses_id s \<or> activeSessionId item = Some (ses_id s)) saved"

definition runningSessionForSaved :: "session list \<Rightarrow> saved_terminal \<Rightarrow> session option" where
  "runningSessionForSaved sessions saved =
     find (\<lambda>item. ses_id item = savedSessionID saved \<and> running item) sessions"

definition favoriteSavedTerminals :: "date_parse \<Rightarrow> saved_terminal list \<Rightarrow> saved_terminal list" where
  "favoriteSavedTerminals date saved = by_activity date (filter favorite saved)"

definition recentSavedTerminals :: "date_parse \<Rightarrow> saved_terminal list \<Rightarrow> session list \<Rightarrow> saved_terminal list" where
  "recentSavedTerminals date saved sessions =
     recent (visibleSavedGroups date saved (set (map ses_id sessions)))"

definition replaceSavedTerminal :: "saved_terminal \<Rightarrow> saved_terminal list \<Rightarrow> saved_terminal list" where
  "replaceSavedTerminal updated saved = updated # filter (\<lambda>item. saved_id item \<noteq> saved_id updated) saved"

definition drop_saved :: "saved_terminal \<Rightarrow> saved_terminal list \<Rightarrow> saved_terminal list" where
  "drop_saved gone saved = filter (\<lambda>item. saved_id item \<noteq> saved_id gone) saved"

text \<open>The computer answers with one terminal; it passes through the decoder of the whole history.\<close>

definition decodeSavedTerminal :: "date_parse \<Rightarrow> json \<Rightarrow> history_error + saved_terminal" where
  "decodeSavedTerminal date v =
     (case decodeTerminalHistory date (jmsg [(''terminals'', JArr [v])]) of
        Inl e \<Rightarrow> Inl e
      | Inr [] \<Rightarrow> Inl InvalidHistory
      | Inr (decoded # _) \<Rightarrow> Inr decoded)"

section \<open>Names\<close>

datatype name_input = Cancelled | Refused jsstring | Accepted jsstring

text \<open>\<open>Refused\<close> carries the text of the alert; the function then returns \<open>undefined\<close> as for a
  cancelled prompt.\<close>

definition normalizeTerminalNameInput :: "jsstring option \<Rightarrow> name_input" where
  "normalizeTerminalNameInput v =
     (case v of
        None \<Rightarrow> Cancelled
      | Some typed \<Rightarrow>
          let name = trim typed in
          if name = [] then Refused (js ''Terminal name is required.'')
          else if MAX_TERMINAL_NAME_LENGTH < length name then
            Refused (js ''Terminal name must be '' @ nat_text MAX_TERMINAL_NAME_LENGTH @ js '' characters or less.'')
          else Accepted name)"

section \<open>Labels\<close>

definition compactPath :: "jsstring \<Rightarrow> jsstring" where
  "compactPath v =
     (let parts = filter (\<lambda>p. p \<noteq> []) (split_on (\<lambda>c. c = 47) v) in
      if length parts \<le> 2 then v
      else ellipsis @ js ''/'' @ join (js ''/'') (drop (length parts - 2) parts))"

definition shortCommand :: "jsstring list \<Rightarrow> jsstring" where
  "shortCommand cmd =
     (let joined = join (js '' '') cmd in
      if 45 < length joined then slice joined 0 44 @ ellipsis else joined)"

text \<open>\<open>Math.max(0, Math.floor((end - start) / 1000))\<close> on times in milliseconds.\<close>

definition seconds_between :: "int \<Rightarrow> int \<Rightarrow> nat" where
  "seconds_between start end' = nat ((end' - start) div 1000)"

definition age_text :: "nat \<Rightarrow> jsstring" where
  "age_text seconds =
     (if seconds < 60 then nat_text seconds @ js ''s''
      else let minutes = seconds div 60 in
        if minutes < 60 then nat_text minutes @ js ''m''
        else let hours = minutes div 60 in
          if hours < 24 then nat_text hours @ js ''h '' @ nat_text (minutes mod 60) @ js ''m''
          else nat_text (hours div 24) @ js ''d '' @ nat_text (hours mod 24) @ js ''h'')"

text \<open>An unreadable date makes every number of the label \<open>NaN\<close>, and every comparison false.\<close>

definition ageLabel :: "date_parse \<Rightarrow> int \<Rightarrow> session \<Rightarrow> jsstring" where
  "ageLabel date now s =
     (let finish = (case endedAt s of Some e \<Rightarrow> if e \<noteq> [] then date e else Some now | None \<Rightarrow> Some now) in
      case (date (startedAt s), finish) of
        (Some a, Some b) \<Rightarrow> age_text (seconds_between a b)
      | _ \<Rightarrow> js ''NaNd NaNh'')"

definition savedAgeLabel :: "date_parse \<Rightarrow> (int \<Rightarrow> jsstring) \<Rightarrow> int \<Rightarrow> saved_terminal \<Rightarrow> jsstring" where
  "savedAgeLabel date local_date now s =
     (let time = savedActivityTime date s in
      if time = 0 then js ''saved''
      else let seconds = seconds_between time now in
        if seconds < 60 then js ''just now''
        else let minutes = seconds div 60 in
          if minutes < 60 then nat_text minutes @ js ''m ago''
          else let hours = minutes div 60 in
            if hours < 24 then nat_text hours @ js ''h ago''
            else let days = hours div 24 in
              if days < 30 then nat_text days @ js ''d ago'' else local_date time)"

definition nativeViewerButtonText :: "session \<Rightarrow> jsstring" where
  "nativeViewerButtonText s =
     (case viewer s of
        Some ViewerVisible \<Rightarrow> js ''Hide on computer''
      | Some ViewerOpening \<Rightarrow> js ''Cancel opening''
      | Some ViewerHidden \<Rightarrow> js ''Open on computer''
      | Some ViewerUnsupported \<Rightarrow> js ''Desktop viewer unavailable''
      | None \<Rightarrow> js ''Update local app'')"

definition viewer_button_disabled :: "session \<Rightarrow> bool" where
  "viewer_button_disabled s \<longleftrightarrow> viewer s = None \<or> viewer s = Some ViewerUnsupported \<or> \<not> running s"

definition session_summary :: "nat \<Rightarrow> nat \<Rightarrow> nat \<Rightarrow> jsstring" where
  "session_summary live favs recents =
     (if 0 < favs + recents
      then nat_text live @ js '' running'' @ mid_dot @ nat_text favs @ js '' favorites'' @ mid_dot @ nat_text recents @ js '' recent''
      else nat_text live @ js '' running'')"

end
