(* ===== verification/TabOrder.thy ===== *)
theory TabOrder
  imports Sessions "HOL-Library.Multiset"
begin

text \<open>
  The order of the terminal tabs in \<open>main.ts\<close>: its storage, the list of running sessions in that order,
  moving a tab with the keyboard, and the gestures on the tab rail (scrolling with momentum, and
  dragging a tab by its grip).

  The stored text is \<open>None\<close> when local storage has no entry or throws. \<open>parse\<close> and \<open>stringify\<close> are
  \<open>JSON.parse\<close> and \<open>JSON.stringify\<close>. A tab is known by the identifier of its session; the children of
  the rail are the list \<open>tabs\<close>, and \<open>insert_before\<close> is the document's \<open>insertBefore\<close>. Positions and
  times are exact rationals; where the tabs are on the screen is read by the events.
\<close>

section \<open>Storage\<close>

definition MAX_PERSISTED_TERMINAL_TABS :: nat where
  "MAX_PERSISTED_TERMINAL_TABS = 64"

definition valid_tab_id :: "jsstring \<Rightarrow> bool" where
  "valid_tab_id s \<longleftrightarrow> s \<noteq> [] \<and> length s \<le> 160"

text \<open>The loop of \<open>readTerminalTabOrder\<close>: \<open>unique\<close> is the set, in insertion order.\<close>

fun collect_ids :: "jsstring list \<Rightarrow> json list \<Rightarrow> jsstring list" where
  "collect_ids unique [] = unique"
| "collect_ids unique (v # vs) =
     (case as_string (Some v) of
        None \<Rightarrow> collect_ids unique vs
      | Some s \<Rightarrow>
          if \<not> valid_tab_id s then collect_ids unique vs
          else
            (let unique' = (if s \<in> set unique then unique else unique @ [s]) in
             if MAX_PERSISTED_TERMINAL_TABS \<le> length unique' then unique' else collect_ids unique' vs))"

definition readTerminalTabOrder :: "(jsstring \<Rightarrow> json option) \<Rightarrow> jsstring option \<Rightarrow> jsstring list" where
  "readTerminalTabOrder parse stored =
     (let text = (case stored of None \<Rightarrow> js ''[]'' | Some t \<Rightarrow> if t = [] then js ''[]'' else t) in
      case parse text of
        Some (JArr vs) \<Rightarrow> collect_ids [] vs
      | _ \<Rightarrow> [])"

definition writeTerminalTabOrder :: "(json \<Rightarrow> jsstring) \<Rightarrow> bool \<Rightarrow> jsstring list \<Rightarrow> jsstring option \<Rightarrow> jsstring option" where
  "writeTerminalTabOrder stringify writable ids stored =
     (if writable then Some (stringify (JArr (map JStr (take MAX_PERSISTED_TERMINAL_TABS ids)))) else stored)"

section \<open>The running sessions in order\<close>

fun pick_stored :: "(jsstring, session) jsmap \<Rightarrow> jsstring list \<Rightarrow> session list \<times> (jsstring, session) jsmap" where
  "pick_stored byId [] = ([], byId)"
| "pick_stored byId (i # is) =
     (case map_get byId i of
        None \<Rightarrow> pick_stored byId is
      | Some s \<Rightarrow> (let (ordered, rest) = pick_stored (map_delete i byId) is in (s # ordered, rest)))"

fun pick_rest :: "(jsstring, session) jsmap \<Rightarrow> session list \<Rightarrow> session list" where
  "pick_rest byId [] = []"
| "pick_rest byId (s # ss) =
     (if map_get byId (ses_id s) \<noteq> None then s # pick_rest (map_delete (ses_id s) byId) ss else pick_rest byId ss)"

definition orderedRunningSessions ::
  "(jsstring \<Rightarrow> json option) \<Rightarrow> (json \<Rightarrow> jsstring) \<Rightarrow> bool \<Rightarrow> jsstring option \<Rightarrow> session list \<Rightarrow>
   session list \<times> jsstring option" where
  "orderedRunningSessions parse stringify writable stored sessions =
     (let live = filter running sessions;
          byId = fold (\<lambda>s. map_set (ses_id s) s) live [];
          (first, rest) = pick_stored byId (readTerminalTabOrder parse stored);
          ordered = first @ pick_rest rest live;
          normalized = map ses_id ordered
      in (ordered, if normalized \<noteq> [] then writeTerminalTabOrder stringify writable normalized stored else stored))"

section \<open>Moving tabs\<close>

text \<open>\<open>list.insertBefore(x, r)\<close>: \<open>x\<close> leaves its place and goes before \<open>r\<close>; without \<open>r\<close> it goes last.\<close>

fun put_before :: "'a \<Rightarrow> 'a \<Rightarrow> 'a list \<Rightarrow> 'a list" where
  "put_before x r [] = [x]"
| "put_before x r (y # ys) = (if y = r then x # y # ys else y # put_before x r ys)"

definition insert_before :: "'a \<Rightarrow> 'a option \<Rightarrow> 'a list \<Rightarrow> 'a list" where
  "insert_before x r ys =
     (case r of
        None \<Rightarrow> removeAll x ys @ [x]
      | Some z \<Rightarrow> if z = x then ys else put_before x z (removeAll x ys))"

fun index_of :: "'a \<Rightarrow> 'a list \<Rightarrow> nat option" where
  "index_of x [] = None"
| "index_of x (y # ys) = (if x = y then Some 0 else map_option Suc (index_of x ys))"

definition nth_opt :: "'a list \<Rightarrow> int \<Rightarrow> 'a option" where
  "nth_opt xs i = (if 0 \<le> i \<and> i < int (length xs) then Some (xs ! nat i) else None)"

definition moveTerminalTabWithKeyboard :: "jsstring \<Rightarrow> bool \<Rightarrow> jsstring list \<Rightarrow> jsstring list option" where
  "moveTerminalTabWithKeyboard tab left tabs =
     (case index_of tab tabs of
        None \<Rightarrow> None
      | Some i \<Rightarrow>
          (case nth_opt tabs (int i + (if left then -1 else 1)) of
             None \<Rightarrow> None
           | Some target \<Rightarrow>
               if left then Some (insert_before tab (Some target) tabs)
               else Some (insert_before tab (nth_opt tabs (int i + 2)) tabs)))"

text \<open>\<open>persistTerminalTabOrder\<close> drops tabs without an identifier.\<close>

definition persistTerminalTabOrder ::
  "(json \<Rightarrow> jsstring) \<Rightarrow> bool \<Rightarrow> jsstring list \<Rightarrow> jsstring option \<Rightarrow> jsstring option" where
  "persistTerminalTabOrder stringify writable tabs stored =
     writeTerminalTabOrder stringify writable (filter (\<lambda>i. i \<noteq> []) tabs) stored"

text \<open>The position that \<open>updateTerminalTabPositions\<close> writes on a tab.\<close>

definition tab_position :: "jsstring list \<Rightarrow> jsstring \<Rightarrow> (nat \<times> nat) option" where
  "tab_position tabs tab = map_option (\<lambda>i. (i + 1, length tabs)) (index_of tab tabs)"

section \<open>Gestures on the rail\<close>

record rail =
  tabs :: "jsstring list"
  stored :: "jsstring option"
  pointerId :: "int option"
  pressTimer :: bool
  reorderTab :: "jsstring option"
  pressedTab :: "jsstring option"
  scrolling :: bool
  startX :: rat
  startY :: rat
  lastX :: rat
  lastTime :: rat
  velocity :: rat
  momentum :: "rat option"           \<comment> \<open>the time of the previous frame while momentum runs\<close>
  scrollLeft :: rat
  suppressed :: "jsstring set"       \<comment> \<open>the tabs with \<open>data-suppress-click\<close>\<close>
  dragging :: "jsstring set"         \<comment> \<open>the tabs with the class \<open>dragging\<close>\<close>

text \<open>What a press hits: nothing, a tab, or the drag grip of a tab; and what a move reads.\<close>

datatype target = NoTab | OnTab jsstring | OnGrip jsstring

record press =
  mouse :: bool
  button :: nat
  press_id :: int
  press_x :: rat
  press_y :: rat
  press_time :: rat
  hit :: target

record move =
  move_id :: int
  move_x :: rat
  move_y :: rat
  move_time :: rat
  rail_left :: rat
  rail_right :: rat
  middle :: "jsstring \<Rightarrow> rat"

definition hit_tab :: "target \<Rightarrow> jsstring option" where
  "hit_tab h = (case h of NoTab \<Rightarrow> None | OnTab t \<Rightarrow> Some t | OnGrip t \<Rightarrow> Some t)"

definition onPointerDown :: "press \<Rightarrow> rail \<Rightarrow> rail" where
  "onPointerDown p r =
     (if mouse p \<and> button p \<noteq> 0 then r
      else r\<lparr>momentum := None, pressTimer := (case hit p of OnGrip _ \<Rightarrow> True | _ \<Rightarrow> False),
             pointerId := Some (press_id p), pressedTab := hit_tab (hit p), startX := press_x p, startY := press_y p,
             lastX := press_x p, lastTime := press_time p, velocity := 0, scrolling := False, reorderTab := None\<rparr>)"

definition beginDrag :: "rail \<Rightarrow> rail" where
  "beginDrag r =
     (let r1 = r\<lparr>pressTimer := False\<rparr> in
      case (pointerId r1, pressedTab r1) of
        (Some _, Some t) \<Rightarrow>
          if scrolling r1 then r1 else r1\<lparr>reorderTab := Some t, suppressed := insert t (suppressed r1), dragging := insert t (dragging r1)\<rparr>
      | _ \<Rightarrow> r1)"

text \<open>The scrolling half of \<open>onPointerMove\<close>: the first movement beyond six pixels decides.\<close>

definition scroll_move :: "move \<Rightarrow> rail \<Rightarrow> rail" where
  "scroll_move m r =
     (let horizontal = \<bar>move_x m - startX r\<bar>; vertical = \<bar>move_y m - startY r\<bar>;
          starts = (\<not> scrolling r \<and> (6 < horizontal \<or> 6 < vertical));
          r1 = (if starts then r\<lparr>pressTimer := False, scrolling := True\<rparr> else r)
      in if starts \<and> horizontal \<le> vertical then r1\<lparr>lastX := move_x m, lastTime := move_time m\<rparr>
         else if \<not> scrolling r1 then r1
         else
           let elapsed = max 1 (move_time m - lastTime r1); delta = lastX r1 - move_x m
           in r1\<lparr>scrollLeft := scrollLeft r1 + delta,
                 velocity := velocity r1 * (65 / 100) + delta / elapsed * (35 / 100),
                 lastX := move_x m, lastTime := move_time m\<rparr>)"

text \<open>The dragging half: near an edge the rail scrolls, and the tab goes before the first sibling whose
  middle is right of the pointer, or last.\<close>

definition place_tab ::
  "(jsstring \<Rightarrow> rat) \<Rightarrow> rat \<Rightarrow> jsstring set \<Rightarrow> jsstring \<Rightarrow> jsstring list \<Rightarrow> jsstring list" where
  "place_tab mid x dragged t ts =
     (case find (\<lambda>sibling. x < mid sibling) (filter (\<lambda>s. s \<notin> dragged) ts) of
        Some sibling \<Rightarrow> insert_before t (Some sibling) ts
      | None \<Rightarrow> insert_before t None ts)"

definition drag_move :: "move \<Rightarrow> jsstring \<Rightarrow> rail \<Rightarrow> rail" where
  "drag_move m t r =
     (let r1 = r\<lparr>scrollLeft :=
           (if move_x m < rail_left m + 34 then scrollLeft r - 18
            else if rail_right m - 34 < move_x m then scrollLeft r + 18 else scrollLeft r)\<rparr>
      in r1\<lparr>tabs := place_tab (middle m) (move_x m) (dragging r1) t (tabs r1)\<rparr>)"

definition onPointerMove :: "move \<Rightarrow> rail \<Rightarrow> rail" where
  "onPointerMove m r =
     (if pointerId r \<noteq> Some (move_id m) then r
      else case reorderTab r of None \<Rightarrow> scroll_move m r | Some t \<Rightarrow> drag_move m t r)"

definition startMomentum :: "rat \<Rightarrow> rail \<Rightarrow> rail" where
  "startMomentum now r = (if \<bar>velocity r\<bar> < 8 / 100 then r else r\<lparr>momentum := Some now\<rparr>)"

text \<open>A frame of the momentum; \<open>decay\<close> is \<open>Math.pow(0.9, elapsed / 16.67)\<close>.\<close>

definition momentum_frame :: "(rat \<Rightarrow> rat) \<Rightarrow> rat \<Rightarrow> rail \<Rightarrow> rail" where
  "momentum_frame decay now r =
     (case momentum r of
        None \<Rightarrow> r
      | Some previous \<Rightarrow>
          (let elapsed = min 32 (now - previous); v = velocity r * decay elapsed
           in r\<lparr>scrollLeft := scrollLeft r + velocity r * elapsed, velocity := v,
                momentum := (if 2 / 100 \<le> \<bar>v\<bar> then Some now else None)\<rparr>))"

definition finishGesture :: "(json \<Rightarrow> jsstring) \<Rightarrow> bool \<Rightarrow> rat \<Rightarrow> rail \<Rightarrow> rail" where
  "finishGesture stringify writable now r =
     (let r1 = r\<lparr>pressTimer := False\<rparr>;
          r2 = (if reorderTab r1 \<noteq> None then r1\<lparr>stored := persistTerminalTabOrder stringify writable (tabs r1) (stored r1)\<rparr> else r1);
          r2a = (case reorderTab r2 of Some t \<Rightarrow> r2\<lparr>dragging := dragging r2 - {t}\<rparr> | None \<Rightarrow> r2);
          r3 = (if scrolling r2a then startMomentum now r2a else r2a);
          r4 = (case pressedTab r3 of
                  Some t \<Rightarrow> if scrolling r3 \<or> reorderTab r3 \<noteq> None then r3\<lparr>suppressed := insert t (suppressed r3)\<rparr> else r3
                | None \<Rightarrow> r3)
      in r4\<lparr>pointerId := None, reorderTab := None, pressedTab := None, scrolling := False\<rparr>)"

text \<open>The timer of 120 ms that allows clicks on a tab again.\<close>

definition allow_click :: "jsstring \<Rightarrow> rail \<Rightarrow> rail" where
  "allow_click t r = r\<lparr>suppressed := suppressed r - {t}\<rparr>"

text \<open>The tab's own handlers: a click opens the session unless it ended a gesture, Alt and an arrow key
  move the tab.\<close>

definition tab_click :: "jsstring \<Rightarrow> jsstring \<Rightarrow> rail \<Rightarrow> jsstring option" where
  "tab_click active t r = (if t \<in> suppressed r \<or> t = active then None else Some t)"

definition keyboard_move :: "(json \<Rightarrow> jsstring) \<Rightarrow> bool \<Rightarrow> jsstring \<Rightarrow> bool \<Rightarrow> rail \<Rightarrow> rail" where
  "keyboard_move stringify writable t left r =
     (case moveTerminalTabWithKeyboard t left (tabs r) of
        None \<Rightarrow> r
      | Some ts \<Rightarrow> r\<lparr>tabs := ts, stored := persistTerminalTabOrder stringify writable ts (stored r)\<rparr>)"

datatype gesture = Press press | Move move | Finish rat | PressTimeout | AllowClick jsstring | Frame rat | KeyMove jsstring bool

fun rail_step :: "(json \<Rightarrow> jsstring) \<Rightarrow> (rat \<Rightarrow> rat) \<Rightarrow> bool \<Rightarrow> rail \<Rightarrow> gesture \<Rightarrow> rail" where
  "rail_step stringify decay writable r (Press p) = onPointerDown p r"
| "rail_step stringify decay writable r (Move m) = onPointerMove m r"
| "rail_step stringify decay writable r (Finish now) = finishGesture stringify writable now r"
| "rail_step stringify decay writable r PressTimeout = (if pressTimer r then beginDrag r else r)"
| "rail_step stringify decay writable r (AllowClick t) = allow_click t r"
| "rail_step stringify decay writable r (Frame now) = momentum_frame decay now r"
| "rail_step stringify decay writable r (KeyMove t left) = keyboard_move stringify writable t left r"

definition rail_run :: "(json \<Rightarrow> jsstring) \<Rightarrow> (rat \<Rightarrow> rat) \<Rightarrow> bool \<Rightarrow> rail \<Rightarrow> gesture list \<Rightarrow> rail" where
  "rail_run stringify decay writable = foldl (rail_step stringify decay writable)"

section \<open>The stored order\<close>

definition good_order :: "jsstring list \<Rightarrow> bool" where
  "good_order ids \<longleftrightarrow> distinct ids \<and> list_all valid_tab_id ids \<and> length ids \<le> MAX_PERSISTED_TERMINAL_TABS"

lemma collect_ids_good:
  "distinct u \<Longrightarrow> list_all valid_tab_id u \<Longrightarrow> length u < MAX_PERSISTED_TERMINAL_TABS \<Longrightarrow> good_order (collect_ids u vs)"
  by (induction u vs rule: collect_ids.induct) (auto simp: good_order_def Let_def split: option.splits)

lemma collect_ids_strings:
  assumes "distinct (u @ ids)" "list_all valid_tab_id ids" "length u < MAX_PERSISTED_TERMINAL_TABS"
  shows "collect_ids u (map JStr ids) = take MAX_PERSISTED_TERMINAL_TABS (u @ ids)"
  using assms
proof (induction ids arbitrary: u)
  case (Cons i ids)
  have i: "valid_tab_id i" "i \<notin> set u" using Cons.prems by auto
  show ?case
  proof (cases "MAX_PERSISTED_TERMINAL_TABS \<le> Suc (length u)")
    case True
    then have "MAX_PERSISTED_TERMINAL_TABS - length u = Suc 0" "MAX_PERSISTED_TERMINAL_TABS = Suc (length u)"
      using Cons.prems(3) by simp_all
    then show ?thesis using i by (simp add: take_Cons' del: One_nat_def)
  next
    case False
    then show ?thesis using i Cons.IH [of "u @ [i]"] Cons.prems by simp
  qed
qed simp

text \<open>What is written is read back, if \<open>JSON.parse\<close> reads what \<open>JSON.stringify\<close> made of it.\<close>

definition order_json :: "jsstring list \<Rightarrow> json" where
  "order_json ids = JArr (map JStr (take MAX_PERSISTED_TERMINAL_TABS ids))"

definition json_reads_back :: "(jsstring \<Rightarrow> json option) \<Rightarrow> (json \<Rightarrow> jsstring) \<Rightarrow> json \<Rightarrow> bool" where
  "json_reads_back parse stringify v \<longleftrightarrow> parse (stringify v) = Some v \<and> stringify v \<noteq> []"

lemma read_write:
  assumes "distinct ids" "list_all valid_tab_id ids" "json_reads_back parse stringify (order_json ids)"
  shows "readTerminalTabOrder parse (writeTerminalTabOrder stringify True ids entry) = take MAX_PERSISTED_TERMINAL_TABS ids"
proof -
  let ?ids = "take MAX_PERSISTED_TERMINAL_TABS ids"
  have "distinct ?ids" "list_all valid_tab_id ?ids"
    using assms(1,2) by (auto simp: list_all_iff dest: in_set_takeD)
  then have "collect_ids [] (map JStr ?ids) = ?ids"
    using collect_ids_strings [of "[]" ?ids] by (simp add: MAX_PERSISTED_TERMINAL_TABS_def)
  then show ?thesis
    using assms(3) by (simp add: readTerminalTabOrder_def writeTerminalTabOrder_def json_reads_back_def order_json_def Let_def)
qed

lemma read_good: "good_order (readTerminalTabOrder parse entry)"
proof -
  have "good_order (collect_ids [] vs)" "good_order []" for vs
    using collect_ids_good [of "[]" vs] by (simp_all add: good_order_def MAX_PERSISTED_TERMINAL_TABS_def)
  then show ?thesis by (simp add: readTerminalTabOrder_def Let_def split: option.split json.split)
qed

text \<open>What is read is always a usable order: whatever text the browser kept, the tab order has at most
  64 identifiers, all different, each of 1 to 160 code units.\<close>

theorem stored_tab_order_valid: "good_order (readTerminalTabOrder parse entry)"
  by (rule read_good)

section \<open>The order of the running sessions\<close>

definition by_id :: "session list \<Rightarrow> jsstring \<Rightarrow> session option" where
  "by_id ss i = find (\<lambda>s. ses_id s = i) ss"

lemma by_id_Some: "by_id ss i = Some s \<Longrightarrow> s \<in> set ss \<and> ses_id s = i"
  by (auto simp: by_id_def find_Some_iff)

lemma by_id_None: "by_id ss i = None \<longleftrightarrow> i \<notin> ses_id ` set ss"
  by (auto simp: by_id_def find_None_iff)

lemma by_id_Cons [simp]: "by_id (s # ss) i = (if ses_id s = i then Some s else by_id ss i)"
  by (simp add: by_id_def)

lemma by_id_in: "distinct (map ses_id ss) \<Longrightarrow> s \<in> set ss \<Longrightarrow> by_id ss (ses_id s) = Some s"
  by (induction ss) (auto simp: by_id_def)

lemma map_of_fold_set:
  "distinct (map ses_id ss) \<Longrightarrow> map_get (fold (\<lambda>s. map_set (ses_id s) s) ss m) i =
     (case by_id ss i of Some s \<Rightarrow> Some s | None \<Rightarrow> map_get m i)"
proof (induction ss arbitrary: m)
  case (Cons s ss)
  have s: "by_id ss (ses_id s) = None" using Cons.prems by (auto simp: by_id_None)
  have IH: "map_get (fold (\<lambda>s. map_set (ses_id s) s) ss m') i =
      (case by_id ss i of Some s \<Rightarrow> Some s | None \<Rightarrow> map_get m' i)" for m'
    using Cons.IH [of m'] Cons.prems by simp
  show ?case using s by (cases "ses_id s = i") (simp_all add: IH split: option.split)
qed (simp add: by_id_def)

lemma map_filter_cong: "(\<And>x. x \<in> set xs \<Longrightarrow> f x = g x) \<Longrightarrow> List.map_filter f xs = List.map_filter g xs"
  by (induction xs) (simp_all split: option.split)

lemma in_map_filter: "y \<in> set (List.map_filter f xs) \<longleftrightarrow> (\<exists>x\<in>set xs. f x = Some y)"
  by (induction xs) (auto split: option.split)

lemma pick_stored_result:
  "distinct is \<Longrightarrow> fst (pick_stored m is) = List.map_filter (map_get m) is \<and>
     map_get (snd (pick_stored m is)) = (map_get m) |` (- set is)"
proof (induction "is" arbitrary: m)
  case (Cons i "is")
  have cong: "List.map_filter ((map_get m)(i := None)) is = List.map_filter (map_get m) is"
    using Cons.prems by (intro map_filter_cong) auto
  show ?case
    using Cons.IH [of m] Cons.IH [of "map_delete i m"] Cons.prems cong
    by (auto simp: cong [unfolded fun_upd_def] case_prod_beta restrict_map_def fun_eq_iff split: option.split)
qed (simp add: restrict_map_def)

lemma pick_rest_result:
  "distinct (map ses_id ss) \<Longrightarrow> pick_rest m ss = filter (\<lambda>s. map_get m (ses_id s) \<noteq> None) ss"
proof (induction ss arbitrary: m)
  case (Cons s ss)
  have "filter (\<lambda>x. map_get (map_delete (ses_id s) m) (ses_id x) \<noteq> None) ss = filter (\<lambda>x. map_get m (ses_id x) \<noteq> None) ss"
    using Cons.prems by (intro filter_cong) (auto simp: image_iff)
  then show ?case using Cons by simp
qed simp

lemma ordered_sessions_result:
  assumes "distinct (map ses_id (filter running ss))"
  shows "fst (orderedRunningSessions parse stringify writable entry ss) =
    List.map_filter (by_id (filter running ss)) (readTerminalTabOrder parse entry) @
    filter (\<lambda>s. ses_id s \<notin> set (readTerminalTabOrder parse entry)) (filter running ss)"
proof -
  let ?live = "filter running ss" and ?order = "readTerminalTabOrder parse entry"
  let ?m = "fold (\<lambda>s. map_set (ses_id s) s) ?live []"
  have m: "map_get ?m = by_id ?live"
    using map_of_fold_set [OF assms, of "[]"] by (auto simp: fun_eq_iff split: option.split)
  have d: "distinct ?order" using read_good [of parse entry] by (simp add: good_order_def)
  obtain first rest where p: "pick_stored ?m ?order = (first, rest)" by fastforce
  have f: "first = List.map_filter (by_id ?live) ?order" "map_get rest = by_id ?live |` (- set ?order)"
    using pick_stored_result [OF d, of ?m] by (simp_all add: p m)
  have "pick_rest rest ?live = filter (\<lambda>s. ses_id s \<notin> set ?order) ?live"
    unfolding pick_rest_result [OF assms] f(2)
    using by_id_in [OF assms] by (intro filter_cong) (auto simp: restrict_map_def)
  then show ?thesis by (simp add: orderedRunningSessions_def Let_def p f(1))
qed

lemma ids_map_filter: "map ses_id (List.map_filter (by_id ss) is) = filter (\<lambda>i. i \<in> ses_id ` set ss) is"
proof (induction "is")
  case (Cons i "is")
  then show ?case
    using by_id_None [of ss i] by_id_Some [of ss i] by (cases "by_id ss i") auto
qed (simp add:)

lemma set_map_filter_by_id:
  "distinct (map ses_id ss) \<Longrightarrow> set (List.map_filter (by_id ss) is) = {s \<in> set ss. ses_id s \<in> set is}"
  by (fastforce simp: in_map_filter dest: by_id_Some intro: by_id_in)

text \<open>Every running terminal has its tab, once: the ordered sessions are a permutation of the running
  ones, first those with a stored position in that order, then the others in the order of the list.\<close>

theorem tabs_are_running_sessions:
  assumes "distinct (map ses_id (filter running ss))"
    and "order = readTerminalTabOrder parse entry" "result = fst (orderedRunningSessions parse stringify writable entry ss)"
  shows "mset result = mset (filter running ss) \<and>
    map ses_id result = filter (\<lambda>i. i \<in> ses_id ` set (filter running ss)) order @
      filter (\<lambda>i. i \<notin> set order) (map ses_id (filter running ss))"
proof -
  let ?live = "filter running ss"
  let ?a = "List.map_filter (by_id ?live) order" and ?b = "filter (\<lambda>s. ses_id s \<notin> set order) ?live"
  have r: "result = ?a @ ?b"
    using ordered_sessions_result [OF assms(1)] assms(2,3) by simp
  have order: "distinct order"
    using read_good [of parse entry] assms(2) by (simp add: good_order_def)
  have ids: "map ses_id result = filter (\<lambda>i. i \<in> ses_id ` set ?live) order @ filter (\<lambda>i. i \<notin> set order) (map ses_id ?live)"
    unfolding r by (simp add: ids_map_filter filter_map comp_def)
  have "distinct (map ses_id result)" unfolding ids using order assms(1) by auto
  then have "distinct result" by (simp add: distinct_map) 
  moreover have "distinct ?live" using assms(1) by (simp add: distinct_map)
  moreover have "set result = set ?live" unfolding r set_append set_map_filter_by_id [OF assms(1)] by auto
  ultimately have "mset result = mset ?live" by (metis set_eq_iff_mset_eq_distinct)
  then show ?thesis using ids by blast
qed

lemma map_filter_ids:
  "distinct (map ses_id ss) \<Longrightarrow> set xs \<subseteq> set ss \<Longrightarrow> List.map_filter (by_id ss) (map ses_id xs) = xs"
  by (induction xs) (simp_all add: by_id_in)

lemma length_map_filter: "length (List.map_filter f xs) \<le> length xs"
  by (induction xs) (auto split: option.split)

lemma filter_notin_take: "distinct xs \<Longrightarrow> filter (\<lambda>x. x \<notin> set (take n xs)) xs = drop n xs"
proof -
  assume d: "distinct xs"
  then have "set (take n xs) \<inter> set (drop n xs) = {}"
    by (metis append_take_drop_id distinct_append)
  then have "filter (\<lambda>x. x \<notin> set (take n xs)) (take n xs @ drop n xs) = drop n xs"
    by (subst filter_append) (auto simp: filter_empty_conv filter_id_conv)
  then show ?thesis by simp
qed

text \<open>The order settles: once the running sessions have been ordered and the order stored, ordering the
  same sessions again gives the same list and leaves the same entry, also with more than 64 sessions.\<close>

theorem tab_order_settles:
  assumes "distinct (map ses_id (filter running ss))" "list_all valid_tab_id (map ses_id (filter running ss))"
    and "orderedRunningSessions parse stringify True entry ss = (ordered, entry')"
    and "json_reads_back parse stringify (order_json (map ses_id ordered))"
  shows "orderedRunningSessions parse stringify True entry' ss = (ordered, entry')"
proof (cases "filter running ss = []")
  case True
  then have "pick_stored [] is = ([], [])" for "is"
    by (induction "is") auto
  then show ?thesis using assms(3) True by (simp add: orderedRunningSessions_def)
next
  case False
  let ?live = "filter running ss" and ?order = "readTerminalTabOrder parse entry"
  let ?a = "List.map_filter (by_id ?live) ?order" and ?b = "filter (\<lambda>s. ses_id s \<notin> set ?order) ?live"
  let ?n = "MAX_PERSISTED_TERMINAL_TABS - length ?a"
  have o: "ordered = ?a @ ?b"
    using ordered_sessions_result [OF assms(1), of parse stringify True entry] assms(3) by simp
  have set_o: "set ordered = set ?live"
    unfolding o set_append set_map_filter_by_id [OF assms(1)] by auto
  have good: "good_order ?order" by (rule read_good)
  have len: "length ?a \<le> MAX_PERSISTED_TERMINAL_TABS"
    using good length_map_filter [of "by_id ?live" ?order] by (simp add: good_order_def)
  have dist: "distinct (map ses_id ordered)"
  proof -
    have "map ses_id ?b = filter (\<lambda>i. i \<notin> set ?order) (map ses_id ?live)"
      by (simp add: filter_map comp_def)
    then show ?thesis
      unfolding o map_append ids_map_filter using good assms(1) by (auto simp: good_order_def)
  qed
  have valid: "list_all valid_tab_id (map ses_id ordered)"
    using assms(2) set_o by (simp add: list_all_iff)
  have e: "entry' = writeTerminalTabOrder stringify True (map ses_id ordered) entry"
    using assms(3) False set_o by (auto simp: orderedRunningSessions_def Let_def split: prod.splits if_splits)
  have order': "readTerminalTabOrder parse entry' = map ses_id (take MAX_PERSISTED_TERMINAL_TABS ordered)"
    unfolding e using read_write [OF dist valid assms(4)] by (simp add: take_map)
  let ?take = "take MAX_PERSISTED_TERMINAL_TABS ordered"
  have first: "List.map_filter (by_id ?live) (map ses_id ?take) = ?take"
    using set_o by (intro map_filter_ids [OF assms(1)]) (auto dest: in_set_takeD)
  have "filter (\<lambda>s. ses_id s \<notin> set (map ses_id ?take)) ?live = filter (\<lambda>s. s \<notin> set ?take) ?live"
    using set_o assms(1) by (intro filter_cong) (auto simp: distinct_map inj_on_def dest: in_set_takeD)
  also have "\<dots> = filter (\<lambda>s. s \<notin> set (take ?n ?b)) ?b"
    using len by (auto simp: o take_append set_map_filter_by_id [OF assms(1)] intro!: filter_cong)
  also have "\<dots> = drop ?n ?b"
    using assms(1) by (simp only: filter_notin_take distinct_filter distinct_map)
  also have "\<dots> = drop MAX_PERSISTED_TERMINAL_TABS ordered"
    using len by (simp add: o drop_append)
  finally have "fst (orderedRunningSessions parse stringify True entry' ss) = ordered"
    using ordered_sessions_result [OF assms(1), of parse stringify True entry'] first order' by simp
  moreover have "snd (orderedRunningSessions parse stringify True entry' ss) = entry'"
    using calculation False set_o by (auto simp: orderedRunningSessions_def Let_def e writeTerminalTabOrder_def split: prod.splits)
  ultimately show ?thesis by (simp add: prod_eq_iff)
qed

section \<open>Moving\<close>

lemma put_before_split: "r \<notin> set xs \<Longrightarrow> put_before x r (xs @ r # ys) = xs @ x # r # ys"
  by (induction xs) auto

lemma removeAll_absent [simp]: "x \<notin> set xs \<Longrightarrow> removeAll x xs = xs"
  by (induction xs) auto

lemma index_of_split: "x \<notin> set xs \<Longrightarrow> index_of x (xs @ x # ys) = Some (length xs)"
  by (induction xs) auto

text \<open>An arrow key swaps neighbours: moving a tab left or right exchanges it with the tab beside it and
  leaves all others, and at the end of the rail nothing moves.\<close>

theorem keyboard_swaps_neighbours:
  assumes "distinct (xs @ a # b # ys)"
  shows "moveTerminalTabWithKeyboard b True (xs @ a # b # ys) = Some (xs @ b # a # ys) \<and>
    moveTerminalTabWithKeyboard a False (xs @ a # b # ys) = Some (xs @ b # a # ys) \<and>
    (xs = [] \<longrightarrow> moveTerminalTabWithKeyboard a True (xs @ a # b # ys) = None) \<and>
    (ys = [] \<longrightarrow> moveTerminalTabWithKeyboard b False (xs @ a # b # ys) = None)"
proof -
  have ne: "a \<noteq> b" "b \<noteq> a" using assms by auto
  have ia: "index_of a (xs @ a # b # ys) = Some (length xs)"
    using assms by (intro index_of_split) simp
  have ib: "index_of b (xs @ a # b # ys) = Some (Suc (length xs))"
    using assms index_of_split [of b "xs @ [a]" ys] by auto
  have "moveTerminalTabWithKeyboard b True (xs @ a # b # ys) = Some (xs @ b # a # ys)"
    using assms ne put_before_split [of a xs b ys]
    by (simp add: moveTerminalTabWithKeyboard_def ib nth_opt_def nth_append insert_before_def)
  moreover have "xs = [] \<longrightarrow> moveTerminalTabWithKeyboard a True (xs @ a # b # ys) = None"
    using ia by (simp add: moveTerminalTabWithKeyboard_def nth_opt_def)
  moreover have "ys = [] \<longrightarrow> moveTerminalTabWithKeyboard b False (xs @ a # b # ys) = None"
    using ib by (cases ys) (simp_all add: moveTerminalTabWithKeyboard_def nth_opt_def)
  moreover have "moveTerminalTabWithKeyboard a False (xs @ a # b # ys) = Some (xs @ b # a # ys)"
  proof (cases ys)
    case Nil
    then show ?thesis
      using assms ia by (simp add: moveTerminalTabWithKeyboard_def nth_opt_def nth_append insert_before_def)
  next
    case (Cons c zs)
    then show ?thesis
      using assms put_before_split [of c "xs @ [b]" a zs] ia
      by (auto simp: moveTerminalTabWithKeyboard_def nth_opt_def nth_append insert_before_def)
  qed
  ultimately show ?thesis by blast
qed

section \<open>Gestures\<close>

lemma set_put_before: "set (put_before x r ys) = insert x (set ys)"
  by (induction ys) auto

lemma mset_put_before: "mset (put_before x r ys) = add_mset x (mset ys)"
  by (induction ys) auto

lemma mset_insert_before: "distinct ys \<Longrightarrow> x \<in> set ys \<Longrightarrow> mset (insert_before x r ys) = mset ys"
proof -
  assume "distinct ys" "x \<in> set ys"
  then have "mset (removeAll x ys) = mset ys - {#x#}" "x \<in># mset ys"
    by (simp_all add: distinct_remove1_removeAll [symmetric])
  then show ?thesis by (auto simp: insert_before_def mset_put_before split: option.split)
qed

text \<open>What the gestures keep: the tabs are different, and those being pressed or moved are among them.\<close>

definition rail_inv :: "rail \<Rightarrow> bool" where
  "rail_inv r \<longleftrightarrow> distinct (tabs r) \<and> (\<forall>t. reorderTab r = Some t \<or> pressedTab r = Some t \<longrightarrow> t \<in> set (tabs r))"

definition hits_tab :: "jsstring list \<Rightarrow> gesture \<Rightarrow> bool" where
  "hits_tab ts g \<longleftrightarrow> (case g of Press p \<Rightarrow> (case hit_tab (hit p) of Some t \<Rightarrow> t \<in> set ts | None \<Rightarrow> True) | _ \<Rightarrow> True)"

lemma rail_step_tabs:
  assumes "rail_inv r" "hits_tab (tabs r) g"
  shows "mset (tabs (rail_step stringify decay writable r g)) = mset (tabs r) \<and> rail_inv (rail_step stringify decay writable r g)"
proof -
  have same: "rail_inv r'" if "mset (tabs r') = mset (tabs r)"
    "\<And>t. reorderTab r' = Some t \<or> pressedTab r' = Some t \<Longrightarrow> t \<in> set (tabs r)" for r'
    using that assms(1) mset_eq_setD [OF that(1)] mset_eq_imp_distinct_iff [OF that(1)] by (auto simp: rail_inv_def)
  have d: "distinct (tabs r)" using assms(1) by (simp add: rail_inv_def)
  show ?thesis
  proof (cases g)
    case (Press p)
    then show ?thesis
      using assms by (auto simp: onPointerDown_def hits_tab_def rail_inv_def split: option.splits)
  next
    case (Move m)
    show ?thesis
    proof (cases "reorderTab r")
      case None
      then show ?thesis
        using assms Move by (auto simp: onPointerMove_def scroll_move_def Let_def rail_inv_def)
    next
      case (Some t)
      then have m: "mset (tabs (onPointerMove m r)) = mset (tabs r)"
        using assms(1) by (auto simp: onPointerMove_def drag_move_def place_tab_def Let_def rail_inv_def
            mset_insert_before split: option.split)
      have "reorderTab (onPointerMove m r) = reorderTab r" "pressedTab (onPointerMove m r) = pressedTab r"
        using Some by (simp_all add: onPointerMove_def drag_move_def Let_def)
      then have "rail_inv (onPointerMove m r)"
        using assms(1) by (intro same [OF m]) (auto simp: rail_inv_def)
      then show ?thesis using m Move by simp
    qed
  next
    case (KeyMove t left)
    have "mset ts = mset (tabs r)" if "moveTerminalTabWithKeyboard t left (tabs r) = Some ts" for ts
    proof -
      have "t \<in> set xs" if "index_of t xs = Some i" for i xs
        using that by (induction xs arbitrary: i) (auto split: if_splits)
      then show ?thesis
        using that d by (auto simp: moveTerminalTabWithKeyboard_def mset_insert_before split: option.splits if_splits)
    qed
    then have m: "mset (tabs (keyboard_move stringify writable t left r)) = mset (tabs r)"
      by (auto simp: keyboard_move_def split: option.split)
    have "rail_inv (keyboard_move stringify writable t left r)"
      using assms(1) by (intro same [OF m]) (auto simp: keyboard_move_def rail_inv_def split: option.splits)
    then show ?thesis using m KeyMove by simp
  qed (use assms(1) in \<open>auto simp: rail_inv_def finishGesture_def startMomentum_def beginDrag_def allow_click_def
        momentum_frame_def Let_def split: option.split\<close>)
qed


text \<open>A dragged tab lands under the pointer: it goes before the first other tab whose middle is right
  of the pointer, so every tab before it has its middle at or left of the pointer, and the others keep
  their order.\<close>

theorem dragged_tab_lands:
  assumes "distinct ts" "t \<in> set ts"
  shows "\<exists>xs ys. place_tab mid x {t} t ts = xs @ t # ys \<and> xs @ ys = filter (\<lambda>s. s \<noteq> t) ts \<and>
    list_all (\<lambda>s. mid s \<le> x) xs \<and> (ys = [] \<or> x < mid (hd ys))"
proof (cases "find (\<lambda>s. x < mid s) (filter (\<lambda>s. s \<noteq> t) ts)")
  case None
  then have "list_all (\<lambda>s. mid s \<le> x) (filter (\<lambda>s. s \<noteq> t) ts)"
    by (auto simp: find_None_iff list_all_iff)
  then show ?thesis
    using None by (rule_tac x = "filter (\<lambda>s. s \<noteq> t) ts" in exI, rule_tac x = "[]" in exI)
       (simp add: place_tab_def insert_before_def removeAll_filter_not_eq neq_commute)
next
  case (Some z)
  let ?o = "filter (\<lambda>s. s \<noteq> t) ts"
  obtain i where i: "i < length ?o" "x < mid (?o ! i)" "z = ?o ! i" "\<forall>j<i. \<not> x < mid (?o ! j)"
    using Some unfolding find_Some_iff by blast
  let ?xs = "take i ?o" and ?ys = "drop (Suc i) ?o"
  have split: "?o = ?xs @ z # ?ys" using i(1,3) by (simp add: id_take_nth_drop [symmetric])
  have "distinct ?o" using assms(1) by simp
  then have "z \<notin> set ?xs" using split by (metis distinct_append distinct.simps(2) disjoint_iff list.set_intros(1))
  moreover have "z \<noteq> t" using i(1,3) nth_mem [OF i(1)] by auto
  moreover have "removeAll t ts = ?o" by (simp add: removeAll_filter_not_eq eq_commute)
  ultimately have "place_tab mid x {t} t ts = ?xs @ t # z # ?ys"
    using Some put_before_split [of z ?xs t ?ys] split by (simp add: place_tab_def insert_before_def)
  moreover have "list_all (\<lambda>s. mid s \<le> x) ?xs"
    using i(1,4) by (auto simp: list_all_iff in_set_conv_nth not_less)
  ultimately show ?thesis
    using split i(2,3) by (rule_tac x = ?xs in exI, rule_tac x = "z # ?ys" in exI) simp
qed

text \<open>A second finger abandons a drag: a press while a tab is being dragged forgets the drag, so the
  order shown is never stored by the end of the gesture, the tab keeps the class of a dragged one, and
  clicking it does nothing any more.\<close>

theorem second_press_abandons_drag:
  assumes "reorderTab r = Some t" "t \<in> dragging r" "t \<in> suppressed r" "\<not> (mouse p \<and> button p \<noteq> 0)"
  shows "let r' = finishGesture stringify writable now (onPointerDown p r) in
    tabs r' = tabs r \<and> stored r' = stored r \<and> t \<in> dragging r' \<and> tab_click active t r' = None"
proof -
  define q where "q = onPointerDown p r"
  have q: "reorderTab q = None" "\<not> scrolling q" "tabs q = tabs r" "stored q = stored r" "t \<in> dragging q" "t \<in> suppressed q"
    using assms(2-4) by (simp_all add: q_def onPointerDown_def del: de_Morgan_conj)
  have "finishGesture stringify writable now q =
      q\<lparr>pressTimer := False, pointerId := None, reorderTab := None, pressedTab := None, scrolling := False\<rparr>"
    using q(1,2) by (simp add: finishGesture_def Let_def split: option.split)
  then show ?thesis
    using q(3-6) by (simp add: tab_click_def flip: q_def)
qed

section \<open>Witnesses\<close>

definition demo_tab :: "string \<Rightarrow> bool \<Rightarrow> session" where
  "demo_tab i live =
     \<lparr>ses_id = js i, ses_name = js i, command = [], ses_cwd = [], startedAt = [], endedAt = None, running = live,
      exitCode = None, signal = None, ses_rows = Fin 24, ses_cols = Fin 80, viewer = None\<rparr>"

definition demo_tabs :: "session list" where
  "demo_tabs = [demo_tab ''a'' True, demo_tab ''b'' False, demo_tab ''c'' True, demo_tab ''d'' True]"

definition demo_parse :: "jsstring \<Rightarrow> json option" where
  "demo_parse t = Some (JArr (if t = [1] then [jstr ''d'', JNull, jstr ''x'', jstr ''a'', jstr ''d'']
      else [jstr ''d'', jstr ''a'', jstr ''c'']))"

lemmas demo_tab_simps = demo_tabs_def demo_tab_def demo_parse_def

lemma demo_tab_order: "readTerminalTabOrder demo_parse (Some [1]) = [js ''d'', js ''x'', js ''a'']"
  by (simp add: readTerminalTabOrder_def demo_parse_def valid_tab_id_def MAX_PERSISTED_TERMINAL_TABS_def)

lemma demo_distinct: "distinct (map ses_id (filter running demo_tabs))"
  by (simp add: demo_tab_simps)

theorem tabs_are_running_sessions_witness:
  "map ses_id (fst (orderedRunningSessions demo_parse (\<lambda>_. [2]) True (Some [1]) demo_tabs)) = [js ''d'', js ''a'', js ''c'']"
  using tabs_are_running_sessions [OF demo_distinct demo_tab_order [symmetric] refl, of "\<lambda>_. [2]" True]
  by (simp add: demo_tab_simps)

theorem tab_order_settles_witness:
  "\<exists>ordered. map ses_id ordered = [js ''d'', js ''a'', js ''c''] \<and>
     orderedRunningSessions demo_parse (\<lambda>_. [2]) True (Some [2]) demo_tabs = (ordered, Some [2])"
proof -
  let ?o = "[demo_tab ''d'' True, demo_tab ''a'' True, demo_tab ''c'' True]"
  have o: "orderedRunningSessions demo_parse (\<lambda>_. [2]) True (Some [1]) demo_tabs = (?o, Some [2])"
    by (simp add: orderedRunningSessions_def demo_tab_order writeTerminalTabOrder_def Let_def)
       (simp add: demo_tab_simps map_delete_def writeTerminalTabOrder_def)
  have v: "list_all valid_tab_id (map ses_id (filter running demo_tabs))"
    by (simp add: demo_tab_simps valid_tab_id_def)
  have "json_reads_back demo_parse (\<lambda>_. [2]) (order_json (map ses_id ?o))"
    by (simp add: json_reads_back_def order_json_def demo_tab_simps MAX_PERSISTED_TERMINAL_TABS_def)
  from tab_order_settles [OF demo_distinct v o this] show ?thesis
    by (intro exI [of _ ?o]) (simp add: demo_tab_def)
qed

theorem keyboard_swaps_neighbours_witness:
  "moveTerminalTabWithKeyboard (js ''b'') True [js ''a'', js ''b''] = Some [js ''b'', js ''a''] \<and>
   moveTerminalTabWithKeyboard (js ''a'') True [js ''a'', js ''b''] = None"
  using keyboard_swaps_neighbours [of "[]" "js ''a''" "js ''b''" "[]"] by simp

definition demo_rail :: rail where
  "demo_rail = \<lparr>tabs = [js ''a'', js ''b'', js ''c''], stored = None, pointerId = Some 1, pressTimer = False,
     reorderTab = Some (js ''a''), pressedTab = Some (js ''a''), scrolling = False, startX = 0, startY = 0, lastX = 0,
     lastTime = 0, velocity = 0, momentum = None, scrollLeft = 0, suppressed = {js ''a''}, dragging = {js ''a''}\<rparr>"

definition demo_move :: move where
  "demo_move = \<lparr>move_id = 1, move_x = 250, move_y = 0, move_time = 5, rail_left = 0, rail_right = 300,
     middle = (\<lambda>t. if t = js ''c'' then 260 else if t = js ''b'' then 150 else 50)\<rparr>"


theorem dragged_tab_lands_witness:
  "\<exists>xs ys. place_tab (middle demo_move) 250 {js ''a''} (js ''a'') [js ''a'', js ''b'', js ''c''] = xs @ js ''a'' # ys \<and>
     xs @ ys = [js ''b'', js ''c''] \<and> list_all (\<lambda>s. middle demo_move s \<le> 250) xs"
  using dragged_tab_lands [of "[js ''a'', js ''b'', js ''c'']" "js ''a''" "middle demo_move" 250] by auto

theorem second_press_abandons_drag_witness:
  "let p = \<lparr>mouse = False, button = 0, press_id = 2, press_x = 0, press_y = 0, press_time = 6, hit = NoTab\<rparr>;
       r' = finishGesture (\<lambda>_. []) True 9 (onPointerDown p demo_rail) in
   tabs r' = tabs demo_rail \<and> stored r' = None \<and> js ''a'' \<in> dragging r' \<and> tab_click (js ''b'') (js ''a'') r' = None"
proof -
  have r: "reorderTab demo_rail = Some (js ''a'')" "js ''a'' \<in> dragging demo_rail" "js ''a'' \<in> suppressed demo_rail" "stored demo_rail = None"
    by (simp_all add: demo_rail_def)
  show ?thesis
    using second_press_abandons_drag [OF r(1,2,3), of "\<lparr>mouse = False, button = 0, press_id = 2, press_x = 0, press_y = 0, press_time = 6, hit = NoTab\<rparr>"
        "\<lambda>_. []" True 9 "js ''b''"] r(4)
    by (simp add: Let_def)
qed

end
