(* ===== verification/TerminalText.thy ===== *)
theory TerminalText
  imports JsPrelude
begin

unbundle bit_operations_syntax

text \<open>
  What the portal types into a terminal on the user's behalf: pasted text
  (\<open>apps/web/src/terminal-clipboard.ts\<close>), the input mode (\<open>terminal-input-mode.ts\<close>), paths of
  attachments (\<open>terminal-attachments.ts\<close>) and wheel reports made from touch movement
  (\<open>terminal-touch.ts\<close>). \<open>sh_words\<close> reads a command line as a POSIX shell does (blanks separate
  words; single quotes and backslashes quote); it is the specification of the quoting.
\<close>

section \<open>Paste\<close>

text \<open>\<open>value.replace(/\r?\n/g, "\r")\<close>\<close>

fun normalize_newlines :: "jsstring \<Rightarrow> jsstring" where
  "normalize_newlines [] = []"
| "normalize_newlines (c # s) =
     (if c = 13 then (case s of [] \<Rightarrow> [13] | d # s' \<Rightarrow>
         if d = 10 then 13 # normalize_newlines s' else 13 # normalize_newlines s)
      else if c = 10 then 13 # normalize_newlines s
      else c # normalize_newlines s)"

definition paste_start :: jsstring where
  "paste_start = 0x1B # js ''[200~''"

definition paste_end :: jsstring where
  "paste_end = 0x1B # js ''[201~''"

definition terminalPasteInput :: "jsstring \<Rightarrow> bool \<Rightarrow> jsstring" where
  "terminalPasteInput v bracketedPasteMode =
     (let normalized = normalize_newlines v in
      if bracketedPasteMode then paste_start @ normalized @ paste_end else normalized)"

text \<open>The lines of a text whose line ends are LF or CRLF, as they were before the paste.\<close>

fun text_lines :: "jsstring \<Rightarrow> jsstring list" where
  "text_lines [] = [[]]"
| "text_lines (c # s) =
     (if c = 10 then [] # text_lines s
      else if c = 13 \<and> take 1 s = [10] then [] # text_lines (drop 1 s)
      else (case text_lines s of [] \<Rightarrow> [[c]] | w # ws \<Rightarrow> (c # w) # ws))"

lemma text_lines_not_Nil [simp]: "text_lines s \<noteq> []"
  by (induction s rule: text_lines.induct) (auto split: list.splits)

lemma normalize_newlines_no_lf: "10 \<notin> set (normalize_newlines s)"
  by (induction s rule: normalize_newlines.induct) (auto split: list.splits)

lemma join_text_lines:
  "join [13] (text_lines (10 # s)) = 13 # join [13] (text_lines s)"
  "join [13] (text_lines (13 # 10 # s)) = 13 # join [13] (text_lines s)"
  "c \<noteq> 10 \<Longrightarrow> \<not> (c = 13 \<and> take 1 s = [10]) \<Longrightarrow> join [13] (text_lines (c # s)) = c # join [13] (text_lines s)"
proof -
  have j: "join [13] ([] # ws) = 13 # join [13] ws" if "ws \<noteq> []" for ws
    using that by (cases ws) auto
  show "join [13] (text_lines (10 # s)) = 13 # join [13] (text_lines s)"
    "join [13] (text_lines (13 # 10 # s)) = 13 # join [13] (text_lines s)"
    by (simp_all add: j)
  show "join [13] (text_lines (c # s)) = c # join [13] (text_lines s)"
    if "c \<noteq> 10" "\<not> (c = 13 \<and> take 1 s = [10])"
    using that text_lines_not_Nil [of s] by (cases "text_lines s"; cases "tl (text_lines s)") auto
qed

lemma normalize_newlines_join: "normalize_newlines s = join [13] (text_lines s)"
proof (induction s rule: normalize_newlines.induct)
  case (2 c s)
  show ?case
  proof (cases "c = 13 \<and> take 1 s = [10]")
    case True
    then obtain s' where "c = 13" "s = 10 # s'" by (cases s) auto
    then show ?thesis using "2.IH"(1) by (simp only: join_text_lines) simp
  next
    case False
    then show ?thesis using 2
      by (cases "c = 10"; cases "c = 13"; cases s) (auto simp: join_text_lines simp del: text_lines.simps(2))
  qed
qed simp

text \<open>Pasting types the text's lines and no more: the input is the lines of the text joined by a
  carriage return, with no line feed left and none added at the end, and in bracketed mode it is that
  text between the two paste markers.\<close>

theorem paste_types_lines:
  "terminalPasteInput v False = join [13] (text_lines v) \<and> 10 \<notin> set (terminalPasteInput v False) \<and>
   terminalPasteInput v True = paste_start @ terminalPasteInput v False @ paste_end"
  by (simp add: terminalPasteInput_def normalize_newlines_join [symmetric] normalize_newlines_no_lf)

section \<open>Input mode\<close>

datatype input_mode = Compose | Direct

definition parseTerminalInputMode :: "jsstring option \<Rightarrow> input_mode" where
  "parseTerminalInputMode v = (if v = Some (js ''direct'') then Direct else Compose)"

fun nextTerminalInputMode :: "input_mode \<Rightarrow> input_mode" where
  "nextTerminalInputMode Direct = Compose"
| "nextTerminalInputMode Compose = Direct"

fun input_mode_text :: "input_mode \<Rightarrow> jsstring" where
  "input_mode_text Compose = js ''compose''"
| "input_mode_text Direct = js ''direct''"

lemma parse_input_mode_text [simp]: "parseTerminalInputMode (Some (input_mode_text m)) = m"
  by (cases m) (simp_all add: parseTerminalInputMode_def)

section \<open>Attachments\<close>

definition shellQuotePath :: "jsstring \<Rightarrow> jsstring" where
  "shellQuotePath path =
     js [CHR 0x27] @ concat (map (\<lambda>c. if c = 0x27 then [0x27, 0x5C, 0x27, 0x27] else [c]) path) @ js [CHR 0x27]"

definition directAttachmentInput :: "jsstring \<Rightarrow> jsstring" where
  "directAttachmentInput path = js '' '' @ shellQuotePath path"

record insertion =
  ins_value :: jsstring
  caret :: nat

definition ends_with_space :: "jsstring \<Rightarrow> bool" where
  "ends_with_space s \<longleftrightarrow> s \<noteq> [] \<and> is_space (last s)"

definition begins_with_space :: "jsstring \<Rightarrow> bool" where
  "begins_with_space s \<longleftrightarrow> s \<noteq> [] \<and> is_space (hd s)"

definition insertAttachmentPath :: "jsstring \<Rightarrow> jsstring \<Rightarrow> int \<Rightarrow> int \<Rightarrow> insertion" where
  "insertAttachmentPath v path selectionStart selectionEnd =
     (let start = nat (max 0 (min selectionStart (int (length v))));
          end' = nat (max (int start) (min selectionEnd (int (length v))));
          prefix = (if 0 < start \<and> \<not> ends_with_space (slice v 0 start) then js '' '' else []);
          suffix = (if end' < length v \<and> \<not> begins_with_space (slice v end' (length v)) then js '' '' else []);
          inserted = prefix @ shellQuotePath path @ suffix
      in \<lparr>ins_value = slice v 0 start @ inserted @ slice v end' (length v),
          caret = start + length inserted\<rparr>)"

text \<open>The shell's reading of a line: \<open>None\<close> for an unterminated quote, otherwise the words.\<close>

datatype quote_state = Blank | Unquoted | InQuotes

fun sh_read :: "quote_state \<Rightarrow> jsstring \<Rightarrow> jsstring \<Rightarrow> jsstring list option" where
  "sh_read Blank w [] = Some []"
| "sh_read Unquoted w [] = Some [w]"
| "sh_read InQuotes w [] = None"
| "sh_read InQuotes w (c # s) = (if c = 0x27 then sh_read Unquoted w s else sh_read InQuotes (w @ [c]) s)"
| "sh_read q w (c # s) =
     (if c = 0x27 then sh_read InQuotes w s
      else if c = 0x5C then (case s of [] \<Rightarrow> None | d # s' \<Rightarrow> sh_read Unquoted (w @ [d]) s')
      else if c = 0x20 \<or> c = 9 then
        (case q of Blank \<Rightarrow> sh_read Blank [] s | _ \<Rightarrow> map_option ((#) w) (sh_read Blank [] s))
      else sh_read Unquoted (w @ [c]) s)"

definition sh_words :: "jsstring \<Rightarrow> jsstring list option" where
  "sh_words s = sh_read Blank [] s"

lemma js_quote: "js [CHR 0x27] = [0x27]" "js '' '' = [0x20]"
  by (simp_all add: js_def)

lemma sh_read_quoted:
  "sh_read InQuotes w (concat (map (\<lambda>c. if c = 0x27 then [0x27, 0x5C, 0x27, 0x27] else [c]) path) @ 0x27 # s) =
   sh_read Unquoted (w @ path) s"
proof (induction path arbitrary: w)
  case (Cons c path)
  show ?case
  proof (cases "c = 0x27")
    case True
    then show ?thesis using Cons.IH [of "w @ [0x27]"] by simp
  next
    case False
    then show ?thesis using Cons.IH [of "w @ [c]"] by simp
  qed
qed simp

lemma sh_read_shellQuotePath:
  "sh_read q w (shellQuotePath path @ s) = sh_read Unquoted (w @ path) s" if "q \<noteq> InQuotes"
  using that sh_read_quoted by (cases q) (simp_all add: shellQuotePath_def js_quote)

text \<open>C40. A quoted path is one shell word: whatever characters a path contains (quotes, blanks,
  dollar signs, backslashes, line ends), the shell reads the quoted text back as exactly that path, on
  its own and after the blank that is typed in direct mode.\<close>

theorem quoted_path_is_one_word:
  "sh_words (shellQuotePath path) = Some [path] \<and> sh_words (directAttachmentInput path) = Some [path]"
  using sh_read_shellQuotePath [of Blank "[]" path "[]"] sh_read_shellQuotePath [of Unquoted "[]" path "[]"]
  by (simp add: sh_words_def directAttachmentInput_def js_quote)

text \<open>Inserting a path keeps the rest of the draft: for every selection, even one out of range, the
  new text is the text before the selection, the quoted path with a blank where it would otherwise touch
  a word, and the text after the selection; the caret is right behind what was inserted.\<close>

theorem insert_path_keeps_draft:
  fixes v path :: jsstring and a b :: int
  defines "r \<equiv> insertAttachmentPath v path a b"
  shows "\<exists>before replaced after p s.
    v = before @ replaced @ after \<and> ins_value r = before @ p @ shellQuotePath path @ s @ after \<and>
    take (caret r) (ins_value r) = before @ p @ shellQuotePath path @ s \<and>
    set p \<subseteq> {0x20} \<and> set s \<subseteq> {0x20} \<and>
    (before = [] \<or> is_space (last (before @ p))) \<and> (after = [] \<or> is_space (hd (s @ after))) \<and>
    (0 \<le> a \<and> a \<le> b \<and> b \<le> int (length v) \<longrightarrow> int (length before) = a \<and> int (length before + length replaced) = b)"
proof -
  define st where "st = nat (max 0 (min a (int (length v))))"
  define en where "en = nat (max (int st) (min b (int (length v))))"
  have l: "st \<le> length v" "st \<le> en" "en \<le> length v" unfolding en_def st_def by auto
  define p where "p = (if 0 < st \<and> \<not> ends_with_space (take st v) then js '' '' else [])"
  define s where "s = (if en < length v \<and> \<not> begins_with_space (drop en v) then js '' '' else [])"
  have r: "r = \<lparr>ins_value = take st v @ (p @ shellQuotePath path @ s) @ drop en v,
      caret = st + length (p @ shellQuotePath path @ s)\<rparr>"
    unfolding r_def insertAttachmentPath_def st_def [symmetric] Let_def en_def [symmetric] slice_def
    by (simp add: p_def s_def)
  have sp: "is_space 0x20" by (simp add: is_space_def)
  show ?thesis
  proof (rule exI [of _ "take st v"], rule exI [of _ "take (en - st) (drop st v)"],
      rule exI [of _ "drop en v"], rule exI [of _ p], rule exI [of _ s], intro conjI)
    show "v = take st v @ take (en - st) (drop st v) @ drop en v"
      using l by (metis append_take_drop_id drop_drop le_add_diff_inverse2)
    show "take (caret r) (ins_value r) = take st v @ p @ shellQuotePath path @ s"
      using l by (simp add: r)
    show "take st v = [] \<or> is_space (last (take st v @ p))"
      using sp by (auto simp: p_def ends_with_space_def js_quote)
    show "drop en v = [] \<or> is_space (hd (s @ drop en v))"
      using sp by (auto simp: s_def begins_with_space_def js_quote)
    show "0 \<le> a \<and> a \<le> b \<and> b \<le> int (length v) \<longrightarrow> int (length (take st v)) = a \<and>
        int (length (take st v) + length (take (en - st) (drop st v))) = b"
      by (auto simp: st_def en_def)
  qed (auto simp: r p_def s_def js_quote)
qed

theorem insert_path_keeps_draft_witness:
  "\<exists>before replaced after. js ''ab'' = before @ replaced @ after \<and> int (length before) = 1 \<and>
     int (length before + length replaced) = 2"
  using insert_path_keeps_draft [of "js ''ab''" "js ''x''" 1 2] by auto

section \<open>Touch wheel\<close>

record wheel_result =
  directions :: "int list"
  remainder :: jsnum

definition trunc :: "rat \<Rightarrow> int" where
  "trunc r = (if r < 0 then - \<lfloor>- r\<rfloor> else \<lfloor>r\<rfloor>)"

definition consumeTouchWheel :: "jsnum \<Rightarrow> jsnum \<Rightarrow> jsnum \<Rightarrow> jsnum \<Rightarrow> wheel_result" where
  "consumeTouchWheel previousY currentY rest threshold =
     (case (previousY, currentY, rest, threshold) of
        (Fin p, Fin c, Fin r, Fin t) \<Rightarrow>
          if t \<le> 0 then \<lparr>directions = [], remainder = Fin 0\<rparr>
          else
            let distance = max (- t * 12) (min (t * 12) (r + p - c)); steps = trunc (distance / t)
            in \<lparr>directions = replicate (nat \<bar>steps\<bar>) (sgn steps), remainder = Fin (distance - of_int steps * t)\<rparr>
      | _ \<Rightarrow> \<lparr>directions = [], remainder = Fin 0\<rparr>)"

definition binaryStringToBytes :: "jsstring \<Rightarrow> bytes" where
  "binaryStringToBytes v = map (\<lambda>c. ucast (c AND 0xff)) v"

lemma trunc_unit:
  assumes "\<bar>q\<bar> \<le> 12"
  shows "\<bar>trunc q\<bar> \<le> 12" "\<bar>q - of_int (trunc q)\<bar> < 1"
proof -
  have f: "0 \<le> \<lfloor>\<bar>q\<bar>\<rfloor>" "\<lfloor>\<bar>q\<bar>\<rfloor> \<le> 12" "of_int \<lfloor>\<bar>q\<bar>\<rfloor> \<le> \<bar>q\<bar>" "\<bar>q\<bar> < of_int \<lfloor>\<bar>q\<bar>\<rfloor> + 1"
    using assms floor_correct [of "\<bar>q\<bar>"] by (simp_all add: floor_le_iff)
  have "trunc q = - \<lfloor>\<bar>q\<bar>\<rfloor> \<or> trunc q = \<lfloor>\<bar>q\<bar>\<rfloor>" by (simp add: trunc_def)
  then have t: "\<bar>trunc q\<bar> = \<lfloor>\<bar>q\<bar>\<rfloor>" using f(1) by linarith
  show "\<bar>trunc q\<bar> \<le> 12" using f(2) t by simp
  have "\<bar>q - of_int (trunc q)\<bar> = \<bar>\<bar>q\<bar> - of_int \<lfloor>\<bar>q\<bar>\<rfloor>\<bar>"
    by (cases "q < 0") (auto simp: trunc_def abs_if)
  then show "\<bar>q - of_int (trunc q)\<bar> < 1" using f(3,4) by linarith
qed

lemma trunc_bounds:
  assumes "0 < t" "\<bar>d\<bar> \<le> t * 12"
  shows "\<bar>trunc (d / t)\<bar> \<le> 12" "\<bar>d - of_int (trunc (d / t)) * t\<bar> < t"
proof -
  define q where "q = d / t"
  have d: "d = q * t" using assms(1) by (simp add: q_def)
  have "\<bar>q\<bar> = \<bar>d\<bar> / t" using assms(1) by (simp add: q_def)
  moreover have "\<bar>d\<bar> / t \<le> 12" using assms by (subst pos_divide_le_eq) linarith+
  ultimately have q: "\<bar>q\<bar> \<le> 12" by simp
  note tr = trunc_unit [OF q]
  show "\<bar>trunc (d / t)\<bar> \<le> 12" using tr(1) by (simp add: q_def)
  have "\<bar>d - of_int (trunc q) * t\<bar> = \<bar>q - of_int (trunc q)\<bar> * t"
    using assms(1) by (simp add: d abs_mult flip: left_diff_distrib)
  also have "\<dots> < 1 * t" using tr(2) assms(1) by (intro mult_strict_right_mono) auto
  finally show "\<bar>d - of_int (trunc (d / t)) * t\<bar> < t" by (simp add: q_def)
qed

text \<open>One touch movement sends at most twelve wheel reports, all in the direction of the movement,
  and carries the rest over: with finite coordinates and a positive threshold the reports and the new
  remainder (always smaller than a step) add up to the movement since the last report, cut off at twelve
  steps, so slow movement is neither lost nor counted twice.\<close>

theorem touch_wheel_bounded:
  fixes p c r t :: rat
  assumes "0 < t"
  shows "\<exists>steps rem. consumeTouchWheel (Fin p) (Fin c) (Fin r) (Fin t) =
      \<lparr>directions = replicate (nat \<bar>steps\<bar>) (sgn steps), remainder = Fin rem\<rparr> \<and>
    length (directions (consumeTouchWheel (Fin p) (Fin c) (Fin r) (Fin t))) \<le> 12 \<and>
    \<bar>rem\<bar> < t \<and> of_int steps * t + rem = max (- t * 12) (min (t * 12) (r + p - c))"
proof -
  define d where "d = max (- t * 12) (min (t * 12) (r + p - c))"
  have "\<bar>d\<bar> \<le> t * 12" using assms by (auto simp: d_def)
  with trunc_bounds [OF assms] have b: "\<bar>trunc (d / t)\<bar> \<le> 12" "\<bar>d - of_int (trunc (d / t)) * t\<bar> < t"
    by auto
  have e: "consumeTouchWheel (Fin p) (Fin c) (Fin r) (Fin t) =
      \<lparr>directions = replicate (nat \<bar>trunc (d / t)\<bar>) (sgn (trunc (d / t))),
       remainder = Fin (d - of_int (trunc (d / t)) * t)\<rparr>"
    using assms by (simp add: consumeTouchWheel_def Let_def d_def)
  show ?thesis
    using b unfolding e d_def [symmetric]
    by (intro exI [of _ "trunc (d / t)"] exI [of _ "d - of_int (trunc (d / t)) * t"]) auto
qed

theorem touch_wheel_bounded_witness:
  "\<exists>steps rem. consumeTouchWheel (Fin 100) (Fin 40) (Fin 5) (Fin 24) =
      \<lparr>directions = replicate (nat \<bar>steps\<bar>) (sgn steps), remainder = Fin rem\<rparr> \<and>
    length (directions (consumeTouchWheel (Fin 100) (Fin 40) (Fin 5) (Fin 24))) \<le> 12 \<and>
    \<bar>rem\<bar> < 24 \<and> of_int steps * 24 + rem = max (- 24 * 12) (min (24 * 12) (5 + 100 - 40))"
  by (rule touch_wheel_bounded) simp

end
