(* ===== verification/TouchScroll.thy ===== *)
theory TouchScroll
  imports TerminalText
begin

text \<open>
  Touch on a terminal in \<open>main.ts\<close>: \<open>enableTouchScroll\<close>, which lets the browser scroll the terminal and
  translates its movement, \<open>installTerminalViewportSizing\<close>, which keeps the page in the visible part of the
  screen, and reading text out of the emulator's buffer.

  An event comes with what the code reads of its surroundings at that moment: the emulator's buffer, the
  sizes of the elements, the selection, the clock. \<open>scroll_top\<close> is the position of the scroll surface;
  assigning to it does not call the handler, the browser's scroll event (\<open>Scrolled\<close>) does, later.
\<close>

section \<open>Surroundings\<close>

record surroundings =
  alternate :: bool
  direct_mode :: bool
  selecting :: bool
  e_rows :: nat
  buf_length :: nat
  buf_viewportY :: nat
  cursor_line :: nat
  screen_height :: rat
  client_height :: rat
  clock :: rat

definition rowHeight :: "surroundings \<Rightarrow> jsnum" where
  "rowHeight w = (if e_rows w = 0 then (if screen_height w = 0 then NaN else PosInf) else Fin (screen_height w / of_nat (e_rows w)))"

text \<open>\<open>Number.isFinite(height) && height > 0\<close>.\<close>

definition row_height :: "surroundings \<Rightarrow> rat option" where
  "row_height w = (case rowHeight w of Fin h \<Rightarrow> if 0 < h then Some h else None | _ \<Rightarrow> None)"

definition TUI_SCROLL_RANGE :: rat where
  "TUI_SCROLL_RANGE = 100000"

section \<open>The scroller\<close>

record scroller =
  spacer_height :: rat
  scroll_top :: rat
  sync_requested :: bool
  disposed :: bool
  ignoring :: bool                              \<comment> \<open>\<open>ignoreProgrammaticScroll\<close>\<close>
  touch_ident :: "nat option"
  start_y :: rat
  started_at :: rat
  touch_moved :: bool
  touch_rest :: rat
  tui_anchor :: rat
  recenter_timer :: bool
  finger_down :: bool
  tui_class :: bool
  cursor_visible :: bool

datatype scroll_out = WheelReport int | ScrollToLine nat | FocusTerminal

type_synonym scroll_result = "scroller \<times> scroll_out list"

definition resetTouch :: "scroller \<Rightarrow> scroller" where
  "resetTouch s = s\<lparr>touch_ident := None, start_y := 0, started_at := 0, touch_moved := False, touch_rest := 0\<rparr>"

definition to_center :: "scroller \<Rightarrow> scroller" where
  "to_center s = s\<lparr>ignoring := True, tui_anchor := TUI_SCROLL_RANGE / 2, scroll_top := TUI_SCROLL_RANGE / 2\<rparr>"

definition syncTUIScroller :: "surroundings \<Rightarrow> bool \<Rightarrow> scroller \<Rightarrow> scroller" where
  "syncTUIScroller w recenter s =
     (let s1 = s\<lparr>spacer_height := TUI_SCROLL_RANGE + client_height w\<rparr> in
      if recenter then to_center (s1\<lparr>recenter_timer := False, touch_rest := 0\<rparr>) else s1)"

definition syncNativeScroller :: "surroundings \<Rightarrow> bool \<Rightarrow> scroller \<Rightarrow> scroller" where
  "syncNativeScroller w force s =
     (if disposed s \<or> \<not> force \<and> selecting w then s
      else
        case row_height w of
          None \<Rightarrow> s
        | Some h \<Rightarrow>
            (let s1 = s\<lparr>spacer_height := of_nat (buf_length w - e_rows w) * h\<rparr>; target = of_nat (buf_viewportY w) * h in
             if force \<or> h * (3 / 2) < \<bar>scroll_top s1 - target\<bar> then s1\<lparr>ignoring := True, scroll_top := target\<rparr> else s1))"

definition syncCursorTarget :: "surroundings \<Rightarrow> scroller \<Rightarrow> scroller" where
  "syncCursorTarget w s =
     s\<lparr>cursor_visible := (buf_viewportY w \<le> cursor_line w \<and> cursor_line w < buf_viewportY w + e_rows w)\<rparr>"

definition syncInputMode :: "surroundings \<Rightarrow> scroller \<Rightarrow> scroller" where
  "syncInputMode w s =
     (let s1 = resetTouch (s\<lparr>tui_class := alternate w\<rparr>) in
      if alternate w
      then to_center (s1\<lparr>recenter_timer := False, spacer_height := TUI_SCROLL_RANGE + client_height w\<rparr>)
      else syncNativeScroller w True s1)"

definition sync_frame :: "surroundings \<Rightarrow> scroller \<Rightarrow> scroller" where
  "sync_frame w s =
     (if \<not> sync_requested s then s
      else
        let s1 = syncCursorTarget w (s\<lparr>sync_requested := False\<rparr>) in
        if alternate w then syncTUIScroller w False s1 else syncNativeScroller w False s1)"

definition scheduleSync :: "scroller \<Rightarrow> scroller" where
  "scheduleSync s = s\<lparr>sync_requested := True\<rparr>"

definition wheel_step :: "rat \<Rightarrow> rat" where
  "wheel_step h = max 24 (min 72 (h * 3))"

definition num_rat :: "jsnum \<Rightarrow> rat" where
  "num_rat n = (case n of Fin r \<Rightarrow> r | _ \<Rightarrow> 0)"

text \<open>\<open>Math.round\<close>.\<close>

definition round_half_up :: "rat \<Rightarrow> int" where
  "round_half_up r = \<lfloor>r + 1 / 2\<rfloor>"

definition onNativeScroll :: "surroundings \<Rightarrow> rat \<Rightarrow> scroller \<Rightarrow> scroll_result" where
  "onNativeScroll w pos s0 =
     (let s = s0\<lparr>scroll_top := pos\<rparr> in
      if ignoring s \<or> selecting w then (s, [])
      else
        case row_height w of
          None \<Rightarrow> (s, [])
        | Some h \<Rightarrow>
            if alternate w then
              (let consumed = consumeTouchWheel (Fin pos) (Fin (tui_anchor s)) (Fin (touch_rest s)) (Fin (wheel_step h)) in
               (s\<lparr>tui_anchor := pos, touch_rest := num_rat (remainder consumed), recenter_timer := True\<rparr>,
                map WheelReport (directions consumed)))
            else
              (let line = nat (max 0 (min (int (buf_length w) - int (e_rows w)) (round_half_up (pos / h)))) in
               (s, if line \<noteq> buf_viewportY w then [ScrollToLine line] else [])))"

definition recenter_fires :: "surroundings \<Rightarrow> scroller \<Rightarrow> scroller" where
  "recenter_fires w s =
     (if \<not> recenter_timer s then s
      else
        let s1 = s\<lparr>recenter_timer := False\<rparr> in
        if \<not> alternate w \<or> finger_down s \<or> selecting w \<or> (10000 < scroll_top s \<and> scroll_top s < TUI_SCROLL_RANGE - 10000)
        then s1 else to_center (s1\<lparr>touch_rest := 0\<rparr>))"

record touch_point =
  tp_id :: nat
  tp_y :: rat

definition find_touch :: "touch_point list \<Rightarrow> nat \<Rightarrow> touch_point option" where
  "find_touch ts i = find (\<lambda>t. tp_id t = i) ts"

text \<open>The two listeners for \<open>touchstart\<close>, in their order.\<close>

definition onTouchStart_s :: "surroundings \<Rightarrow> scroller \<Rightarrow> scroller" where
  "onTouchStart_s w s =
     (let s1 = s\<lparr>finger_down := True, ignoring := False, recenter_timer := False\<rparr> in
      if alternate w then s1\<lparr>tui_anchor := scroll_top s, touch_rest := 0\<rparr> else s1)"

definition onTUITouchStart :: "surroundings \<Rightarrow> touch_point list \<Rightarrow> scroller \<Rightarrow> scroller" where
  "onTUITouchStart w touches s =
     (case touches of
        [t] \<Rightarrow>
          if \<not> alternate w \<and> \<not> direct_mode w then s
          else s\<lparr>touch_ident := Some (tp_id t), start_y := tp_y t, started_at := clock w, touch_moved := False, touch_rest := 0\<rparr>
      | _ \<Rightarrow> s)"

definition onTUITouchMove :: "touch_point list \<Rightarrow> scroller \<Rightarrow> scroller" where
  "onTUITouchMove touches s =
     (case touch_ident s of
        None \<Rightarrow> s
      | Some i \<Rightarrow>
          (case find_touch touches i of
             None \<Rightarrow> s
           | Some t \<Rightarrow> if 7 < \<bar>tp_y t - start_y s\<bar> then s\<lparr>touch_moved := True\<rparr> else s))"

definition onTUITouchEnd :: "surroundings \<Rightarrow> bool \<Rightarrow> touch_point list \<Rightarrow> scroller \<Rightarrow> scroll_result" where
  "onTUITouchEnd w cancelled touches s =
     (let s1 = s\<lparr>finger_down := (touches \<noteq> [])\<rparr> in
      case touch_ident s of
        None \<Rightarrow> (s1, [])
      | Some i \<Rightarrow>
          if find_touch touches i \<noteq> None then (s1, [])
          else (resetTouch s1,
            if \<not> cancelled \<and> direct_mode w \<and> \<not> selecting w \<and> \<not> touch_moved s \<and> clock w - started_at s < 500
            then [FocusTerminal] else []))"

text \<open>\<open>align\<close>, called when the emulator's rows change.\<close>

definition align_scroll :: "surroundings \<Rightarrow> scroller \<Rightarrow> scroller" where
  "align_scroll w s =
     (let s1 = s\<lparr>ignoring := True, sync_requested := False\<rparr> in
      if alternate w then syncTUIScroller w True s1 else syncNativeScroller w True s1)"

definition cleanup_scroll :: "scroller \<Rightarrow> scroller" where
  "cleanup_scroll s = s\<lparr>disposed := True, sync_requested := False, recenter_timer := False, tui_class := False, cursor_visible := False\<rparr>"

datatype scroll_event =
    Scrolled rat | FingerDown "touch_point list" | FingerMove "touch_point list" | FingerUp bool "touch_point list"
  | TrustedWheel | Rendered | SyncFrame | RecenterTimer | BufferChanged | Align

text \<open>After \<open>cleanup\<close> the listeners are gone.\<close>

fun scroll_step :: "scroller \<Rightarrow> surroundings \<times> scroll_event \<Rightarrow> scroll_result" where
  "scroll_step s (w, Scrolled pos) = onNativeScroll w pos s"
| "scroll_step s (w, FingerDown ts) = (onTUITouchStart w ts (onTouchStart_s w s), [])"
| "scroll_step s (w, FingerMove ts) = (onTUITouchMove ts s, [])"
| "scroll_step s (w, FingerUp cancelled ts) = onTUITouchEnd w cancelled ts s"
| "scroll_step s (w, TrustedWheel) = (s\<lparr>ignoring := False\<rparr>, [])"
| "scroll_step s (w, Rendered) = (scheduleSync s, [])"
| "scroll_step s (w, SyncFrame) = (sync_frame w s, [])"
| "scroll_step s (w, RecenterTimer) = (recenter_fires w s, [])"
| "scroll_step s (w, BufferChanged) = (syncInputMode w s, [])"
| "scroll_step s (w, Align) = (align_scroll w s, [])"

definition new_scroller :: "surroundings \<Rightarrow> scroller" where
  "new_scroller w =
     scheduleSync (syncInputMode w
       \<lparr>spacer_height = 0, scroll_top = 0, sync_requested = False, disposed = False, ignoring = False, touch_ident = None,
         start_y = 0, started_at = 0, touch_moved = False, touch_rest = 0, tui_anchor = 0, recenter_timer = False,
         finger_down = False, tui_class = False, cursor_visible = False\<rparr>)"

section \<open>The visible part of the screen\<close>

text \<open>What the browser says of it: hidden or not, the size, the offset; \<open>jsnum\<close> as it may be anything.\<close>

record visual =
  page_hidden :: bool
  v_height :: jsnum
  v_width :: jsnum
  v_top :: jsnum
  v_left :: jsnum

record page_layout =
  l_height :: jsnum
  l_top :: jsnum
  l_width :: jsnum
  l_left :: jsnum

record sizing =
  layout_set :: "page_layout option"
  frame_asked :: bool
  settle_timer :: bool

definition at_least :: "rat \<Rightarrow> jsnum \<Rightarrow> bool" where
  "at_least m n \<longleftrightarrow> num_is_finite n \<and> \<not> num_less n (Fin m)"

text \<open>\<open>Math.max(0, n)\<close>.\<close>

definition not_negative :: "jsnum \<Rightarrow> jsnum" where
  "not_negative n = (case n of Fin r \<Rightarrow> Fin (max 0 r) | NegInf \<Rightarrow> Fin 0 | PosInf \<Rightarrow> PosInf | NaN \<Rightarrow> NaN)"

text \<open>\<open>sync\<close>: the flag says whether the emulator is fitted.\<close>

definition sync_layout :: "visual \<Rightarrow> sizing \<Rightarrow> sizing \<times> bool" where
  "sync_layout v s =
     (let s1 = s\<lparr>frame_asked := False\<rparr> in
      if page_hidden v \<or> \<not> at_least 160 (v_height v) \<or> \<not> at_least 240 (v_width v) then (s1, False)
      else (s1\<lparr>layout_set := Some \<lparr>l_height = v_height v, l_top = not_negative (v_top v), l_width = v_width v,
                                    l_left = not_negative (v_left v)\<rparr>\<rparr>, True))"

datatype sizing_event = ViewportChanged | FocusMoved | VisibilityChanged | LayoutFrame | SettleTimer

definition schedule_layout :: "sizing \<Rightarrow> sizing" where
  "schedule_layout s = s\<lparr>frame_asked := True\<rparr>"

definition settle_layout :: "sizing \<Rightarrow> sizing" where
  "settle_layout s = (schedule_layout s)\<lparr>settle_timer := True\<rparr>"

fun sizing_step :: "sizing \<Rightarrow> visual \<times> sizing_event \<Rightarrow> sizing \<times> bool list" where
  "sizing_step s (v, ViewportChanged) = (schedule_layout s, [])"
| "sizing_step s (v, FocusMoved) = (settle_layout s, [])"
| "sizing_step s (v, VisibilityChanged) = (if page_hidden v then s else settle_layout s, [])"
| "sizing_step s (v, LayoutFrame) = (if frame_asked s then (let (s1, fitted) = sync_layout v s in (s1, [fitted])) else (s, []))"
| "sizing_step s (v, SettleTimer) = (if settle_timer s then schedule_layout (s\<lparr>settle_timer := False\<rparr>) else s, [])"

definition new_sizing :: "visual \<Rightarrow> sizing" where
  "new_sizing v = fst (sync_layout v \<lparr>layout_set = None, frame_asked = False, settle_timer = False\<rparr>)"

section \<open>Text of the buffer\<close>

text \<open>A line, if the buffer has it: its text without trailing blanks, and whether it continues the line before.\<close>

type_synonym buffer_line = "(jsstring \<times> bool) option"

fun append_line :: "jsstring \<Rightarrow> buffer_line \<Rightarrow> jsstring" where
  "append_line text None = text"
| "append_line text (Some (line, wrapped)) = text @ (if text \<noteq> [] \<and> \<not> wrapped then [10] else []) @ line"

definition terminalBufferText :: "buffer_line list \<Rightarrow> int \<Rightarrow> int \<Rightarrow> jsstring" where
  "terminalBufferText buffer lo hi =
     foldl append_line [] (drop (nat lo) (take (nat hi) buffer))"

definition terminalVisibleText :: "buffer_line list \<Rightarrow> nat \<Rightarrow> nat \<Rightarrow> jsstring" where
  "terminalVisibleText buffer viewport rows = terminalBufferText buffer (int viewport) (int (viewport + rows))"

text \<open>Copying: \<open>write\<close> is whether the clipboard took the text, \<open>exec\<close> what \<open>execCommand\<close> returned.\<close>

definition copyToDeviceClipboard :: "bool \<Rightarrow> bool option \<Rightarrow> jsstring \<Rightarrow> bool" where
  "copyToDeviceClipboard write exec text =
     (if text = [] then False else if write then True else (case exec of Some copied \<Rightarrow> copied | None \<Rightarrow> False))"

end
