(* ===== verification/TerminalConn.thy ===== *)
theory TerminalConn
  imports Sessions StreamReconciler ReplyGate Utf8 Links TerminalText
begin

text \<open>
  The terminal page of \<open>main.ts\<close>: connecting a terminal to its session, receiving the scrollback snapshot
  and the output after it, reporting the size, reconnecting, and leaving the page.

  The state \<open>view\<close> holds the fields of the global \<open>state\<close> that these functions use, the bridge's presence,
  and what the document shows. A session is an object that closures share, so it is referred to by an
  index into the store \<open>objects\<close>. A socket is known by the number of its connection: the test
  \<open>state.socket !== socket\<close> at the head of every callback compares numbers. A timer is a field that holds
  what its callback captured. Every callback, timer and user action is a \<open>vevent\<close>, \<open>view_step\<close> runs its
  whole handler, and what it does to the outside is a list of \<open>vout\<close>.

  The terminal emulator (xterm.js) is not part of the repository: \<open>screen\<close> is what the code reads of it
  and \<open>fitted\<close> the size its fit add-on would choose (\<open>None\<close> when it throws); both change by events of
  the environment. It calls back the writes in the order they were made. \<open>parse\<close> is \<open>JSON.parse\<close>.
\<close>

section \<open>State\<close>

datatype conn_kind = Connecting | Online | Offline | Warning

text \<open>What the document shows of the connection: the bar, the sync indicator, the composer.\<close>

record conn_ui =
  has_bar :: bool
  bar_kind :: conn_kind
  bar_label :: jsstring
  has_sync :: bool
  sync_hidden :: bool
  sync_label :: jsstring
  has_composer :: bool
  connected :: bool
  draft :: jsstring
  send_disabled :: bool
  keys_disabled :: bool
  composer_state :: jsstring

record connection =
  c_id :: nat
  c_ready :: ready_state
  c_session :: nat
  c_stream :: stream
  c_readyTimer :: bool
  c_ended :: bool
  c_preserve :: bool

record pending_write =
  p_conn :: nat
  p_term :: nat
  p_generation :: "nat option"
  p_atBottom :: bool
  p_distance :: int

record screen =
  viewportY :: int
  baseY :: int
  cols :: nat
  rows :: nat
  composer_focused :: bool
  bracketed :: bool

datatype portal_view = ViewSessions | ViewTerminal | ViewWorkflows | ViewWorkflow | ViewDesktop

record js_env =
  parse :: "jsstring \<Rightarrow> json option"
  show_num :: "jsnum \<Rightarrow> jsstring"

record view =
  encryptedPortal :: bool
  authenticated :: bool
  bridge_up :: bool
  resume_key :: bool
  objects :: "nat \<Rightarrow> session"
  sessions :: "nat list"
  closedSessions :: "jsstring set"
  selected :: "jsstring option"
  selectedWorkflow :: "jsstring option"
  view_name :: portal_view
  on_page :: bool                \<comment> \<open>the document shows a terminal page\<close>
  other_page :: bool             \<comment> \<open>it shows the dashboard, a workflow page or the desktop page\<close>
  polling :: bool
  conn :: "connection option"
  next_conn :: nat
  terminal :: "nat option"
  next_terminal :: nat
  terminalSessionID :: "jsstring option"
  snapshotApplied :: bool
  replyGate :: "reply_gate option"
  writes :: "pending_write list"
  fit_loaded :: bool
  fitted :: "(nat \<times> nat) option"
  screen :: screen
  touch :: bool
  layout :: bool
  resizeTimer :: "(nat \<times> nat \<times> nat) option"
  lastResize :: "(nat \<times> nat) option"
  reconnectTimer :: "(nat \<times> nat) option"   \<comment> \<open>its delay and the session it is for\<close>
  reconnectAttempts :: nat
  inputMode :: input_mode
  stored_mode :: "jsstring option"   \<comment> \<open>the mode in local storage; \<open>None\<close> when absent or unreadable\<close>
  storage_works :: bool
  desktop :: bool
  desktopLink :: bool
  windowLink :: bool
  ui :: conn_ui

datatype vout =
    OpenLink nat jsstring | CloseLink nat
  | SendData nat data | SendJson nat json
  | TermReset | TermWrite bytes | ScrollToBottom | ScrollToLine int | TouchSync | TermDispose
  | TouchCleanup | LayoutCleanup | DesktopDisconnect | DesktopLinkClose | WindowLinkClose
  | ResumePortal | LoadHistory | ShowLogin jsstring | ShowSessions | ShowTerminal jsstring | ShowPage portal_view
  | Remember portal_view "jsstring option" "jsstring option"

type_synonym v_result = "view \<times> vout list"

section \<open>The connection bar\<close>

definition sync_text :: "jsstring \<Rightarrow> jsstring" where
  "sync_text label =
     (if has_substring (js ''waking'') label then js ''Computer waking'' @ ellipsis
      else if has_substring (js ''loading'') label then js ''Loading terminal'' @ ellipsis
      else js ''Reconnecting'' @ ellipsis)"

definition setConnectionState :: "jsstring \<Rightarrow> conn_kind \<Rightarrow> conn_ui \<Rightarrow> conn_ui" where
  "setConnectionState label kind u =
     (if \<not> has_bar u then u
      else
        let u1 = u\<lparr>bar_kind := kind, bar_label := label\<rparr>;
            u2 = (if has_sync u1 then u1\<lparr>sync_hidden := (kind \<noteq> Connecting), sync_label := sync_text label\<rparr> else u1)
        in if \<not> has_composer u2 then u2
           else u2\<lparr>connected := (kind = Online),
                   send_disabled := (kind \<noteq> Online \<or> draft u2 = []),
                   keys_disabled := (kind \<noteq> Online),
                   composer_state :=
                     (if kind = Online then js ''Ready''
                      else if kind = Connecting then js ''Connecting'' @ ellipsis else js ''Input unavailable'')\<rparr>)"

abbreviation show_state :: "jsstring \<Rightarrow> conn_kind \<Rightarrow> view \<Rightarrow> view" where
  "show_state label kind s \<equiv> s\<lparr>ui := setConnectionState label kind (ui s)\<rparr>"

definition socket_open :: "view \<Rightarrow> bool" where
  "socket_open s \<longleftrightarrow> (case conn s of Some k \<Rightarrow> c_ready k = OPEN | None \<Rightarrow> False)"

definition setTerminalInputStatus :: "jsstring \<Rightarrow> view \<Rightarrow> view" where
  "setTerminalInputStatus msg s = (if has_composer (ui s) then s\<lparr>ui := (ui s)\<lparr>composer_state := msg\<rparr>\<rparr> else s)"

text \<open>The timer of 1800 ms restores the state unless another message has replaced its own.\<close>

definition input_status_timeout :: "jsstring \<Rightarrow> view \<Rightarrow> view" where
  "input_status_timeout msg s =
     (if has_composer (ui s) \<and> composer_state (ui s) = msg
      then s\<lparr>ui := (ui s)\<lparr>composer_state := (if socket_open s then js ''Ready'' else js ''Input unavailable'')\<rparr>\<rparr>
      else s)"

section \<open>Sending and sizing\<close>

text \<open>\<open>state.socket?.close()\<close>: a link inside the bridge is closed at once and does not call back
  (\<open>t_close\<close>); a native socket starts closing and calls back later.\<close>

definition socket_close :: "view \<Rightarrow> v_result" where
  "socket_close s =
     (case conn s of
        None \<Rightarrow> (s, [])
      | Some k \<Rightarrow>
          (s\<lparr>conn := Some (k\<lparr>c_ready :=
               (if encryptedPortal s then CLOSED else if c_ready k < CLOSING then CLOSING else c_ready k)\<rparr>)\<rparr>,
           [CloseLink (c_id k)]))"

definition sendTerminalInput :: "jsstring \<Rightarrow> view \<Rightarrow> vout list \<times> bool" where
  "sendTerminalInput v s =
     (case conn s of
        Some k \<Rightarrow> if c_ready k = OPEN then ([SendData (c_id k) (Buf (text_encode v))], True) else ([], False)
      | None \<Rightarrow> ([], False))"

definition fitTerminal :: "view \<Rightarrow> v_result" where
  "fitTerminal s =
     (if \<not> fit_loaded s \<or> terminal s = None then (s, [])
      else
        case fitted s of
          None \<Rightarrow> (s, [])
        | Some (c, r) \<Rightarrow>
            (let wasAtBottom = (composer_focused (screen s) \<or> baseY (screen s) \<le> viewportY (screen s));
                 s1 = s\<lparr>screen := (screen s)\<lparr>cols := c, rows := r\<rparr>\<rparr>;
                 outs = (if (c, r) \<noteq> (cols (screen s), rows (screen s))
                         then (if wasAtBottom then [ScrollToBottom] else []) @ (if touch s then [TouchSync] else [])
                         else [])
             in case conn s of
                  None \<Rightarrow> (s1, outs)
                | Some k \<Rightarrow>
                    if c_ready k = OPEN \<and> Some (c, r) \<noteq> lastResize s
                    then (s1\<lparr>resizeTimer := Some (c_id k, c, r)\<rparr>, outs)
                    else (s1, outs)))"

definition resize_message :: "nat \<Rightarrow> nat \<Rightarrow> json" where
  "resize_message c r = jmsg [(''type'', jstr ''resize''), (''cols'', jint (int c)), (''rows'', jint (int r))]"

definition resize_fires :: "view \<Rightarrow> v_result" where
  "resize_fires s =
     (case resizeTimer s of
        None \<Rightarrow> (s, [])
      | Some (n, c, r) \<Rightarrow>
          (let s1 = s\<lparr>resizeTimer := None\<rparr> in
           case conn s1 of
             None \<Rightarrow> (s1, [])
           | Some k \<Rightarrow>
               if c_id k \<noteq> n \<or> c_ready k \<noteq> OPEN then (s1, [])
               else if lastResize s1 = Some (c, r) then (s1, [])
               else (s1\<lparr>lastResize := Some (c, r)\<rparr>, [SendJson n (resize_message c r)])))"

section \<open>Connecting\<close>

definition new_connection :: "nat \<Rightarrow> nat \<Rightarrow> bool \<Rightarrow> bool \<Rightarrow> connection" where
  "new_connection n ref live preserve =
     \<lparr>c_id = n, c_ready = CONNECTING, c_session = ref, c_stream = new_stream, c_readyTimer = False,
      c_ended = (\<not> live), c_preserve = preserve\<rparr>"

definition connecting_label :: "bool \<Rightarrow> jsstring" where
  "connecting_label preserve =
     (if preserve then js ''Reconnecting'' @ mid_dot @ js ''terminal kept visible'' @ ellipsis
      else js ''Connecting'' @ ellipsis)"

definition paused_label :: jsstring where
  "paused_label = js ''Connection paused'' @ mid_dot @ js ''reconnecting'' @ ellipsis"

text \<open>The end of \<open>connectTerminal\<close>: the link is opened through the bridge, or natively on a direct portal.\<close>

definition open_connection :: "nat \<Rightarrow> bool \<Rightarrow> view \<Rightarrow> v_result" where
  "open_connection ref preserve s =
     (if encryptedPortal s \<and> \<not> bridge_up s then
        (show_state paused_label Connecting s, if resume_key s then [ResumePortal] else [])
      else
        (s\<lparr>conn := Some (new_connection (next_conn s) ref (running (objects s ref)) preserve),
           next_conn := next_conn s + 1\<rparr>,
         [OpenLink (next_conn s) (ses_id (objects s ref))]))"

definition connectTerminal :: "nat \<Rightarrow> bool \<Rightarrow> view \<Rightarrow> v_result" where
  "connectTerminal ref automatic s =
     and_then
       (socket_close (s\<lparr>reconnectTimer := None, reconnectAttempts := (if automatic then reconnectAttempts s else 0)\<rparr>))
       (\<lambda>s1.
         let s2 = s1\<lparr>resizeTimer := None, lastResize := None\<rparr>;
             preserve = (terminalSessionID s2 = Some (ses_id (objects s2 ref)) \<and> snapshotApplied s2);
             s3 = show_state (connecting_label preserve) Connecting s2
         in open_connection ref preserve s3)"

definition may_reconnect :: "nat \<Rightarrow> view \<Rightarrow> bool" where
  "may_reconnect ref s \<longleftrightarrow>
     running (objects s ref) \<and> selected s = Some (ses_id (objects s ref)) \<and> on_page s"

definition reconnect_delay :: "nat \<Rightarrow> nat" where
  "reconnect_delay attempts = min (500 * 2 ^ min attempts 3) 4000"

definition scheduleTerminalReconnect :: "nat \<Rightarrow> view \<Rightarrow> view" where
  "scheduleTerminalReconnect ref s =
     (if \<not> may_reconnect ref s then s
      else if reconnectTimer s \<noteq> None then s
      else
        show_state (js ''Disconnected'' @ mid_dot @ js ''reconnecting'' @ ellipsis) Connecting
          (s\<lparr>reconnectAttempts := reconnectAttempts s + 1,
             reconnectTimer := Some (reconnect_delay (reconnectAttempts s), ref)\<rparr>))"

definition reconnect_fires :: "view \<Rightarrow> v_result" where
  "reconnect_fires s =
     (case reconnectTimer s of
        None \<Rightarrow> (s, [])
      | Some (_, ref) \<Rightarrow>
          (let s1 = s\<lparr>reconnectTimer := None\<rparr> in
           if \<not> may_reconnect ref s1 then (s1, [])
           else if socket_open s1 then (s1, [])
           else if encryptedPortal s1 \<and> (\<not> authenticated s1 \<or> \<not> bridge_up s1) then
             (scheduleTerminalReconnect ref s1, [ResumePortal])
           else connectTerminal ref True s1))"

section \<open>Callbacks of a connection\<close>

text \<open>\<open>if (state.socket !== socket) return\<close>.\<close>

definition if_current :: "nat \<Rightarrow> (connection \<Rightarrow> view \<Rightarrow> v_result) \<Rightarrow> view \<Rightarrow> v_result" where
  "if_current n f s = (case conn s of Some k \<Rightarrow> if c_id k = n then f k s else (s, []) | None \<Rightarrow> (s, []))"

definition set_conn :: "(connection \<Rightarrow> connection) \<Rightarrow> view \<Rightarrow> view" where
  "set_conn f s = s\<lparr>conn := map_option f (conn s)\<rparr>"

definition clearReadyTimer :: "view \<Rightarrow> view" where
  "clearReadyTimer = set_conn (\<lambda>k. k\<lparr>c_readyTimer := False\<rparr>)"

definition e2e_prefix :: "bool \<Rightarrow> jsstring" where
  "e2e_prefix enc = (if enc then js ''E2E'' @ mid_dot else [])"

definition markReady :: "nat \<Rightarrow> view \<Rightarrow> v_result" where
  "markReady n = if_current n (\<lambda>k s.
     let s1 = (clearReadyTimer s)\<lparr>snapshotApplied := True\<rparr>
     in fitTerminal
          (if c_ended k then s1
           else show_state (e2e_prefix (encryptedPortal s1) @ js ''Live'' @ mid_dot @ js ''input enabled'') Online s1))"

definition opened :: "nat \<Rightarrow> view \<Rightarrow> v_result" where
  "opened n = if_current n (\<lambda>k s.
     and_then
       (fitTerminal
         (show_state (if c_preserve k then js ''Connected'' @ mid_dot @ js ''syncing terminal'' @ ellipsis
                      else js ''Connected'' @ mid_dot @ js ''loading terminal'' @ ellipsis) Connecting
            (s\<lparr>reconnectAttempts := 0\<rparr>)))
       (\<lambda>s1. (set_conn (\<lambda>k. k\<lparr>c_readyTimer := True\<rparr>) s1, [])))"

definition ready_fires :: "nat \<Rightarrow> view \<Rightarrow> v_result" where
  "ready_fires n = if_current n (\<lambda>k s.
     if c_readyTimer k \<and> waitingForSnapshot (c_stream k) \<and> \<not> framedSnapshotStarted (c_stream k)
     then markReady n s else (s, []))"

text \<open>The callback of \<open>terminal.write\<close> of a snapshot.\<close>

definition finish_replay :: "nat option \<Rightarrow> view \<Rightarrow> view \<times> bytes option" where
  "finish_replay g s =
     (case (g, replyGate s) of
        (Some gen, Some gate) \<Rightarrow> (let (gate', reply) = finishSnapshot gate gen in (s\<lparr>replyGate := Some gate'\<rparr>, reply))
      | _ \<Rightarrow> (s, None))"

definition applied :: "pending_write \<Rightarrow> view \<Rightarrow> v_result" where
  "applied p = if_current (p_conn p) (\<lambda>k s.
     if terminal s \<noteq> Some (p_term p) then (s, [])
     else
       let (s1, reply) = finish_replay (p_generation p) s in
       and_then
         (s1, (if p_atBottom p then [ScrollToBottom]
               else [ScrollToLine (max 0 (baseY (screen s) - p_distance p))]) @
              (if touch s then [TouchSync] else []) @
              (case reply of Some d \<Rightarrow> if c_ready k = OPEN then [SendData (c_id k) (Buf d)] else [] | None \<Rightarrow> []))
         (markReady (p_conn p)))"

definition applySnapshot :: "nat \<Rightarrow> bytes \<Rightarrow> view \<Rightarrow> v_result" where
  "applySnapshot n snapshot = if_current n (\<lambda>k s.
     case terminal s of
       None \<Rightarrow> (s, [])
     | Some t \<Rightarrow>
         (let (s1, gen) = (case replyGate s of
                             None \<Rightarrow> (s, None)
                           | Some g \<Rightarrow> (let (g', i) = beginSnapshot g in (s\<lparr>replyGate := Some g'\<rparr>, Some i)));
              p = \<lparr>p_conn = n, p_term = t, p_generation = gen,
                   p_atBottom = (baseY (screen s) \<le> viewportY (screen s)),
                   p_distance = max 0 (baseY (screen s) - viewportY (screen s))\<rparr>
          in and_then (s1, [TermReset])
               (\<lambda>s2. if snapshot = [] then applied p s2
                     else (s2\<lparr>writes := writes s2 @ [p]\<rparr>, [TermWrite snapshot]))))"

text \<open>\<open>socket.close(); scheduleTerminalReconnect(session)\<close> in the two \<open>catch\<close> blocks.\<close>

definition protocol_error :: "nat \<Rightarrow> view \<Rightarrow> v_result" where
  "protocol_error ref s = and_then (socket_close s) (\<lambda>s1. (scheduleTerminalReconnect ref s1, []))"

definition perform :: "nat \<Rightarrow> nat \<Rightarrow> stream \<times> (stream_error + action option) \<Rightarrow> view \<Rightarrow> v_result" where
  "perform n ref result s =
     (let s1 = set_conn (\<lambda>k. k\<lparr>c_stream := fst result\<rparr>) s in
      case snd result of
        Inl _ \<Rightarrow> protocol_error ref s1
      | Inr (Some (Snapshot d)) \<Rightarrow> applySnapshot n d s1
      | Inr _ \<Rightarrow> (s1, []))"

definition session_ended :: "js_env \<Rightarrow> nat \<Rightarrow> json \<Rightarrow> view \<Rightarrow> v_result" where
  "session_ended w ref v s =
     (let o' = (objects s ref)\<lparr>running := False, exitCode := as_number (prop_of v ''exitCode''),
                 signal := (case as_string (prop_of v ''signal'') of Some sg \<Rightarrow> if sg \<noteq> [] then Some sg else None | None \<Rightarrow> None)\<rparr>
      in (show_state (describeSessionExit (show_num w) o') Offline
            ((set_conn (\<lambda>k. k\<lparr>c_ended := True\<rparr>) s)\<lparr>objects := (objects s)(ref := o')\<rparr>),
          [LoadHistory]))"

definition received_text :: "js_env \<Rightarrow> nat \<Rightarrow> jsstring \<Rightarrow> view \<Rightarrow> v_result" where
  "received_text w n t = if_current n (\<lambda>k s.
     case parse w t of
       None \<Rightarrow> protocol_error (c_session k) s
     | Some v \<Rightarrow>
         (case terminalStreamControl v of
            Some c \<Rightarrow>
              perform n (c_session k) (receiveControl (c_stream k) c)
                (case c of SnapshotStart _ \<Rightarrow> clearReadyTimer s | SnapshotEnd \<Rightarrow> s)
          | None \<Rightarrow>
              if isRecord v \<and> prop_of v ''type'' = Some (jstr ''status'') \<and> prop_of v ''running'' = Some (JBool False)
              then session_ended w (c_session k) v s
              else (s, [])))"

definition received_binary :: "nat \<Rightarrow> bytes \<Rightarrow> view \<Rightarrow> v_result" where
  "received_binary n d = if_current n (\<lambda>k s.
     let result = receiveBinary (c_stream k) d in
     case snd result of
       Inr (Some (Live live)) \<Rightarrow>
         (set_conn (\<lambda>k. k\<lparr>c_stream := fst result\<rparr>) s, case terminal s of Some _ \<Rightarrow> [TermWrite live] | None \<Rightarrow> [])
     | _ \<Rightarrow> perform n (c_session k) result s)"

text \<open>The event \<open>LinkClosed\<close> is the close of the link; its ready state is \<open>CLOSED\<close> when the callback runs.\<close>

definition no_ui :: conn_ui where
  "no_ui = \<lparr>has_bar = False, bar_kind = Connecting, bar_label = [], has_sync = False, sync_hidden = True,
     sync_label = [], has_composer = False, connected = False, draft = [], send_disabled = True,
     keys_disabled = True, composer_state = []\<rparr>"

text \<open>The markup that \<open>renderTerminal\<close> and \<open>renderTerminalComposer\<close> build.\<close>

definition terminal_ui :: conn_ui where
  "terminal_ui = no_ui\<lparr>has_bar := True, bar_label := js ''Connecting'' @ ellipsis, has_sync := True,
     sync_label := js ''Reconnecting'' @ ellipsis, has_composer := True, composer_state := js ''Connecting'' @ ellipsis\<rparr>"

text \<open>The state with which the program starts; the view comes from the last visit.\<close>

definition initial_view :: "portal_view \<Rightarrow> jsstring option \<Rightarrow> jsstring option \<Rightarrow> view" where
  "initial_view v sel flow =
     \<lparr>encryptedPortal = True, authenticated = False, bridge_up = False, resume_key = False, objects = (\<lambda>_. undefined),
      sessions = [], closedSessions = {}, selected = sel, selectedWorkflow = flow, view_name = v, on_page = False, other_page = False,
      polling = False, conn = None, next_conn = 0, terminal = None, next_terminal = 0, terminalSessionID = None,
      snapshotApplied = False, replyGate = None, writes = [], fit_loaded = False, fitted = None,
      screen = \<lparr>viewportY = 0, baseY = 0, cols = 80, rows = 24, composer_focused = False, bracketed = False\<rparr>,
      touch = False, layout = False, resizeTimer = None, lastResize = None, reconnectTimer = None,
      reconnectAttempts = 0, inputMode = Compose, stored_mode = None, storage_works = True, desktop = False,
      desktopLink = False, windowLink = False, ui = no_ui\<rparr>"

section \<open>Leaving and entering pages\<close>

definition closeConnection :: "view \<Rightarrow> v_result" where
  "closeConnection s =
     (s\<lparr>desktop := False, desktopLink := False, windowLink := False, conn := None, resizeTimer := None,
        lastResize := None, reconnectTimer := None, reconnectAttempts := 0, touch := False, layout := False,
        terminal := None, terminalSessionID := None, snapshotApplied := False, replyGate := None,
        fit_loaded := False\<rparr>,
      (if desktop s then [DesktopDisconnect] else []) @
      (if desktopLink s then [DesktopLinkClose] else []) @
      (if windowLink s then [WindowLinkClose] else []) @
      snd (socket_close s) @
      (if touch s then [TouchCleanup] else []) @
      (if layout s then [LayoutCleanup] else []) @
      (if terminal s \<noteq> None then [TermDispose] else []))"

definition stopPolling :: "view \<Rightarrow> view" where
  "stopPolling s = s\<lparr>polling := False\<rparr>"

definition startPolling :: "view \<Rightarrow> view" where
  "startPolling s = (stopPolling s)\<lparr>polling := True\<rparr>"

definition renderLogin :: "jsstring \<Rightarrow> view \<Rightarrow> v_result" where
  "renderLogin msg s =
     and_then (closeConnection (stopPolling s)) (\<lambda>s1. (s1\<lparr>on_page := False, other_page := False, ui := no_ui\<rparr>, [ShowLogin msg]))"

text \<open>The default arguments of \<open>rememberPortalView\<close>: an argument that is \<open>undefined\<close> stands for the
  current value.\<close>

definition rememberPortalView ::
  "portal_view \<Rightarrow> jsstring option \<Rightarrow> jsstring option \<Rightarrow> view \<Rightarrow> v_result" where
  "rememberPortalView v sel flow s =
     (s\<lparr>view_name := v\<rparr>,
      [Remember v (if sel = None then selected s else sel) (if flow = None then selectedWorkflow s else flow)])"

definition listed_sessions :: "view \<Rightarrow> nat list" where
  "listed_sessions s =
     filter (\<lambda>r. running (objects s r) \<and> ses_id (objects s r) \<notin> closedSessions s) (sessions s)"

definition renderSessions :: "view \<Rightarrow> v_result" where
  "renderSessions s =
     and_then (closeConnection s) (\<lambda>s1.
       and_then
         (rememberPortalView ViewSessions None None
            (s1\<lparr>sessions := listed_sessions s1, selected := None, selectedWorkflow := None\<rparr>))
         (\<lambda>s2. (startPolling (s2\<lparr>on_page := False, other_page := True, ui := no_ui\<rparr>), [ShowSessions])))"

text \<open>The pages without a terminal, as far as the state goes: their content is loaded afterwards.\<close>

definition enter_page :: "portal_view \<Rightarrow> jsstring option \<Rightarrow> view \<Rightarrow> v_result" where
  "enter_page v flow s =
     and_then (rememberPortalView v None flow s)
       (\<lambda>s1. (s1\<lparr>on_page := False, other_page := True, ui := no_ui\<rparr>, [ShowPage v]))"

definition renderWorkflows :: "view \<Rightarrow> v_result" where
  "renderWorkflows s =
     and_then (closeConnection (stopPolling s))
       (\<lambda>s1. enter_page ViewWorkflows None (s1\<lparr>selected := None, selectedWorkflow := None\<rparr>))"

definition renderWorkflowDetail :: "jsstring \<Rightarrow> view \<Rightarrow> v_result" where
  "renderWorkflowDetail i s =
     and_then (closeConnection (stopPolling s))
       (\<lambda>s1. enter_page ViewWorkflow (Some i) (s1\<lparr>selectedWorkflow := Some i\<rparr>))"

definition renderDesktop :: "view \<Rightarrow> v_result" where
  "renderDesktop s =
     and_then (closeConnection (stopPolling s))
       (\<lambda>s1. if \<not> encryptedPortal s1 \<or> \<not> bridge_up s1
             then renderLogin (js ''Remote desktop requires the encrypted cloud portal'') s1
             else enter_page ViewDesktop None s1)"

definition find_session :: "jsstring \<Rightarrow> view \<Rightarrow> nat option" where
  "find_session i s = find (\<lambda>r. ses_id (objects s r) = i) (sessions s)"

definition readTerminalInputMode :: "view \<Rightarrow> input_mode" where
  "readTerminalInputMode s = parseTerminalInputMode (stored_mode s)"

definition saveTerminalInputMode :: "input_mode \<Rightarrow> view \<Rightarrow> view" where
  "saveTerminalInputMode m s = (if storage_works s then s\<lparr>stored_mode := Some (input_mode_text m)\<rparr> else s)"

text \<open>What \<open>renderTerminal\<close> sets up once the page is built: the emulator, the gate, the gestures and the
  layout, then the first connection.\<close>

definition install_terminal :: "nat \<Rightarrow> view \<Rightarrow> v_result" where
  "install_terminal ref s =
     and_then
       (fitTerminal
         (s\<lparr>on_page := True, other_page := False, inputMode := readTerminalInputMode s, ui := terminal_ui, terminal := Some (next_terminal s), next_terminal := next_terminal s + 1,
            terminalSessionID := Some (ses_id (objects s ref)), snapshotApplied := False,
            replyGate := Some new_gate, fit_loaded := True, touch := True, layout := True\<rparr>))
       (connectTerminal ref False)"

definition renderTerminal :: "jsstring \<Rightarrow> jsstring option \<Rightarrow> view \<Rightarrow> v_result" where
  "renderTerminal i workflowID s =
     and_then (closeConnection (stopPolling s)) (\<lambda>s1.
       case find_session i s1 of
         None \<Rightarrow> renderSessions s1
       | Some ref \<Rightarrow>
           (let s2 = s1\<lparr>selected := Some i,
                selectedWorkflow :=
                  (if workflowID \<noteq> None then workflowID
                   else if view_name s1 \<noteq> ViewTerminal then None else selectedWorkflow s1)\<rparr>
            in and_then (rememberPortalView ViewTerminal (Some i) (selectedWorkflow s2) s2)
                 (\<lambda>s3. and_then (s3, [ShowTerminal i]) (install_terminal ref))))"

definition closed :: "nat \<Rightarrow> int \<Rightarrow> view \<Rightarrow> v_result" where
  "closed n code = if_current n (\<lambda>k s.
     let s1 = clearReadyTimer s in
     if code = 1008 then renderLogin (js ''Your portal session expired'') (s1\<lparr>authenticated := False\<rparr>)
     else if running (objects s1 (c_session k)) then (scheduleTerminalReconnect (c_session k) s1, [])
     else (s1, []))"

definition conn_failed :: "nat \<Rightarrow> view \<Rightarrow> v_result" where
  "conn_failed n = if_current n (\<lambda>k s. (scheduleTerminalReconnect (c_session k) (clearReadyTimer s), []))"

section \<open>Input\<close>

text \<open>\<open>terminal.onData\<close> and \<open>onBinary\<close>: what the emulator sends, typed keys and its own replies alike,
  passes the reply gate.\<close>

definition terminal_data :: "bytes \<Rightarrow> view \<Rightarrow> v_result" where
  "terminal_data d s =
     (case replyGate s of
        None \<Rightarrow> (s, [])
      | Some g \<Rightarrow>
          (let (g', reply) = gate_receive g d; s1 = s\<lparr>replyGate := Some g'\<rparr> in
           case (reply, conn s1) of
             (Some r, Some k) \<Rightarrow> (s1, if c_ready k = OPEN then [SendData (c_id k) (Buf r)] else [])
           | _ \<Rightarrow> (s1, [])))"

text \<open>The page's capturing handlers of the direct mode: the Enter key and a paste into the terminal.\<close>

definition enter_key :: "view \<Rightarrow> vout list" where
  "enter_key s = (if on_page s \<and> inputMode s = Direct then fst (sendTerminalInput [13] s) else [])"

definition paste_text :: "jsstring \<Rightarrow> view \<Rightarrow> v_result" where
  "paste_text t s =
     (if \<not> on_page s \<or> inputMode s \<noteq> Direct \<or> t = [] then (s, [])
      else
        let (outs, sent) = sendTerminalInput (terminalPasteInput t (bracketed (screen s))) s
        in if \<not> sent then (s, [])
           else (setTerminalInputStatus (js ''Pasted'' @ mid_dot @ js ''press Enter to send'') s, outs))"

text \<open>The mode button; the fit it requests for the next frame is a later event \<open>Fit\<close>.\<close>

definition applyInputMode :: "input_mode \<Rightarrow> bool \<Rightarrow> view \<Rightarrow> view" where
  "applyInputMode m persist s =
     (let s1 = s\<lparr>inputMode := m\<rparr> in if persist then saveTerminalInputMode m s1 else s1)"

definition mode_button :: "view \<Rightarrow> view" where
  "mode_button s = (if on_page s then applyInputMode (nextTerminalInputMode (inputMode s)) True s else s)"

definition draft_typed :: "jsstring \<Rightarrow> view \<Rightarrow> view" where
  "draft_typed t s =
     (if has_composer (ui s)
      then s\<lparr>ui := (ui s)\<lparr>draft := t, send_disabled := (\<not> connected (ui s) \<or> t = [])\<rparr>\<rparr> else s)"

definition composer_submit :: "view \<Rightarrow> v_result" where
  "composer_submit s =
     (if \<not> has_composer (ui s) \<or> draft (ui s) = [] \<or> \<not> connected (ui s) then (s, [])
      else
        let pasted = terminalPasteInput (draft (ui s)) (terminal s \<noteq> None \<and> bracketed (screen s));
            (outs, sent) = sendTerminalInput (pasted @ [13]) s
        in if \<not> sent then
             (let s1 = setTerminalInputStatus (js ''Not sent'' @ mid_dot @ js ''reconnecting'') s in
              case (case selected s1 of None \<Rightarrow> None | Some i \<Rightarrow> find_session i s1) of
                None \<Rightarrow> (s1, [])
              | Some ref \<Rightarrow> (scheduleTerminalReconnect ref s1, []))
           else (draft_typed [] s, outs))"

text \<open>The keys of the bar below the terminal: Enter, Esc, Tab, Ctrl C, Ctrl D, PgUp, PgDn, Up, Down,
  Left, Right.\<close>

definition extra_keys :: "jsstring list" where
  "extra_keys =
     [[13], [27], [9], [3], [4], 27 # js ''[5~'', 27 # js ''[6~'', 27 # js ''[A'', 27 # js ''[B'',
      27 # js ''[D'', 27 # js ''[C'']"

definition extra_key :: "nat \<Rightarrow> view \<Rightarrow> vout list" where
  "extra_key i s =
     (if has_composer (ui s) \<and> \<not> keys_disabled (ui s) \<and> i < length extra_keys
      then fst (sendTerminalInput (extra_keys ! i) s) else [])"

section \<open>Events\<close>

datatype vevent =
    LinkOpened nat | LinkText nat jsstring | LinkBytes nat bytes
  | LinkClosing nat | LinkClosed nat int | LinkFailed nat
  | ReadyTimer nat | ReconnectTimer | ResizeTimer
  | SnapshotWritten
  | Connect nat                     \<comment> \<open>the Reconnect button, or a resumed portal\<close>
  | Fit | ScreenIs screen | LayoutIs "(nat \<times> nat) option"
  | TerminalData bytes | TerminalBinary jsstring | EnterKey | Paste jsstring | ModeButton
  | Draft jsstring | Submit | ExtraKey nat | StatusTimer jsstring
  | BridgeIs bool | AuthIs bool | StreamsAre bool bool bool
  | GoSessions | GoTerminal jsstring "jsstring option" | GoLogin jsstring | GoWorkflows | GoWorkflow jsstring | GoDesktop

definition link_ready :: "nat \<Rightarrow> ready_state \<Rightarrow> view \<Rightarrow> view" where
  "link_ready n r s =
     (case conn s of
        Some k \<Rightarrow> if c_id k = n \<and> c_ready k < r then s\<lparr>conn := Some (k\<lparr>c_ready := r\<rparr>)\<rparr> else s
      | None \<Rightarrow> s)"

text \<open>A link opens only while it is connecting, and delivers data only while it is open.\<close>

definition conn_is :: "nat \<Rightarrow> ready_state \<Rightarrow> view \<Rightarrow> bool" where
  "conn_is n r s \<longleftrightarrow> (case conn s of Some k \<Rightarrow> c_id k = n \<and> c_ready k = r | None \<Rightarrow> False)"

fun view_step :: "js_env \<Rightarrow> view \<Rightarrow> vevent \<Rightarrow> v_result" where
  "view_step w s (LinkOpened n) = (if conn_is n CONNECTING s then opened n (link_ready n OPEN s) else (s, []))"
| "view_step w s (LinkText n t) = (if conn_is n OPEN s then received_text w n t s else (s, []))"
| "view_step w s (LinkBytes n d) = (if conn_is n OPEN s then received_binary n d s else (s, []))"
| "view_step w s (LinkClosing n) = (link_ready n CLOSING s, [])"
| "view_step w s (LinkClosed n code) = closed n code (link_ready n CLOSED s)"
| "view_step w s (LinkFailed n) = conn_failed n s"
| "view_step w s (ReadyTimer n) = ready_fires n s"
| "view_step w s ReconnectTimer = reconnect_fires s"
| "view_step w s ResizeTimer = resize_fires s"
| "view_step w s SnapshotWritten =
     (case writes s of [] \<Rightarrow> (s, []) | p # ps \<Rightarrow> applied p (s\<lparr>writes := ps\<rparr>))"
| "view_step w s (Connect ref) = connectTerminal ref False s"
| "view_step w s Fit = fitTerminal s"
| "view_step w s (ScreenIs sc) = (s\<lparr>screen := sc\<rparr>, [])"
| "view_step w s (LayoutIs f) = (s\<lparr>fitted := f\<rparr>, [])"
| "view_step w s (TerminalData d) = terminal_data d s"
| "view_step w s (TerminalBinary d) = terminal_data (binaryStringToBytes d) s"
| "view_step w s EnterKey = (s, enter_key s)"
| "view_step w s (Paste t) = paste_text t s"
| "view_step w s ModeButton = (mode_button s, [])"
| "view_step w s (Draft t) = (draft_typed t s, [])"
| "view_step w s Submit = composer_submit s"
| "view_step w s (ExtraKey i) = (s, extra_key i s)"
| "view_step w s (StatusTimer t) = (input_status_timeout t s, [])"
| "view_step w s (BridgeIs up) = (s\<lparr>bridge_up := up\<rparr>, [])"
| "view_step w s (AuthIs a) = (s\<lparr>authenticated := a\<rparr>, [])"
| "view_step w s (StreamsAre rfb dl wl) = (s\<lparr>desktop := rfb, desktopLink := dl, windowLink := wl\<rparr>, [])"
| "view_step w s GoSessions = renderSessions s"
| "view_step w s (GoTerminal i flow) = renderTerminal i flow s"
| "view_step w s (GoLogin msg) = renderLogin msg s"
| "view_step w s GoWorkflows = renderWorkflows s"
| "view_step w s (GoWorkflow i) = renderWorkflowDetail i s"
| "view_step w s GoDesktop = renderDesktop s"

abbreviation view_run :: "js_env \<Rightarrow> view \<Rightarrow> vevent list \<Rightarrow> v_result" where
  "view_run w \<equiv> run_steps (view_step w)"

end
