(* ===== verification/TerminalSafety.thy ===== *)
theory TerminalSafety
  imports TerminalConn
begin

text \<open>
  Properties of the terminal page: a lost connection is retried, what the emulator shows is what the
  connection delivered, sizes are reported once, nothing happens after the page is left, and what
  typing does while a snapshot is replayed.

  The first section states, per operation, which fields it leaves alone; the properties are proved per
  event with these facts and then along runs.
\<close>

section \<open>What the operations leave alone\<close>

lemma fit_frame [simp]:
  "on_page (fst (fitTerminal s)) = on_page s" "objects (fst (fitTerminal s)) = objects s"
  "selected (fst (fitTerminal s)) = selected s" "conn (fst (fitTerminal s)) = conn s"
  "reconnectTimer (fst (fitTerminal s)) = reconnectTimer s" "terminal (fst (fitTerminal s)) = terminal s"
  "encryptedPortal (fst (fitTerminal s)) = encryptedPortal s" "resume_key (fst (fitTerminal s)) = resume_key s"
  "replyGate (fst (fitTerminal s)) = replyGate s" "lastResize (fst (fitTerminal s)) = lastResize s"
  "next_conn (fst (fitTerminal s)) = next_conn s" "ui (fst (fitTerminal s)) = ui s"
  "writes (fst (fitTerminal s)) = writes s" "reconnectAttempts (fst (fitTerminal s)) = reconnectAttempts s"
  "bridge_up (fst (fitTerminal s)) = bridge_up s" "authenticated (fst (fitTerminal s)) = authenticated s"
  "terminalSessionID (fst (fitTerminal s)) = terminalSessionID s" "snapshotApplied (fst (fitTerminal s)) = snapshotApplied s"
  by (simp_all add: fitTerminal_def Let_def split: option.split prod.split)

lemma schedule_frame [simp]:
  "on_page (scheduleTerminalReconnect r s) = on_page s" "objects (scheduleTerminalReconnect r s) = objects s"
  "selected (scheduleTerminalReconnect r s) = selected s" "conn (scheduleTerminalReconnect r s) = conn s"
  "terminal (scheduleTerminalReconnect r s) = terminal s"
  "encryptedPortal (scheduleTerminalReconnect r s) = encryptedPortal s" "resume_key (scheduleTerminalReconnect r s) = resume_key s"
  "replyGate (scheduleTerminalReconnect r s) = replyGate s" "lastResize (scheduleTerminalReconnect r s) = lastResize s"
  "next_conn (scheduleTerminalReconnect r s) = next_conn s" "writes (scheduleTerminalReconnect r s) = writes s"
  "resizeTimer (scheduleTerminalReconnect r s) = resizeTimer s"
  by (simp_all add: scheduleTerminalReconnect_def)

lemma schedule_timer:
  "reconnectTimer (scheduleTerminalReconnect r s) =
     (if may_reconnect r s \<and> reconnectTimer s = None then Some (reconnect_delay (reconnectAttempts s), r)
      else reconnectTimer s)"
  by (simp add: scheduleTerminalReconnect_def)

lemma schedule_may [simp]: "may_reconnect r (scheduleTerminalReconnect r' s) = may_reconnect r s"
  by (simp add: may_reconnect_def)

lemma close_frame [simp]:
  "on_page (fst (socket_close s)) = on_page s" "objects (fst (socket_close s)) = objects s"
  "selected (fst (socket_close s)) = selected s" "terminal (fst (socket_close s)) = terminal s"
  "encryptedPortal (fst (socket_close s)) = encryptedPortal s" "resume_key (fst (socket_close s)) = resume_key s"
  "replyGate (fst (socket_close s)) = replyGate s" "lastResize (fst (socket_close s)) = lastResize s"
  "next_conn (fst (socket_close s)) = next_conn s" "writes (fst (socket_close s)) = writes s"
  "resizeTimer (fst (socket_close s)) = resizeTimer s" "reconnectTimer (fst (socket_close s)) = reconnectTimer s"
  "bridge_up (fst (socket_close s)) = bridge_up s" "terminalSessionID (fst (socket_close s)) = terminalSessionID s"
  "snapshotApplied (fst (socket_close s)) = snapshotApplied s"
  by (simp_all add: socket_close_def split: option.split)

lemma set_conn_frame [simp]:
  "on_page (set_conn f s) = on_page s" "objects (set_conn f s) = objects s"
  "selected (set_conn f s) = selected s" "terminal (set_conn f s) = terminal s"
  "encryptedPortal (set_conn f s) = encryptedPortal s" "resume_key (set_conn f s) = resume_key s"
  "replyGate (set_conn f s) = replyGate s" "lastResize (set_conn f s) = lastResize s"
  "next_conn (set_conn f s) = next_conn s" "writes (set_conn f s) = writes s"
  "resizeTimer (set_conn f s) = resizeTimer s" "reconnectTimer (set_conn f s) = reconnectTimer s"
  "reconnectAttempts (set_conn f s) = reconnectAttempts s" "conn (set_conn f s) = map_option f (conn s)"
  by (simp_all add: set_conn_def)

lemma finish_replay_frame [simp]:
  "on_page (fst (finish_replay g s)) = on_page s" "objects (fst (finish_replay g s)) = objects s"
  "selected (fst (finish_replay g s)) = selected s" "conn (fst (finish_replay g s)) = conn s"
  "reconnectTimer (fst (finish_replay g s)) = reconnectTimer s" "terminal (fst (finish_replay g s)) = terminal s"
  "encryptedPortal (fst (finish_replay g s)) = encryptedPortal s" "resume_key (fst (finish_replay g s)) = resume_key s"
  "lastResize (fst (finish_replay g s)) = lastResize s" "next_conn (fst (finish_replay g s)) = next_conn s"
  "writes (fst (finish_replay g s)) = writes s" "ui (fst (finish_replay g s)) = ui s"
  by (simp_all add: finish_replay_def case_prod_beta Let_def split: option.split)

lemma markReady_frame [simp]:
  "on_page (fst (markReady n s)) = on_page s" "objects (fst (markReady n s)) = objects s"
  "selected (fst (markReady n s)) = selected s" "reconnectTimer (fst (markReady n s)) = reconnectTimer s"
  "terminal (fst (markReady n s)) = terminal s" "replyGate (fst (markReady n s)) = replyGate s"
  "encryptedPortal (fst (markReady n s)) = encryptedPortal s" "resume_key (fst (markReady n s)) = resume_key s"
  "lastResize (fst (markReady n s)) = lastResize s" "next_conn (fst (markReady n s)) = next_conn s"
  "writes (fst (markReady n s)) = writes s"
  "conn (fst (markReady n s)) = map_option (\<lambda>k. if c_id k = n then k\<lparr>c_readyTimer := False\<rparr> else k) (conn s)"
  by (simp_all add: markReady_def if_current_def clearReadyTimer_def Let_def split: option.split)

lemma applied_frame [simp]:
  "on_page (fst (applied p s)) = on_page s" "objects (fst (applied p s)) = objects s"
  "selected (fst (applied p s)) = selected s" "reconnectTimer (fst (applied p s)) = reconnectTimer s"
  "terminal (fst (applied p s)) = terminal s" "lastResize (fst (applied p s)) = lastResize s"
  "encryptedPortal (fst (applied p s)) = encryptedPortal s" "resume_key (fst (applied p s)) = resume_key s"
  "next_conn (fst (applied p s)) = next_conn s" "writes (fst (applied p s)) = writes s"
  "map_option c_ready (conn (fst (applied p s))) = map_option c_ready (conn s)"
  "map_option c_id (conn (fst (applied p s))) = map_option c_id (conn s)"
  "map_option c_stream (conn (fst (applied p s))) = map_option c_stream (conn s)"
  by (simp_all add: applied_def if_current_def case_prod_beta Let_def option.map_comp comp_def split: option.split)

lemmas callback_defs = if_current_def markReady_def opened_def ready_fires_def applied_def applySnapshot_def
  finish_replay_def closed_def conn_failed_def clearReadyTimer_def protocol_error_def perform_def
  session_ended_def received_text_def received_binary_def Let_def

section \<open>Reconnecting\<close>

definition retries :: "vout \<Rightarrow> bool" where
  "retries v \<longleftrightarrow> (case v of OpenLink _ _ \<Rightarrow> True | ResumePortal \<Rightarrow> True | _ \<Rightarrow> False)"

definition leaves_page :: "vevent \<Rightarrow> bool" where
  "leaves_page e \<longleftrightarrow>
     (case e of GoSessions \<Rightarrow> True | GoTerminal _ _ \<Rightarrow> True | GoLogin _ \<Rightarrow> True
      | GoWorkflows \<Rightarrow> True | GoWorkflow _ \<Rightarrow> True | GoDesktop \<Rightarrow> True
      | LinkClosed _ code \<Rightarrow> code = 1008 | _ \<Rightarrow> False)"

text \<open>The connection is lost and its session can be connected again.\<close>

definition awaiting_retry :: "view \<Rightarrow> bool" where
  "awaiting_retry s \<longleftrightarrow>
     (\<exists>d r. reconnectTimer s = Some (d, r) \<and> may_reconnect r s) \<and> (encryptedPortal s \<longrightarrow> resume_key s) \<and>
     (\<exists>k. conn s = Some k \<and> c_ready k = CLOSED)"

lemma awaiting_cong:
  "\<lbrakk>awaiting_retry s; reconnectTimer s' = reconnectTimer s; on_page s' = on_page s; objects s' = objects s;
    selected s' = selected s; encryptedPortal s' = encryptedPortal s; resume_key s' = resume_key s;
    map_option c_ready (conn s') = map_option c_ready (conn s)\<rbrakk> \<Longrightarrow> awaiting_retry s'"
  by (auto simp: awaiting_retry_def may_reconnect_def) 

lemma connect_retries:
  "(encryptedPortal s \<longrightarrow> resume_key s) \<Longrightarrow> list_ex retries (snd (connectTerminal r a s))"
  by (auto simp: connectTerminal_def open_connection_def Let_def retries_def)

lemma timer_retries:
  assumes "awaiting_retry s"
  shows "list_ex retries (snd (reconnect_fires s))"
proof -
  from assms obtain d r k where t: "reconnectTimer s = Some (d, r)" and m: "may_reconnect r s"
    and k: "conn s = Some k" "c_ready k = CLOSED" and e: "encryptedPortal s \<longrightarrow> resume_key s"
    by (auto simp: awaiting_retry_def)
  have "may_reconnect r (s\<lparr>reconnectTimer := None\<rparr>)" "\<not> socket_open (s\<lparr>reconnectTimer := None\<rparr>)"
    using m k by (auto simp: may_reconnect_def socket_open_def)
  moreover have "list_ex retries (snd (connectTerminal r True (s\<lparr>reconnectTimer := None\<rparr>)))"
    using e by (intro connect_retries) simp
  ultimately show ?thesis
    using t by (simp add: reconnect_fires_def retries_def Let_def)
qed

lemma awaiting_step:
  assumes a: "awaiting_retry s" and e: "\<not> leaves_page e"
  shows "awaiting_retry (fst (view_step w s e)) \<or> list_ex retries (snd (view_step w s e))"
proof -
  obtain d r k where t: "reconnectTimer s = Some (d, r)" and m: "may_reconnect r s"
    and k: "conn s = Some k" "c_ready k = CLOSED" and key: "encryptedPortal s \<longrightarrow> resume_key s"
    using a by (auto simp: awaiting_retry_def)
  have not_less: "\<not> CLOSED < x" for x :: ready_state
    by (cases x) (simp_all add: less_ready_state_def)
  have ready: "link_ready n x s = s" for n x
    using k not_less by (auto simp: link_ready_def)
  note here = awaiting_cong [OF a]
  note defs = callback_defs k t not_less
  show ?thesis
  proof (cases e)
    case (LinkClosed n code)
    then show ?thesis
      using e unfolding LinkClosed view_step.simps ready
      by (intro disjI1 here) (simp_all add: defs leaves_page_def schedule_timer)
  next
    case (LinkFailed n)
    show ?thesis
      unfolding LinkFailed view_step.simps by (intro disjI1 here) (simp_all add: defs schedule_timer)
  next
    case (ReadyTimer n)
    show ?thesis
      unfolding ReadyTimer view_step.simps by (intro disjI1 here) (simp_all add: defs)
  next
    case ReconnectTimer
    then show ?thesis using timer_retries [OF a] by simp
  next
    case ResizeTimer
    show ?thesis
      unfolding ResizeTimer view_step.simps
      by (intro disjI1 here) (simp_all add: resize_fires_def Let_def k split: option.split)
  next
    case SnapshotWritten
    show ?thesis
      unfolding SnapshotWritten view_step.simps
      by (intro disjI1 here) (simp_all split: list.split)
  next
    case (Connect r')
    then show ?thesis using connect_retries [OF key] by simp
  next
    case Submit
    show ?thesis
      unfolding Submit view_step.simps
      by (intro disjI1 here)
         (simp_all add: composer_submit_def sendTerminalInput_def setTerminalInputStatus_def k t schedule_timer draft_typed_def
            Let_def split: option.split)
  next
    case (TerminalData d')
    show ?thesis
      unfolding TerminalData view_step.simps
      by (intro disjI1 here) (simp_all add: terminal_data_def Let_def k split: option.split prod.split)
  next
    case (TerminalBinary d')
    show ?thesis
      unfolding TerminalBinary view_step.simps
      by (intro disjI1 here) (simp_all add: terminal_data_def Let_def k split: option.split prod.split)
  next
    case (Paste t')
    show ?thesis
      unfolding Paste view_step.simps
      by (intro disjI1 here) (simp_all add: paste_text_def sendTerminalInput_def setTerminalInputStatus_def k)
  next
    case ModeButton
    show ?thesis
      unfolding ModeButton view_step.simps
      by (intro disjI1 here) (simp_all add: mode_button_def applyInputMode_def saveTerminalInputMode_def Let_def)
  next
    case (Draft t')
    show ?thesis
      unfolding Draft view_step.simps by (intro disjI1 here) (simp_all add: draft_typed_def)
  next
    case (StatusTimer t')
    show ?thesis
      unfolding StatusTimer view_step.simps by (intro disjI1 here) (simp_all add: input_status_timeout_def)
  qed (use a e k in \<open>auto simp: leaves_page_def conn_is_def ready awaiting_retry_def may_reconnect_def\<close>)
qed

lemma awaiting_run:
  "awaiting_retry s \<Longrightarrow> list_all (\<lambda>e. \<not> leaves_page e) es \<Longrightarrow>
     awaiting_retry (fst (view_run w s es)) \<or> list_ex retries (snd (view_run w s es))"
proof (induction es arbitrary: s)
  case (Cons e es)
  from Cons.prems have e: "\<not> leaves_page e" "list_all (\<lambda>e. \<not> leaves_page e) es" by simp_all
  from awaiting_step [OF Cons.prems(1) e(1), of w] show ?case
    using Cons.IH [OF _ e(2)] by (auto simp del: view_step.simps)
qed simp

lemma reconnect_delay_bounds: "500 \<le> reconnect_delay n \<and> reconnect_delay n \<le> 4000"
  by (simp add: reconnect_delay_def)

text \<open>C15. A lost terminal is retried: when the connection of the running session on the page closes, a
  timer of 500 to 4000 ms is set for it, and whatever happens afterwards short of leaving the page,
  either a new link has been opened or the portal asked to resume, or the timer is still set and its
  firing does one of the two.\<close>

theorem lost_terminal_is_retried:
  assumes "conn s = Some k" "c_ready k \<noteq> CLOSED" "may_reconnect (c_session k) s" "reconnectTimer s = None"
    and "encryptedPortal s \<longrightarrow> resume_key s" "code \<noteq> 1008" "list_all (\<lambda>e. \<not> leaves_page e) es"
    and "s1 = fst (view_step w s (LinkClosed (c_id k) code))" "(s2, outs) = view_run w s1 es"
  shows "reconnectTimer s1 = Some (min (500 * 2 ^ min (reconnectAttempts s) 3) 4000, c_session k) \<and>
    (list_ex retries outs \<or> reconnectTimer s2 \<noteq> None \<and> list_ex retries (snd (view_step w s2 ReconnectTimer)))"
proof -
  have "c_ready k < CLOSED"
    using assms(2) by (cases "c_ready k") (simp_all add: less_ready_state_def)
  then have s1: "reconnectTimer s1 = Some (reconnect_delay (reconnectAttempts s), c_session k)"
    "awaiting_retry s1"
    using assms(1,3-6) unfolding assms(8) view_step.simps
    by (auto simp: closed_def if_current_def link_ready_def clearReadyTimer_def schedule_timer may_reconnect_def
        awaiting_retry_def)
  have "awaiting_retry s2 \<or> list_ex retries outs"
    using awaiting_run [OF s1(2) assms(7), of w] assms(9) by (metis fst_conv snd_conv)
  then show ?thesis
    using s1(1) timer_retries [of s2] by (auto simp: reconnect_delay_def awaiting_retry_def)
qed

section \<open>After the page is left\<close>

definition left_page :: "view \<Rightarrow> bool" where
  "left_page s \<longleftrightarrow> conn s = None \<and> terminal s = None \<and> replyGate s = None \<and> \<not> fit_loaded s \<and>
     reconnectTimer s = None \<and> resizeTimer s = None \<and> \<not> on_page s \<and> ui s = no_ui"

definition enters :: "vevent \<Rightarrow> bool" where
  "enters e \<longleftrightarrow> (case e of GoSessions \<Rightarrow> True | GoTerminal _ _ \<Rightarrow> True | GoLogin _ \<Rightarrow> True
      | GoWorkflows \<Rightarrow> True | GoWorkflow _ \<Rightarrow> True | GoDesktop \<Rightarrow> True
      | Connect _ \<Rightarrow> True | _ \<Rightarrow> False)"

lemma left_page_step:
  "left_page s \<Longrightarrow> \<not> enters e \<Longrightarrow> left_page (fst (view_step w s e)) \<and> snd (view_step w s e) = []"
  by (cases e)
     (auto simp: left_page_def enters_def conn_is_def callback_defs link_ready_def reconnect_fires_def resize_fires_def
        terminal_data_def enter_key_def paste_text_def mode_button_def draft_typed_def no_ui_def composer_submit_def
        extra_key_def input_status_timeout_def fitTerminal_def split: list.split)

lemma left_page_run:
  "left_page s \<Longrightarrow> list_all (\<lambda>e. \<not> enters e) es \<Longrightarrow> snd (view_run w s es) = []"
proof (induction es arbitrary: s)
  case (Cons e es)
  then show ?case using left_page_step [of s e w] by (simp del: view_step.simps)
qed simp

lemma close_connection_left:
  "on_page (fst (closeConnection s)) = on_page s" 
  "conn (fst (closeConnection s)) = None" "terminal (fst (closeConnection s)) = None"
  "replyGate (fst (closeConnection s)) = None" "\<not> fit_loaded (fst (closeConnection s))"
  "reconnectTimer (fst (closeConnection s)) = None" "resizeTimer (fst (closeConnection s)) = None"
  "conn s = Some k \<Longrightarrow> CloseLink (c_id k) \<in> set (snd (closeConnection s))"
  "closeConnection (fst (closeConnection s)) = (fst (closeConnection s), [])"
  by (simp_all add: closeConnection_def socket_close_def)

definition leaves_terminal :: "vevent \<Rightarrow> bool" where
  "leaves_terminal e \<longleftrightarrow> (case e of GoSessions \<Rightarrow> True | GoLogin _ \<Rightarrow> True | GoWorkflows \<Rightarrow> True | GoWorkflow _ \<Rightarrow> True
      | GoDesktop \<Rightarrow> True | _ \<Rightarrow> False)"

lemmas page_defs = renderSessions_def renderLogin_def renderWorkflows_def renderWorkflowDetail_def renderDesktop_def
  enter_page_def rememberPortalView_def startPolling_def stopPolling_def

lemma leaves_terminal_step:
  assumes "leaves_terminal e"
  shows "left_page (fst (view_step w s e))"
    and "conn s = Some k \<Longrightarrow> CloseLink (c_id k) \<in> set (snd (view_step w s e))"
  using assms close_connection_left [of s] close_connection_left [of "s\<lparr>polling := False\<rparr>"]
  by (cases e; auto simp: leaves_terminal_def left_page_def page_defs close_connection_left)+


section \<open>What the emulator shows\<close>

definition is_screen :: "vout \<Rightarrow> bool" where
  "is_screen v \<longleftrightarrow> (case v of TermReset \<Rightarrow> True | TermWrite _ \<Rightarrow> True | _ \<Rightarrow> False)"

fun shown :: "action \<Rightarrow> vout list" where
  "shown (Snapshot d) = TermReset # (if d = [] then [] else [TermWrite d])"
| "shown (Live d) = [TermWrite d]"

definition frame_of :: "js_env \<Rightarrow> nat \<Rightarrow> vevent \<Rightarrow> frame list" where
  "frame_of w n e =
     (case e of
        LinkBytes m d \<Rightarrow> if m = n then [Binary d] else []
      | LinkText m t \<Rightarrow>
          if m = n then (case parse w t of Some v \<Rightarrow> (case terminalStreamControl v of Some c \<Rightarrow> [Control c] | None \<Rightarrow> []) | None \<Rightarrow> [])
          else []
      | _ \<Rightarrow> [])"

text \<open>The connection stays as it is: no navigation, no new connection, no loss, and its texts are JSON.\<close>

definition undisturbed :: "js_env \<Rightarrow> nat \<Rightarrow> vevent \<Rightarrow> bool" where
  "undisturbed w n e \<longleftrightarrow> \<not> enters e \<and>
     (case e of LinkClosing _ \<Rightarrow> False | LinkClosed _ _ \<Rightarrow> False
      | LinkText m t \<Rightarrow> parse w t \<noteq> None | _ \<Rightarrow> True)"

definition streaming :: "nat \<Rightarrow> stream \<Rightarrow> view \<Rightarrow> bool" where
  "streaming n st s \<longleftrightarrow> terminal s \<noteq> None \<and>
     (\<exists>k. conn s = Some k \<and> c_id k = n \<and> c_ready k = OPEN \<and> c_stream k = st)"

lemma streaming_cong:
  "streaming n st s \<Longrightarrow> terminal s' = terminal s \<Longrightarrow> map_option c_id (conn s') = map_option c_id (conn s) \<Longrightarrow>
   map_option c_ready (conn s') = map_option c_ready (conn s) \<Longrightarrow> map_option c_stream (conn s') = map_option c_stream (conn s) \<Longrightarrow>
   streaming n st s'"
  by (auto simp: streaming_def)

lemma fit_outputs: "set (snd (fitTerminal s)) \<subseteq> {ScrollToBottom, TouchSync}"
  by (auto simp: fitTerminal_def Let_def split: option.splits prod.splits if_splits)

lemma fit_filter: "\<not> P ScrollToBottom \<Longrightarrow> \<not> P TouchSync \<Longrightarrow> filter P (snd (fitTerminal s)) = []"
  using fit_outputs [of s] by (auto simp: filter_empty_conv)

lemma quiet_fit [simp]: "filter is_screen (snd (fitTerminal s)) = []"
  by (rule fit_filter) (simp_all add: is_screen_def)

lemma quiet_markReady [simp]: "filter is_screen (snd (markReady n s)) = []"
  by (simp add: markReady_def if_current_def Let_def split: option.split)

lemma quiet_applied [simp]: "filter is_screen (snd (applied p s)) = []"
  by (simp add: applied_def if_current_def case_prod_beta Let_def is_screen_def split: option.split)

lemma quiet_send [simp]: "filter is_screen (fst (sendTerminalInput t s)) = []"
  by (simp add: sendTerminalInput_def is_screen_def split: option.split)

lemma streaming_snapshot:
  assumes "streaming n st s"
  shows "streaming n st (fst (applySnapshot n d s)) \<and> filter is_screen (snd (applySnapshot n d s)) = shown (Snapshot d)"
proof -
  obtain t k where t: "terminal s = Some t" and k: "conn s = Some k" "c_id k = n"
    using assms by (auto simp: streaming_def)
  have a: "streaming n st s' \<Longrightarrow> streaming n st (fst (applied p s'))" for p s'
    by (erule streaming_cong) simp_all
  have g: "streaming n st (s\<lparr>replyGate := g\<rparr>)" "streaming n st (s\<lparr>writes := ws\<rparr>)"
    "streaming n st (s\<lparr>replyGate := g, writes := ws\<rparr>)" for g ws
    using assms by (simp_all add: streaming_def)
  show ?thesis
    using assms t k a g by (cases "replyGate s") (simp_all add: applySnapshot_def if_current_def Let_def case_prod_beta is_screen_def)
qed

lemma streaming_perform:
  assumes "streaming n st s" "result = (st', Inr act)"
  shows "streaming n st' (fst (perform n r result s))"
    and "filter is_screen (snd (perform n r result s)) =
           (case act of Some (Snapshot d) \<Rightarrow> shown (Snapshot d) | _ \<Rightarrow> [])"
proof -
  have s1: "streaming n st' (set_conn (\<lambda>k. k\<lparr>c_stream := st'\<rparr>) s)"
    using assms(1) by (auto simp: streaming_def)
  show "streaming n st' (fst (perform n r result s))"
    "filter is_screen (snd (perform n r result s)) =
       (case act of Some (Snapshot d) \<Rightarrow> shown (Snapshot d) | _ \<Rightarrow> [])"
    using s1 streaming_snapshot [OF s1] assms(2)
    by (simp_all add: perform_def Let_def split: option.split action.split)
qed

lemma streaming_quiet_step:
  assumes s: "streaming n st s" and u: "undisturbed w n e" and f: "frame_of w n e = []"
  shows "streaming n st (fst (view_step w s e)) \<and> filter is_screen (snd (view_step w s e)) = []"
proof -
  obtain t k where t: "terminal s = Some t" and k: "conn s = Some k" "c_id k = n" "c_ready k = OPEN" "c_stream k = st"
    using s by (auto simp: streaming_def)
  note here = streaming_cong [OF s]
  note defs = callback_defs k
  show ?thesis
  proof (cases e)
    case (LinkText m x)
    show ?thesis
    proof (cases "m = n")
      case True
      obtain v where v: "parse w x = Some v" using u LinkText by (auto simp: undisturbed_def)
      then have "terminalStreamControl v = None"
        using f LinkText True by (auto simp: frame_of_def split: option.splits)
      then show ?thesis
        unfolding LinkText view_step.simps using v True k s
        by (simp add: received_text_def if_current_def session_ended_def conn_is_def streaming_def Let_def is_screen_def)
    next
      case False
      then show ?thesis unfolding LinkText using s k by (simp add: conn_is_def)
    qed
  next
    case (LinkBytes m d)
    then have "m \<noteq> n" using f by (auto simp: frame_of_def)
    then show ?thesis unfolding LinkBytes using s k by (simp add: conn_is_def)
  next
    case (LinkFailed m)
    show ?thesis
      unfolding LinkFailed view_step.simps using s by (intro conjI here) (simp_all add: defs)
  next
    case (ReadyTimer m)
    show ?thesis
      unfolding ReadyTimer view_step.simps
      by (intro conjI here) (simp_all add: ready_fires_def if_current_def k)
  next
    case ReconnectTimer
    show ?thesis
      unfolding ReconnectTimer view_step.simps using s
      by (auto simp: reconnect_fires_def Let_def socket_open_def k streaming_def split: option.split)
  next
    case ResizeTimer
    show ?thesis
      unfolding ResizeTimer view_step.simps
      by (intro conjI here) (simp_all add: resize_fires_def Let_def k is_screen_def split: option.split)
  next
    case SnapshotWritten
    show ?thesis
    proof (cases "writes s")
      case Nil
      then show ?thesis using SnapshotWritten s by simp
    next
      case (Cons p ps)
      then show ?thesis unfolding SnapshotWritten by (intro conjI here) simp_all
    qed
  next
    case Fit
    show ?thesis unfolding Fit view_step.simps by (intro conjI here) simp_all
  next
    case (TerminalData d)
    show ?thesis
      unfolding TerminalData view_step.simps
      by (intro conjI here) (simp_all add: terminal_data_def case_prod_beta Let_def k is_screen_def split: option.split)
  next
    case (TerminalBinary d)
    show ?thesis
      unfolding TerminalBinary view_step.simps
      by (intro conjI here) (simp_all add: terminal_data_def case_prod_beta Let_def k is_screen_def split: option.split)
  next
    case Submit
    show ?thesis
      unfolding Submit view_step.simps
      by (intro conjI here) (simp_all add: composer_submit_def sendTerminalInput_def k draft_typed_def Let_def is_screen_def)
  next
    case (Paste x)
    show ?thesis
      unfolding Paste view_step.simps
      by (intro conjI here) (simp_all add: paste_text_def sendTerminalInput_def setTerminalInputStatus_def k Let_def is_screen_def)
  qed (use s u k in \<open>auto simp: undisturbed_def enters_def conn_is_def streaming_def enter_key_def extra_key_def mode_button_def
        applyInputMode_def saveTerminalInputMode_def Let_def draft_typed_def input_status_timeout_def\<close>)
qed

lemma frame_of_events:
  "frame_of w n e = [f] \<Longrightarrow>
     (\<exists>d. e = LinkBytes n d \<and> f = Binary d) \<or>
     (\<exists>x v c. e = LinkText n x \<and> parse w x = Some v \<and> terminalStreamControl v = Some c \<and> f = Control c)"
  by (auto simp: frame_of_def split: vevent.splits if_splits option.splits)

lemma frame_of_cases: "frame_of w n e = [] \<or> (\<exists>f. frame_of w n e = [f])"
  by (auto simp: frame_of_def split: vevent.split option.split)

lemma streaming_frame_step:
  assumes s: "streaming n st s" and f: "frame_of w n e = [f]" and step: "stream_step st f = (st', Inr act)"
  shows "streaming n st' (fst (view_step w s e)) \<and>
    filter is_screen (snd (view_step w s e)) = (case act of None \<Rightarrow> [] | Some a \<Rightarrow> shown a)"
proof -
  obtain t k where t: "terminal s = Some t" and k: "conn s = Some k" "c_id k = n" "c_ready k = OPEN" "c_stream k = st"
    using s by (auto simp: streaming_def)
  from frame_of_events [OF f] show ?thesis
  proof (elim disjE exE conjE)
    fix d assume e: "e = LinkBytes n d" "f = Binary d"
    have r: "receiveBinary (c_stream k) d = (st', Inr act)" using step e k by simp
    show ?thesis
    proof (cases "\<exists>live. act = Some (Live live)")
      case True
      then show ?thesis using e r k t s
        by (auto simp: conn_is_def received_binary_def if_current_def streaming_def is_screen_def)
    next
      case False
      then have "received_binary n d s = perform n (c_session k) (st', Inr act) s"
        using r k by (auto simp: received_binary_def if_current_def Let_def split: option.split action.split)
      then show ?thesis
        using e k False streaming_perform [OF s refl]
        by (cases act; cases "the act") (auto simp: conn_is_def)
    qed
  next
    fix x v c assume e: "e = LinkText n x" "f = Control c" and v: "parse w x = Some v" "terminalStreamControl v = Some c"
    have r: "receiveControl (c_stream k) c = (st', Inr act)" using step e k by simp
    have no_live: "act \<noteq> Some (Live l)" for l
      using r by (cases c) (auto split: if_splits)
    let ?s = "case c of SnapshotStart _ \<Rightarrow> clearReadyTimer s | SnapshotEnd \<Rightarrow> s"
    have s': "streaming n st ?s"
      using s by (cases c) (auto simp: streaming_def clearReadyTimer_def)
    have "received_text w n x s = perform n (c_session k) (st', Inr act) ?s"
      using r v k by (simp add: received_text_def if_current_def)
    then show ?thesis
      using e k no_live streaming_perform [OF s' refl]
      by (cases act; cases "the act") (auto simp: conn_is_def)
  qed
qed

lemma streaming_run:
  assumes "streaming n st s" "list_all (undisturbed w n) es"
    and "stream_run st (concat (map (frame_of w n) es)) = (st', acts, None)"
  shows "streaming n st' (fst (view_run w s es)) \<and>
    filter is_screen (snd (view_run w s es)) = concat (map shown acts)"
  using assms
proof (induction es arbitrary: s st acts)
  case (Cons e es)
  from frame_of_cases [of w n e] show ?case
  proof
    assume f: "frame_of w n e = []"
    then have e: "undisturbed w n e" "list_all (undisturbed w n) es"
      "stream_run st (concat (map (frame_of w n) es)) = (st', acts, None)"
      using Cons.prems by simp_all
    from streaming_quiet_step [OF Cons.prems(1) e(1) f] Cons.IH [OF _ e(2,3)] show ?thesis
      by (simp del: view_step.simps)
  next
    assume "\<exists>f. frame_of w n e = [f]"
    then obtain f where f: "frame_of w n e = [f]" ..
    with Cons.prems(3) obtain st1 act acts1 where r: "stream_step st f = (st1, Inr act)"
      "stream_run st1 (concat (map (frame_of w n) es)) = (st', acts1, None)"
      "acts = (case act of None \<Rightarrow> acts1 | Some a \<Rightarrow> a # acts1)"
      by (auto simp: stream_run_Cons simp del: stream_run.simps)
    with streaming_frame_step [OF Cons.prems(1) f r(1)] Cons.IH [of st1 _ acts1] Cons.prems(2) show ?thesis
      by (cases act) (auto simp del: view_step.simps)
  qed
qed simp

definition screen_bytes :: "vout list \<Rightarrow> bytes" where
  "screen_bytes outs = concat (map (\<lambda>v. case v of TermWrite d \<Rightarrow> d | _ \<Rightarrow> []) outs)"

lemma screen_bytes_shown: "screen_bytes (concat (map shown acts)) = concat (map action_bytes acts)"
proof (induction acts)
  case (Cons a acts)
  then show ?case by (cases a) (simp_all add: screen_bytes_def)
qed (simp add: screen_bytes_def)

text \<open>C14. The terminal shows its session: over any run of events around one open connection that follows
  the snapshot protocol, the emulator is untouched while the snapshot is incomplete, and otherwise it is
  reset once, first, and then given bytes only; what it was given followed by what is still buffered is
  what the connection delivered, in order.\<close>

theorem terminal_shows_stream:
  assumes "streaming n new_stream s" "list_all (undisturbed w n) es" "frames = concat (map (frame_of w n) es)"
    and "stream_run new_stream frames = (st, acts, None)" "display = filter is_screen (snd (view_run w s es))"
  shows "(if waitingForSnapshot st then display = [] else \<exists>ds. display = TermReset # map TermWrite ds) \<and>
    screen_bytes display @ concat (chunks st) = concat (map frame_bytes frames)"
proof -
  have e: "display = concat (map shown acts)"
    using streaming_run [OF assms(1,2), of st acts] assms(3,4,5) by simp
  have b: "screen_bytes display @ concat (chunks st) = concat (map frame_bytes frames)"
    using stream_run_conserves [OF new_stream_inv assms(4)] unfolding e screen_bytes_shown
    by (simp add: new_stream_def)
  have "acts = [] \<and> waitingForSnapshot st \<or> (\<exists>d ls. acts = Snapshot d # map Live ls \<and> \<not> waitingForSnapshot st)"
    by (rule stream_run_shape [OF _ assms(4)]) (simp add: new_stream_def)
  moreover have "concat (map shown (map Live ls)) = map TermWrite ls" for ls
    by (induction ls) simp_all
  moreover have "\<exists>ds. concat (map shown (Snapshot d # map Live ls)) = TermReset # map TermWrite ds" for d ls
    using calculation(2) [of ls] by (cases "d = []") (auto intro: exI [of _ "d # ls"])
  ultimately show ?thesis using b e by auto
qed

section \<open>Reported sizes\<close>

definition resizes :: "nat \<Rightarrow> vout list \<Rightarrow> json list" where
  "resizes n outs = concat (map (\<lambda>v. case v of SendJson m j \<Rightarrow> if m = n then [j] else [] | _ \<Rightarrow> []) outs)"

lemma resizes_simps [simp]:
  "resizes n [] = []" "resizes n (xs @ ys) = resizes n xs @ resizes n ys"
  by (simp_all add: resizes_def)

definition no_json :: "vout list \<Rightarrow> bool" where
  "no_json outs \<longleftrightarrow> list_all (\<lambda>v. case v of SendJson _ _ \<Rightarrow> False | _ \<Rightarrow> True) outs"

lemma no_json_simps [simp]:
  "no_json []" "no_json (v # vs) \<longleftrightarrow> (case v of SendJson _ _ \<Rightarrow> False | _ \<Rightarrow> True) \<and> no_json vs"
  "no_json (xs @ ys) \<longleftrightarrow> no_json xs \<and> no_json ys"
  by (simp_all add: no_json_def)

lemma no_json_resizes: "no_json outs \<Longrightarrow> resizes n outs = []"
  by (induction outs) (auto simp: resizes_def split: vout.splits)

lemma resize_message_inj [simp]: "resize_message a b = resize_message c d \<longleftrightarrow> a = c \<and> b = d"
  by (auto simp: resize_message_def jmsg_def)

lemma no_json_ops [simp]:
  "no_json (snd (fitTerminal s))" "no_json (snd (socket_close s))" "no_json (fst (sendTerminalInput t s))"
  by (simp_all add: fitTerminal_def socket_close_def sendTerminalInput_def Let_def split: option.split)

lemma no_json_markReady [simp]: "no_json (snd (markReady n s))"
  by (simp add: markReady_def if_current_def Let_def split: option.split)

lemma no_json_applied [simp]: "no_json (snd (applied p s))"
  by (simp add: applied_def if_current_def case_prod_beta Let_def split: option.split)

lemma no_json_apply [simp]: "no_json (snd (applySnapshot n d s))"
  by (simp add: applySnapshot_def if_current_def case_prod_beta Let_def split: option.split)

lemma no_json_perform [simp]: "no_json (snd (perform n r res s))"
  by (simp add: perform_def protocol_error_def Let_def split: sum.split option.split action.split)

lemma no_json_connect [simp]: "no_json (snd (connectTerminal r a s))"
  by (simp add: connectTerminal_def open_connection_def Let_def)

lemma no_json_close_conn [simp]: "no_json (snd (closeConnection s))"
  by (simp add: closeConnection_def)

lemma no_json_sessions [simp]: "no_json (snd (renderSessions s))" "no_json (snd (renderLogin m s))"
  by (simp_all add: renderSessions_def rememberPortalView_def renderLogin_def)

lemma no_json_pages [simp]:
  "no_json (snd (renderWorkflows s))" "no_json (snd (renderWorkflowDetail i s))" "no_json (snd (renderDesktop s))"
  by (simp_all add: renderWorkflows_def renderWorkflowDetail_def renderDesktop_def enter_page_def rememberPortalView_def)

lemma no_json_terminal [simp]: "no_json (snd (renderTerminal i f s))"
  by (simp add: renderTerminal_def rememberPortalView_def install_terminal_def Let_def split: option.split)

text \<open>Only the timer of a size reports one.\<close>

lemma no_json_step: "e \<noteq> ResizeTimer \<Longrightarrow> no_json (snd (view_step w s e))"
proof (cases e)
  case (LinkText n t)
  then show ?thesis
    by (simp add: received_text_def if_current_def protocol_error_def session_ended_def Let_def split: option.split)
next
  case (LinkBytes n d)
  then show ?thesis
    by (simp add: received_binary_def if_current_def Let_def split: option.split sum.split action.split)
next
  case (TerminalData d)
  then show ?thesis by (simp add: terminal_data_def case_prod_beta Let_def split: option.split)
next
  case (TerminalBinary d)
  then show ?thesis by (simp add: terminal_data_def case_prod_beta Let_def split: option.split)
next
  case Submit
  then show ?thesis by (simp add: composer_submit_def case_prod_beta Let_def split: option.split)
next
  case (Paste t)
  then show ?thesis by (simp add: paste_text_def case_prod_beta Let_def)
qed (simp_all add: opened_def if_current_def closed_def conn_failed_def ready_fires_def reconnect_fires_def
      enter_key_def extra_key_def Let_def split: option.split list.split)

text \<open>How the connection can change: numbers are never used again, a link that is closing stays so, and
  the size last reported on a connection is kept while it lives.\<close>

definition ending :: "connection \<Rightarrow> bool" where
  "ending k \<longleftrightarrow> \<not> c_ready k < CLOSING"

definition evolves :: "view \<Rightarrow> view \<Rightarrow> bool" where
  "evolves s s' \<longleftrightarrow> next_conn s \<le> next_conn s' \<and>
     (\<forall>k'. conn s' = Some k' \<longrightarrow>
        next_conn s \<le> c_id k' \<and> c_id k' < next_conn s' \<or>
        (\<exists>k. conn s = Some k \<and> c_id k' = c_id k \<and>
           (ending k' \<or> \<not> ending k \<and> lastResize s' = lastResize s)))"

lemma evolves_refl [intro]: "evolves s s"
  by (auto simp: evolves_def)

lemma evolves_trans: "evolves s t \<Longrightarrow> evolves t u \<Longrightarrow> evolves s u"
  unfolding evolves_def by (fastforce dest: order_trans less_le_trans)

lemma evolves_and_then [intro]:
  "evolves s (fst r) \<Longrightarrow> (\<And>x. evolves x (fst (f x))) \<Longrightarrow> evolves s (fst (and_then r f))"
  by (simp add: evolves_trans)

lemma evolves_same:
  "\<lbrakk>next_conn s' = next_conn s; lastResize s' = lastResize s; map_option c_id (conn s') = map_option c_id (conn s);
    map_option c_ready (conn s') = map_option c_ready (conn s)\<rbrakk> \<Longrightarrow> evolves s s'"
  by (cases "conn s") (auto simp: evolves_def ending_def)

lemma evolves_if_current: "(\<And>k x. evolves x (fst (f k x))) \<Longrightarrow> evolves s (fst (if_current n f s))"
  by (auto simp: if_current_def split: option.split)

lemma evolves_fit [intro]: "evolves s (fst (fitTerminal s))"
  by (rule evolves_same) simp_all

lemma evolves_schedule [intro]: "evolves s (scheduleTerminalReconnect r s)"
  by (rule evolves_same) simp_all

lemma not_less_ready: "\<not> CLOSED < CLOSING" "\<not> CLOSING < (CLOSING :: ready_state)"
  by (simp_all add: less_CLOSING_iff)

lemma evolves_close [intro]: "evolves s (fst (socket_close s))"
  by (auto simp: evolves_def socket_close_def ending_def not_less_ready split: option.split)

lemma close_ending: "conn (fst (socket_close s)) = Some k \<Longrightarrow> ending k"
  by (auto simp: socket_close_def ending_def not_less_ready split: option.splits if_splits)

lemma evolves_connect [intro]: "evolves s (fst (connectTerminal r a s))"
  using evolves_close [of "s\<lparr>reconnectTimer := None, reconnectAttempts := (if a then reconnectAttempts s else 0)\<rparr>"]
    close_ending [of "s\<lparr>reconnectTimer := None, reconnectAttempts := (if a then reconnectAttempts s else 0)\<rparr>"]
  by (auto simp: connectTerminal_def open_connection_def Let_def evolves_def new_connection_def)

lemma evolves_reconnect [intro]: "evolves s (fst (reconnect_fires s))"
proof (cases "reconnectTimer s")
  case (Some p)
  have "evolves s (s\<lparr>reconnectTimer := None\<rparr>)" by (rule evolves_same) simp_all
  then show ?thesis
    using Some evolves_trans [OF _ evolves_schedule] evolves_trans [OF _ evolves_connect]
    by (auto simp: reconnect_fires_def Let_def split: prod.split)
qed (simp add: reconnect_fires_def evolves_refl)

lemma evolves_mark [intro]: "evolves s (fst (markReady n s))"
  by (rule evolves_same) (simp_all add: option.map_comp comp_def if_distrib cong: if_cong)

lemma evolves_applied [intro]: "evolves s (fst (applied p s))"
  by (rule evolves_same) simp_all

lemma evolves_closeConnection [intro]: "evolves s (fst (closeConnection s))"
  by (simp add: evolves_def closeConnection_def)

lemma evolves_login [intro]: "evolves s (fst (renderLogin m s))"
  unfolding renderLogin_def
  by (rule evolves_and_then) (auto intro: evolves_trans [OF evolves_same evolves_closeConnection] evolves_same simp: stopPolling_def)

lemma evolves_sessions [intro]: "evolves s (fst (renderSessions s))"
  unfolding renderSessions_def rememberPortalView_def
  by (intro evolves_and_then evolves_closeConnection)
     (auto intro!: evolves_same simp: startPolling_def stopPolling_def)

lemma evolves_page:
  "evolves s (fst (and_then (closeConnection (stopPolling s)) (\<lambda>s1. enter_page v f (s1\<lparr>selected := a, selectedWorkflow := b\<rparr>))))"
  "evolves s (fst (and_then (closeConnection (stopPolling s)) (\<lambda>s1. enter_page v f (s1\<lparr>selectedWorkflow := b\<rparr>))))"
proof -
  have a: "evolves s (fst (closeConnection (stopPolling s)))"
    by (rule evolves_trans [OF evolves_same evolves_closeConnection]) (simp_all add: stopPolling_def)
  show "evolves s (fst (and_then (closeConnection (stopPolling s)) (\<lambda>s1. enter_page v f (s1\<lparr>selected := a, selectedWorkflow := b\<rparr>))))"
    "evolves s (fst (and_then (closeConnection (stopPolling s)) (\<lambda>s1. enter_page v f (s1\<lparr>selectedWorkflow := b\<rparr>))))"
    by (rule evolves_and_then [OF a], rule evolves_same; simp add: enter_page_def rememberPortalView_def)+
qed

lemma evolves_install: "evolves s (fst (install_terminal r s))"
  unfolding install_terminal_def
  by (rule evolves_and_then) (auto intro: evolves_trans [OF evolves_same evolves_fit])

lemma evolves_terminal [intro]: "evolves s (fst (renderTerminal i f s))"
proof -
  have a: "evolves s (fst (closeConnection (stopPolling s)))"
    by (rule evolves_trans [OF evolves_same evolves_closeConnection]) (simp_all add: stopPolling_def)
  have b: "evolves x (fst (rememberPortalView v p q (x\<lparr>selected := c, selectedWorkflow := d\<rparr>)))" for x v p q c d
    by (rule evolves_same) (simp_all add: rememberPortalView_def)
  have c: "evolves x (fst (rememberPortalView v p q (x\<lparr>selected := c\<rparr>)))" for x v p q c
    by (rule evolves_same) (simp_all add: rememberPortalView_def)
  show ?thesis
    unfolding renderTerminal_def Let_def
    by (rule evolves_and_then [OF a])
       (auto split: option.split intro: evolves_trans [OF b evolves_install] evolves_trans [OF c evolves_install] simp: evolves_refl)
qed

lemma evolves_set_conn [intro]:
  "(\<And>k. c_id (f k) = c_id k \<and> c_ready (f k) = c_ready k) \<Longrightarrow> evolves s (set_conn f s)"
  by (rule evolves_same) (simp_all add: option.map_comp comp_def)

lemma evolves_link_ready [intro]: "CLOSING \<le> r \<or> conn_is n CONNECTING s \<Longrightarrow> evolves s (link_ready n r s)"
  by (cases r) (auto simp: link_ready_def evolves_def ending_def conn_is_def less_CLOSING_iff not_less_ready
      less_eq_ready_state_def less_ready_state_def split: option.splits)

lemma evolves_protocol [intro]: "evolves s (fst (protocol_error r s))"
  unfolding protocol_error_def by (intro evolves_and_then) auto

lemma evolves_snapshot [intro]: "evolves s (fst (applySnapshot n d s))"
proof -
  have w: "evolves x (x\<lparr>writes := ws\<rparr>)" "evolves x (x\<lparr>replyGate := g\<rparr>)" "evolves x (x\<lparr>replyGate := g, writes := ws\<rparr>)"
    for x g ws
    by (rule evolves_same; simp)+
  show ?thesis
    unfolding applySnapshot_def Let_def case_prod_beta
    by (rule evolves_if_current)
       (auto split: option.split intro: w evolves_refl evolves_trans [OF w(2) evolves_applied])
qed

lemma evolves_perform [intro]: "evolves s (fst (perform n r res s))"
proof -
  have c: "evolves s (set_conn (\<lambda>k. k\<lparr>c_stream := st\<rparr>) s)" for st
    by (rule evolves_set_conn) simp
  show ?thesis
    unfolding perform_def Let_def
    by (auto split: sum.split option.split action.split
        intro: c evolves_trans [OF c evolves_protocol] evolves_trans [OF c evolves_snapshot])
qed

lemma evolves_text: "evolves s (fst (received_text w n t s))"
proof -
  have c: "evolves x (clearReadyTimer x)" for x
    unfolding clearReadyTimer_def by (rule evolves_set_conn) simp
  have e: "evolves x (fst (session_ended w r v x))" for x r v
    by (rule evolves_same) (simp_all add: session_ended_def Let_def option.map_comp comp_def)
  show ?thesis
    unfolding received_text_def
    by (rule evolves_if_current)
       (auto split: option.split control.split intro: e evolves_trans [OF c evolves_perform] evolves_refl)
qed

lemma evolves_binary: "evolves s (fst (received_binary n d s))"
  unfolding received_binary_def Let_def
  by (rule evolves_if_current) (auto split: sum.split option.split action.split)

lemma evolves_opened: "evolves s (fst (opened n s))"
  unfolding opened_def
  by (intro evolves_if_current evolves_and_then) (auto intro: evolves_trans [OF evolves_same evolves_fit])

lemma evolves_closed: "evolves s (fst (closed n code s))"
proof -
  have c: "evolves x (clearReadyTimer x)" "evolves x ((clearReadyTimer x)\<lparr>authenticated := False\<rparr>)" for x
    by (rule evolves_same; simp add: clearReadyTimer_def option.map_comp comp_def)+
  show ?thesis
    unfolding closed_def Let_def
    by (rule evolves_if_current) (auto intro: c evolves_trans [OF c(1) evolves_schedule] evolves_trans [OF c(2) evolves_login])
qed

lemma evolves_failed: "evolves s (fst (conn_failed n s))"
  unfolding conn_failed_def clearReadyTimer_def
  by (rule evolves_if_current) (auto intro: evolves_trans [OF evolves_set_conn evolves_schedule])

lemma evolves_submit: "evolves s (fst (composer_submit s))"
proof -
  have a: "evolves s (scheduleTerminalReconnect r (setTerminalInputStatus m s))" for r m
    by (rule evolves_trans [OF _ evolves_schedule], rule evolves_same) (simp_all add: setTerminalInputStatus_def)
  have b: "evolves s (setTerminalInputStatus m s)" "evolves s (draft_typed t s)" for m t
    by (rule evolves_same; simp add: setTerminalInputStatus_def draft_typed_def)+
  show ?thesis
    by (auto simp: composer_submit_def case_prod_beta Let_def a b evolves_refl split: option.split)
qed

lemma evolves_step:
  assumes "e \<noteq> ResizeTimer"
  shows "evolves s (fst (view_step w s e))"
proof (cases e)
  case (LinkOpened n)
  then show ?thesis using evolves_trans [OF evolves_link_ready evolves_opened] by (simp add: evolves_refl)
next
  case (LinkClosed n code)
  have "evolves s (link_ready n CLOSED s)"
    by (rule evolves_link_ready) (simp add: less_eq_ready_state_def)
  then show ?thesis using evolves_trans [OF _ evolves_closed] LinkClosed by simp
next
  case (LinkClosing n)
  then show ?thesis by (simp add: evolves_link_ready)
next
  case SnapshotWritten
  have "evolves s (s\<lparr>writes := ps\<rparr>)" for ps by (rule evolves_same) simp_all
  then show ?thesis using SnapshotWritten evolves_trans [OF _ evolves_applied] by (auto split: list.split)
next
  case (ReadyTimer n)
  then show ?thesis by (auto simp: ready_fires_def intro!: evolves_if_current)
next
  case GoWorkflows
  then show ?thesis using evolves_page by (simp add: renderWorkflows_def)
next
  case (GoWorkflow i)
  then show ?thesis using evolves_page by (simp add: renderWorkflowDetail_def)
next
  case GoDesktop
  have "evolves s (fst (closeConnection (stopPolling s)))"
    by (rule evolves_trans [OF evolves_same evolves_closeConnection]) (simp_all add: stopPolling_def)
  then show ?thesis unfolding GoDesktop view_step.simps renderDesktop_def
    by (rule evolves_and_then) (auto intro: evolves_same simp: enter_page_def rememberPortalView_def)
next
  case (TerminalData d)
  show ?thesis unfolding TerminalData
    by (rule evolves_same) (simp_all add: terminal_data_def case_prod_beta Let_def split: option.split)
next
  case (TerminalBinary d)
  show ?thesis unfolding TerminalBinary
    by (rule evolves_same) (simp_all add: terminal_data_def case_prod_beta Let_def split: option.split)
next
  case (Paste t)
  show ?thesis unfolding Paste
    by (rule evolves_same) (simp_all add: paste_text_def setTerminalInputStatus_def case_prod_beta Let_def)
next
  case ModeButton
  show ?thesis unfolding ModeButton
    by (rule evolves_same) (simp_all add: mode_button_def applyInputMode_def saveTerminalInputMode_def Let_def)
next
  case (Draft t)
  show ?thesis unfolding Draft by (rule evolves_same) (simp_all add: draft_typed_def)
next
  case (StatusTimer t)
  show ?thesis unfolding StatusTimer by (rule evolves_same) (simp_all add: input_status_timeout_def)
qed (use assms evolves_text evolves_binary evolves_failed evolves_submit in
      \<open>auto simp: evolves_refl intro: evolves_same\<close>)

definition numbered :: "view \<Rightarrow> bool" where
  "numbered s \<longleftrightarrow> (\<forall>k. conn s = Some k \<longrightarrow> c_id k < next_conn s)"

definition spent :: "nat \<Rightarrow> view \<Rightarrow> bool" where
  "spent n s \<longleftrightarrow> n < next_conn s \<and> (\<forall>k. conn s = Some k \<longrightarrow> c_id k = n \<longrightarrow> ending k)"

lemma resize_fires_step:
  "evolves s (s'\<lparr>lastResize := lastResize s\<rparr>) \<and> conn s' = conn s \<and> next_conn s' = next_conn s \<and>
   (no_json outs \<and> lastResize s' = lastResize s \<or>
    (\<exists>k c r. conn s = Some k \<and> \<not> ending k \<and> outs = [SendJson (c_id k) (resize_message c r)] \<and>
       lastResize s \<noteq> Some (c, r) \<and> lastResize s' = Some (c, r)))"
  if "resize_fires s = (s', outs)"
  using that by (auto simp: resize_fires_def Let_def ending_def less_CLOSING_iff evolves_same split: option.splits if_splits prod.splits)

lemma numbered_step: "numbered s \<Longrightarrow> numbered (fst (view_step w s e))"
proof (cases "e = ResizeTimer")
  case True
  assume "numbered s"
  with True resize_fires_step [OF surjective_pairing, of s] show ?thesis by (simp add: numbered_def)
next
  case False
  assume "numbered s"
  with evolves_step [OF False, of s w] show ?thesis by (fastforce simp: numbered_def evolves_def)
qed

lemma spent_step: "spent n s \<Longrightarrow> spent n (fst (view_step w s e))"
proof (cases "e = ResizeTimer")
  case True
  assume "spent n s"
  with True resize_fires_step [OF surjective_pairing, of s] show ?thesis by (simp add: spent_def)
next
  case False
  assume "spent n s"
  with evolves_step [OF False, of s w] show ?thesis by (fastforce simp: spent_def evolves_def)
qed

lemma resizes_run:
  fixes w n
  defines "sent \<equiv> \<lambda>es s. resizes n (snd (view_run w s es))"
  assumes "numbered s"
  shows "distinct_adj (sent es s) \<and> (spent n s \<longrightarrow> sent es s = []) \<and>
    (\<forall>k c r. conn s = Some k \<longrightarrow> c_id k = n \<longrightarrow> lastResize s = Some (c, r) \<longrightarrow>
       sent es s = [] \<or> hd (sent es s) \<noteq> resize_message c r)"
  using assms(2)
proof (induction es arbitrary: s)
  case Nil
  then show ?case by (simp add: sent_def)
next
  case (Cons e es)
  define s' where "s' = fst (view_step w s e)"
  note num = numbered_step [OF Cons.prems, of w e, folded s'_def]
  note IH = Cons.IH [OF num]
  have run: "sent (e # es) s = resizes n (snd (view_step w s e)) @ sent es s'"
    by (simp add: sent_def s'_def del: view_step.simps)
  have spent: "spent n s \<Longrightarrow> spent n s'" unfolding s'_def by (rule spent_step)
  have now: "k = j" if "conn s = Some k" "conn s = Some j" for k j using that by simp
  show ?case
  proof (cases "no_json (snd (view_step w s e)) \<and> (e \<noteq> ResizeTimer \<or> lastResize s' = lastResize s)")
    case True
    then have same: "sent (e # es) s = sent es s'" using run by (simp add: no_json_resizes del: view_step.simps)
    have ev: "evolves s s'"
    proof (cases "e = ResizeTimer")
      case True
      then show ?thesis
        using resize_fires_step [OF surjective_pairing, of s] \<open>no_json _ \<and> _\<close> unfolding s'_def
        by (auto intro: evolves_same)
    qed (simp add: s'_def evolves_step del: view_step.simps)
    have "sent es s' = [] \<or> hd (sent es s') \<noteq> resize_message c r"
      if k: "conn s = Some k" "c_id k = n" and last: "lastResize s = Some (c, r)" for k c r
    proof (cases "spent n s'")
      case False
      then obtain k' where k': "conn s' = Some k'" "c_id k' = n" "\<not> ending k'"
        using ev Cons.prems k by (auto simp: spent_def numbered_def evolves_def)
      then have "lastResize s' = lastResize s"
        using ev Cons.prems k by (auto simp: evolves_def numbered_def)
      then show ?thesis using IH k' last by metis
    qed (use IH in blast)
    then show ?thesis using IH spent unfolding same by blast
  next
    case False
    have e: "e = ResizeTimer" using False no_json_step [of e w s] by blast
    then obtain k c r where k: "conn s = Some k" "\<not> ending k" "lastResize s \<noteq> Some (c, r)"
      and out: "snd (view_step w s e) = [SendJson (c_id k) (resize_message c r)]"
      and s': "lastResize s' = Some (c, r)" "conn s' = conn s"
      using False resize_fires_step [OF surjective_pairing, of s] unfolding s'_def by auto
    show ?thesis
    proof (cases "c_id k = n")
      case True
      then have "sent (e # es) s = resize_message c r # sent es s'"
        unfolding run out by (simp add: resizes_def)
      moreover have "sent es s' = [] \<or> hd (sent es s') \<noteq> resize_message c r"
        using IH k(1) s' True by metis
      moreover have "\<not> spent n s" using k True by (auto simp: spent_def)
      ultimately show ?thesis using IH k(3) by (auto simp: distinct_adj_Cons)
    next
      case False
      then have "sent (e # es) s = sent es s'" unfolding run out by (simp add: resizes_def)
      then show ?thesis using IH spent False k(1) by auto
    qed
  qed
qed

text \<open>A size is reported once: on every connection, in every run, no two successive size messages
  are equal, however often the layout is fitted and whenever the timers fire.\<close>

theorem sizes_reported_once:
  assumes "numbered s"
  shows "distinct_adj (resizes n (snd (view_run w s es)))"
  using resizes_run [OF assms] by simp

section \<open>Typing during a replay, and a replay that outlives its connection\<close>

definition is_send :: "vout \<Rightarrow> bool" where
  "is_send v \<longleftrightarrow> (case v of SendData _ _ \<Rightarrow> True | _ \<Rightarrow> False)"

lemma replay_holds:
  assumes "replyGate s = Some g" "replaying g"
  shows "view_run w s (map TerminalData ds) = (s\<lparr>replyGate := Some (g\<lparr>held := last_small (held g) ds\<rparr>)\<rparr>, [])"
  using assms
proof (induction ds arbitrary: s g)
  case Nil
  then show ?case by simp
next
  case (Cons d ds)
  have "view_step w s (TerminalData d) =
      (s\<lparr>replyGate := Some (g\<lparr>held := (if small_reply d then Some d else held g)\<rparr>)\<rparr>, [])"
    using Cons.prems by (auto simp: terminal_data_def gate_receive_def small_reply_def Let_def)
  then show ?case
    using Cons.IH [of "s\<lparr>replyGate := Some (g\<lparr>held := (if small_reply d then Some d else held g)\<rparr>)\<rparr>"] Cons.prems(2)
    by (simp add: run_steps.simps(2) del: view_step.simps)
qed

lemma silent_ready [simp]: "filter is_send (snd (markReady n s)) = []"
proof -
  have "filter is_send (snd (fitTerminal x)) = []" for x
    by (rule fit_filter) (simp_all add: is_send_def)
  then show ?thesis by (simp add: markReady_def if_current_def Let_def split: option.split)
qed

text \<open>What is typed while a snapshot is replayed is lost but for its last piece: keys pass the same
  gate as the emulator's replies, so of all that the emulator hands out between the write of a snapshot
  and its completion, only the last piece of 1 to 4096 bytes is sent.\<close>

theorem typing_during_replay:
  assumes "conn s = Some k" "c_ready k = OPEN" "terminal s = Some t" "replyGate s = Some g" "writes s = []"
    and "snapshot \<noteq> []"
  shows "filter is_send (snd (and_then (applySnapshot (c_id k) snapshot s)
           (\<lambda>s1. view_run w s1 (map TerminalData ds @ [SnapshotWritten])))) =
         (case last_small None ds of None \<Rightarrow> [] | Some d \<Rightarrow> [SendData (c_id k) (Buf d)])"
proof -
  let ?s1 = "fst (applySnapshot (c_id k) snapshot s)"
  obtain p where p: "writes ?s1 = [p]" "p_conn p = c_id k" "p_term p = t" "p_generation p = Some (generation g + 1)"
    and s1: "replyGate ?s1 = Some \<lparr>generation = generation g + 1, replaying = True, held = None, \<dots> = reply_gate.more g\<rparr>"
      "conn ?s1 = Some k" "terminal ?s1 = Some t"
    and out: "snd (applySnapshot (c_id k) snapshot s) = [TermReset, TermWrite snapshot]"
    using assms by (simp add: applySnapshot_def if_current_def beginSnapshot_def Let_def)
  let ?g = "\<lparr>generation = generation g + 1, replaying = True, held = last_small None ds, \<dots> = reply_gate.more g\<rparr>"
  have run: "view_run w ?s1 (map TerminalData ds) = (?s1\<lparr>replyGate := Some ?g\<rparr>, [])"
    using replay_holds [OF s1(1), of w ds] by simp
  have "filter is_send (snd (view_step w (?s1\<lparr>replyGate := Some ?g\<rparr>) SnapshotWritten)) =
      (case last_small None ds of None \<Rightarrow> [] | Some d \<Rightarrow> [SendData (c_id k) (Buf d)])"
    using p s1 assms(2)
    by (simp add: applied_def if_current_def finish_replay_def finishSnapshot_def Let_def is_send_def split: option.split)
  then show ?thesis
    by (simp add: out is_send_def run_steps_append run del: view_step.simps)
qed

text \<open>A replay that outlives its connection shows a dead terminal as live: when the emulator finishes
  writing a snapshot after its link has closed, the page says online and enables the composer and its
  keys, although the link is closed, so nothing typed is sent.\<close>

theorem closed_terminal_shown_live:
  assumes "conn s = Some k" "c_ready k = CLOSED" "\<not> c_ended k" "has_bar (ui s)" "has_composer (ui s)"
    and "writes s = p # ps" "p_conn p = c_id k" "terminal s = Some (p_term p)"
  shows "let s' = fst (view_step w s SnapshotWritten) in
    bar_kind (ui s') = Online \<and> connected (ui s') \<and> \<not> keys_disabled (ui s') \<and> \<not> socket_open s' \<and>
    sendTerminalInput t s' = ([], False) \<and> reconnectTimer s' = reconnectTimer s"
proof -
  let ?s' = "fst (view_step w s SnapshotWritten)"
  have "map_option c_ready (conn ?s') = Some CLOSED"
    using assms(1,2,6) by simp
  then obtain k' where k': "conn ?s' = Some k'" "c_ready k' = CLOSED" by auto
  have "bar_kind (ui ?s') = Online \<and> connected (ui ?s') \<and> \<not> keys_disabled (ui ?s')"
    using assms by (simp add: applied_def if_current_def markReady_def clearReadyTimer_def set_conn_def
        setConnectionState_def case_prod_beta Let_def)
  then show ?thesis
    using k' assms(6) by (simp add: Let_def socket_open_def sendTerminalInput_def)
qed

section \<open>A terminal page to evaluate\<close>

lemma numbered_initial: "numbered (initial_view v sel flow)"
  by (simp add: numbered_def initial_view_def)

definition demo_session :: session where
  "demo_session = \<lparr>ses_id = js ''s1'', ses_name = js ''shell'', command = [js ''zsh''], ses_cwd = js ''/tmp'',
     startedAt = [], endedAt = None, running = True, exitCode = None, signal = None, ses_rows = Fin 24,
     ses_cols = Fin 80, viewer = None\<rparr>"

definition demo_env :: js_env where
  "demo_env = \<lparr>parse = (\<lambda>_. None), show_num = (\<lambda>_. [])\<rparr>"

text \<open>The page of one running session whose link has just opened.\<close>

definition demo_page :: view where
  "demo_page =
     (initial_view ViewTerminal (Some (js ''s1'')) None)\<lparr>authenticated := True, bridge_up := True, resume_key := True,
        objects := (\<lambda>_. demo_session), sessions := [0], on_page := True, terminal := Some 0, next_terminal := 1,
        terminalSessionID := Some (js ''s1''), replyGate := Some new_gate, fit_loaded := True, fitted := Some (100, 30),
        conn := Some ((new_connection 0 0 True False)\<lparr>c_ready := OPEN\<rparr>), next_conn := 1, ui := terminal_ui\<rparr>"

lemmas demo_simps = demo_page_def initial_view_def new_connection_def demo_session_def new_stream_def

lemma demo_streaming: "streaming 0 new_stream demo_page"
  by (simp add: streaming_def demo_simps)

theorem lost_terminal_is_retried_witness:
  "let s1 = fst (view_step demo_env demo_page (LinkClosed 0 1012)); r = view_run demo_env s1 [Fit, StatusTimer []] in
   reconnectTimer s1 = Some (500, 0) \<and>
   (list_ex retries (snd r) \<or>
    reconnectTimer (fst r) \<noteq> None \<and> list_ex retries (snd (view_step demo_env (fst r) ReconnectTimer)))"
proof -
  define k where "k = (new_connection 0 0 True False)\<lparr>c_ready := OPEN\<rparr>"
  have k: "conn demo_page = Some k" "c_ready k \<noteq> CLOSED" "c_id k = 0" "c_session k = 0"
    by (simp_all add: demo_simps k_def)
  have r: "may_reconnect (c_session k) demo_page" "reconnectTimer demo_page = None"
    "encryptedPortal demo_page \<longrightarrow> resume_key demo_page" "(1012 :: int) \<noteq> 1008"
    "list_all (\<lambda>e. \<not> leaves_page e) [Fit, StatusTimer []]" "reconnectAttempts demo_page = 0"
    by (simp_all add: demo_simps may_reconnect_def k_def leaves_page_def)
  from lost_terminal_is_retried [OF k(1,2) r(1-5) refl surjective_pairing [symmetric], of demo_env]
  show ?thesis using k(3,4) r(6) by (simp add: Let_def del: view_step.simps run_steps_Cons)
qed


theorem terminal_shows_stream_witness:
  "let display = filter is_screen (snd (view_run demo_env demo_page [LinkBytes 0 [1, 2], Fit, SnapshotWritten, LinkBytes 0 [3]])) in
   (\<exists>ds. display = TermReset # map TermWrite ds) \<and> screen_bytes display = [1, 2, 3]"
proof -
  let ?es = "[LinkBytes 0 [1, 2], Fit, SnapshotWritten, LinkBytes 0 [3]]"
  have u: "list_all (undisturbed demo_env 0) ?es"
    by (simp add: undisturbed_def enters_def)
  have f: "[Binary [1, 2], Binary [3]] = concat (map (frame_of demo_env 0) ?es)"
    by (simp add: frame_of_def)
  have r: "stream_run new_stream [Binary [1, 2], Binary [3]] =
      (new_stream\<lparr>phase := InLive\<rparr>, [Snapshot [1, 2], Live [3]], None)"
    by (simp add: new_stream_def receiveBinary_def)
  from terminal_shows_stream [OF demo_streaming u f r refl] show ?thesis
    by (simp add: Let_def new_stream_def waitingForSnapshot_def del: view_step.simps run_steps_Cons)
qed

theorem sizes_reported_once_witness:
  "distinct_adj (resizes 0 (snd (view_run demo_env demo_page [Fit, ResizeTimer, Fit, ResizeTimer])))"
  by (rule sizes_reported_once) (simp add: numbered_def demo_simps)

theorem typing_during_replay_witness:
  "filter is_send (snd (and_then (applySnapshot 0 [7] demo_page)
     (\<lambda>s1. view_run demo_env s1 (map TerminalData [[97], [98]] @ [SnapshotWritten])))) = [SendData 0 (Buf [98])]"
proof -
  define k where "k = (new_connection 0 0 True False)\<lparr>c_ready := OPEN\<rparr>"
  have k: "conn demo_page = Some k" "c_ready k = OPEN" "c_id k = 0" "terminal demo_page = Some 0"
    "replyGate demo_page = Some new_gate" "writes demo_page = []" "[7 :: u8] \<noteq> []"
    by (simp_all add: demo_simps k_def)
  have "last_small None [[97], [98]] = Some [98]"
    by (simp add: small_reply_def MAX_HELD_TERMINAL_REPLY_BYTES_def)
  with typing_during_replay [OF k(1,2,4-7), of demo_env "[[97], [98]]"] show ?thesis
    by (simp only: k(3) option.case)
qed

text \<open>The state in which it happens is reached: a snapshot arrives, the link closes, the write completes.\<close>

theorem closed_terminal_shown_live_witness:
  "let s = fst (view_run demo_env demo_page [LinkBytes 0 [1], LinkClosed 0 1012]);
       s' = fst (view_step demo_env s SnapshotWritten) in
   bar_kind (ui s') = Online \<and> connected (ui s') \<and> \<not> keys_disabled (ui s') \<and> \<not> socket_open s' \<and>
   sendTerminalInput (js ''ls'') s' = ([], False) \<and> reconnectTimer s' = Some (500, 0)"
proof -
  define s where "s = fst (view_run demo_env demo_page [LinkBytes 0 [1], LinkClosed 0 1012])"
  define p where "p = \<lparr>p_conn = 0, p_term = 0, p_generation = Some 1, p_atBottom = True, p_distance = 0\<rparr>"
  define k where "k = (new_connection 0 0 True False)\<lparr>c_ready := CLOSED, c_stream := new_stream\<lparr>phase := InLive\<rparr>\<rparr>"
  have less: "OPEN < CLOSED" by (simp add: less_ready_state_def)
  have s: "conn s = Some k" "has_bar (ui s)" "has_composer (ui s)" "writes s = [p]" "terminal s = Some 0"
    "reconnectTimer s = Some (500, 0)"
    by (simp_all add: s_def k_def p_def demo_simps conn_is_def received_binary_def receiveBinary_def if_current_def perform_def
        applySnapshot_def beginSnapshot_def new_gate_def set_conn_def Let_def link_ready_def less closed_def clearReadyTimer_def
        scheduleTerminalReconnect_def may_reconnect_def reconnect_delay_def setConnectionState_def terminal_ui_def)
  have p: "c_ready k = CLOSED" "\<not> c_ended k" "p_conn p = c_id k" "terminal s = Some (p_term p)"
    using s(5) by (simp_all add: k_def p_def new_connection_def)
  from closed_terminal_shown_live [OF s(1) p(1,2) s(2,3,4) p(3,4), of demo_env "js ''ls''"]
  show ?thesis unfolding s_def [symmetric] Let_def s(6) .
qed

end
