(* ===== verification/Runs.thy ===== *)
theory Runs
  imports JsPrelude
begin

text \<open>
  Runs of the state machines whose invariant needs something of the events: a run is guarded if every event is
  allowed in the state in which it happens. The interface says what one step owes, and is interpreted in the
  theories of the components on their step functions.
\<close>

fun guarded :: "('s \<Rightarrow> 'e \<Rightarrow> 's \<times> 'o list) \<Rightarrow> ('s \<Rightarrow> 'e \<Rightarrow> bool) \<Rightarrow> 's \<Rightarrow> 'e list \<Rightarrow> bool" where
  "guarded step ok s [] = True"
| "guarded step ok s (e # es) = (ok s e \<and> guarded step ok (fst (step s e)) es)"

lemma guarded_append:
  "guarded step ok s (es @ fs) \<longleftrightarrow> guarded step ok s es \<and> guarded step ok (fst (run_steps step s es)) fs"
  by (induction es arbitrary: s) auto

lemma guarded_all: "(\<And>s e. e \<in> set es \<Longrightarrow> ok s e) \<Longrightarrow> guarded step ok s es"
  by (induction es arbitrary: s) auto

text \<open>An output of a run is an output of one of its steps.\<close>

lemma run_output_split:
  "out \<in> set (snd (run_steps step s es)) \<Longrightarrow>
   \<exists>pre e post. es = pre @ e # post \<and> out \<in> set (snd (step (fst (run_steps step s pre)) e))"
proof (induction es arbitrary: s)
  case (Cons e es)
  show ?case
  proof (cases "out \<in> set (snd (step s e))")
    case True
    then show ?thesis by (intro exI [of _ "[]"]) auto
  next
    case False
    then have "out \<in> set (snd (run_steps step (fst (step s e)) es))" using Cons.prems by simp
    from Cons.IH [OF this] obtain pre x post where
      "es = pre @ x # post" "out \<in> set (snd (step (fst (run_steps step (fst (step s e)) pre)) x))" by blast
    then show ?thesis by (intro exI [of _ "e # pre"] exI [of _ x] exI [of _ post]) simp
  qed
qed simp

locale guarded_machine =
  fixes step :: "'s \<Rightarrow> 'e \<Rightarrow> 's \<times> 'o list"
    and inv :: "'s \<Rightarrow> bool"
    and ok :: "'s \<Rightarrow> 'e \<Rightarrow> bool"
  assumes step_inv: "inv s \<Longrightarrow> ok s e \<Longrightarrow> inv (fst (step s e))"
begin

lemma run_inv: "inv s \<Longrightarrow> guarded step ok s es \<Longrightarrow> inv (fst (run_steps step s es))"
  by (induction es arbitrary: s) (auto intro: step_inv)

end

text \<open>A machine whose outputs keep a promise as long as the invariant holds.\<close>

locale guarded_outputs = guarded_machine step inv ok
  for step :: "'s \<Rightarrow> 'e \<Rightarrow> 's \<times> 'o list" and inv :: "'s \<Rightarrow> bool" and ok :: "'s \<Rightarrow> 'e \<Rightarrow> bool" +
  fixes good :: "'s \<Rightarrow> 'o \<Rightarrow> bool"
  assumes step_good: "inv s \<Longrightarrow> ok s e \<Longrightarrow> out \<in> set (snd (step s e)) \<Longrightarrow> good s out"
begin

text \<open>Every output of a guarded run is good in the state in which it is made.\<close>

lemma run_good:
  assumes "inv s" "guarded step ok s es" "out \<in> set (snd (run_steps step s es))"
  shows "\<exists>pre e post. es = pre @ e # post \<and> out \<in> set (snd (step (fst (run_steps step s pre)) e)) \<and>
    good (fst (run_steps step s pre)) out"
proof -
  obtain pre e post where r: "es = pre @ e # post" "out \<in> set (snd (step (fst (run_steps step s pre)) e))"
    using run_output_split [OF assms(3)] by blast
  have "inv (fst (run_steps step s pre))" "ok (fst (run_steps step s pre)) e"
    using assms(1,2) run_inv [of s pre] unfolding r(1) by (auto simp: guarded_append)
  then show ?thesis using r step_good by blast
qed

end

end
