(* ===== verification/TerminalPage.thy ===== *)
theory TerminalPage
  imports TabOrder TouchScroll TerminalSafety Runs
begin

text \<open>
  What stands around the terminal on its page, in \<open>main.ts\<close>: the back button, the menu, the tabs, the
  attachment button and the keys of the composer (\<open>renderTerminal\<close>, \<open>renderTerminalTabs\<close>,
  \<open>renderTerminalComposer\<close>). The connection and the emulator below are the view of \<open>TerminalConn\<close>; the
  actions of the menu that ask the daemon go on in \<open>Dashboard\<close>.

  The properties: the back button leads to where the terminal was opened from, whatever happened to the
  page; the tabs are the running terminals with exactly the shown one marked; a press of a tab moves the
  connection; the menu reaches only the session it was built for.
\<close>

section \<open>Tabs\<close>

record tab_item =
  tab_id :: jsstring
  tab_name :: jsstring
  tab_hint :: jsstring
  tab_shown :: bool

definition tab_item_of :: "jsstring \<Rightarrow> session \<Rightarrow> tab_item" where
  "tab_item_of active s =
     \<lparr>tab_id = ses_id s, tab_name = ses_name s, tab_hint = ses_name s @ mid_dot @ shortCommand (command s),
       tab_shown = (ses_id s = active)\<rparr>"

definition tab_label :: "nat \<Rightarrow> nat \<Rightarrow> jsstring \<Rightarrow> jsstring" where
  "tab_label position setsize name =
     (if name = [] then js ''terminal'' else name) @ js '', tab '' @ nat_text position @ js '' of '' @ nat_text setsize @
     js ''. Hold the drag grip or press Alt and an arrow key to reposition.''"

text \<open>The labels that \<open>updateTerminalTabPositions\<close> gives, each with its number.\<close>

definition updateTerminalTabPositions :: "tab_item list \<Rightarrow> (jsstring \<times> jsstring) list" where
  "updateTerminalTabPositions ts =
     map (\<lambda>(i, t). (nat_text (i + 1), tab_label (i + 1) (length ts) (tab_name t))) (enumerate 0 ts)"

record page_env =
  pe_js :: js_env
  pe_stringify :: "json \<Rightarrow> jsstring"
  pe_writable :: bool

definition renderTerminalTabs :: "page_env \<Rightarrow> jsstring \<Rightarrow> jsstring option \<Rightarrow> session list \<Rightarrow> tab_item list \<times> jsstring option" where
  "renderTerminalTabs w active entry ss =
     (let (ordered, entry') = orderedRunningSessions (parse (pe_js w)) (pe_stringify w) (pe_writable w) entry ss
      in (map (tab_item_of active) ordered, entry'))"

section \<open>The page\<close>

text \<open>\<open>page_ref\<close> is the session object that the handlers of the page have captured.\<close>

record terminal_page =
  tpv :: view
  page_ref :: nat
  menu_open :: bool
  back_label :: jsstring
  stop_enabled :: bool
  shown_name :: jsstring
  tab_list :: "tab_item list"
  tab_entry :: "jsstring option"               \<comment> \<open>the order of the tabs in local storage\<close>

datatype menu_choice = ViewerChoice | RenameChoice | FavouriteChoice | CopyShellChoice | StopChoice

datatype page_out = PageOut vout | Chosen menu_choice nat | CopyText jsstring | PickFiles bool

type_synonym page_result = "terminal_page \<times> page_out list"

definition view_sessions :: "view \<Rightarrow> session list" where
  "view_sessions v = map (objects v) (sessions v)"

text \<open>What \<open>renderTerminal\<close> builds around a session it has found.\<close>

definition build_page :: "page_env \<Rightarrow> nat \<Rightarrow> view \<Rightarrow> terminal_page \<Rightarrow> terminal_page" where
  "build_page w ref v p =
     (let s = objects v ref; (tabs, entry) = renderTerminalTabs w (ses_id s) (tab_entry p) (view_sessions v) in
      \<lparr>tpv = v, page_ref = ref, menu_open = False,
       back_label = (if selectedWorkflow v \<noteq> None \<and> selectedWorkflow v \<noteq> Some [] then js ''Back to AI workflow''
                     else js ''Back to sessions''),
       stop_enabled = running s, shown_name = ses_name s, tab_list = tabs, tab_entry = entry\<rparr>)"

definition on_view_p :: "(view \<Rightarrow> v_result) \<Rightarrow> terminal_page \<Rightarrow> page_result" where
  "on_view_p f p = (let (v, outs) = f (tpv p) in (p\<lparr>tpv := v\<rparr>, map PageOut outs))"

text \<open>A terminal that is not in the list any more leads to the sessions.\<close>

definition open_terminal :: "page_env \<Rightarrow> jsstring \<Rightarrow> jsstring option \<Rightarrow> terminal_page \<Rightarrow> page_result" where
  "open_terminal w i flow p =
     (let (v, outs) = renderTerminal i flow (tpv p) in
      (case find_session i (tpv p) of
         Some ref \<Rightarrow> build_page w ref v p
       | None \<Rightarrow> p\<lparr>tpv := v\<rparr>, map PageOut outs))"

text \<open>\<open>openWorkflowTerminal\<close>, once its sessions are loaded: whatever page is shown by then.\<close>

definition openWorkflowTerminal :: "page_env \<Rightarrow> jsstring \<Rightarrow> jsstring \<Rightarrow> terminal_page \<Rightarrow> page_result" where
  "openWorkflowTerminal w room i p =
     (if find_session i (tpv p) = None then on_view_p renderWorkflows p else open_terminal w i (Some room) p)"

definition back_press :: "terminal_page \<Rightarrow> page_result" where
  "back_press p =
     (case selectedWorkflow (tpv p) of
        Some i \<Rightarrow> if i = [] then on_view_p renderSessions p else on_view_p (renderWorkflowDetail i) p
      | None \<Rightarrow> on_view_p renderSessions p)"

text \<open>
  A press on a tab is a click that the gestures of \<open>TabOrder\<close> have not suppressed.
\<close>

definition tab_press :: "page_env \<Rightarrow> jsstring \<Rightarrow> terminal_page \<Rightarrow> page_result" where
  "tab_press w i p =
     (case find (\<lambda>t. tab_id t = i) (tab_list p) of
        None \<Rightarrow> (p, [])
      | Some t \<Rightarrow> if tab_shown t then (p, []) else open_terminal w i None p)"

text \<open>An entry of the menu closes it; Reconnect leaves it open. The button that stops the session is disabled
  where the session had ended when the page was built.\<close>

definition menu_press :: "menu_choice \<Rightarrow> terminal_page \<Rightarrow> page_result" where
  "menu_press c p =
     (if \<not> menu_open p \<or> c = StopChoice \<and> \<not> stop_enabled p then (p, [])
      else (p\<lparr>menu_open := False\<rparr>, [Chosen c (page_ref p)]))"

definition reconnect_press :: "terminal_page \<Rightarrow> page_result" where
  "reconnect_press p = (if menu_open p then on_view_p (connectTerminal (page_ref p) False) p else (p, []))"

definition copy_press :: "buffer_line list \<Rightarrow> nat \<Rightarrow> nat \<Rightarrow> terminal_page \<Rightarrow> page_result" where
  "copy_press buffer viewport height p =
     (if \<not> menu_open p then (p, [])
      else (p\<lparr>menu_open := False\<rparr>,
            if terminal (tpv p) = None then [] else [CopyText (terminalVisibleText buffer viewport height)]))"

text \<open>The end of \<open>copyVisibleTerminalOutput\<close>.\<close>

definition screen_copied :: "bool \<Rightarrow> terminal_page \<Rightarrow> terminal_page" where
  "screen_copied copied p =
     p\<lparr>tpv := setTerminalInputStatus (if copied then js ''Screen copied'' else js ''Hold terminal text to select'') (tpv p)\<rparr>"

text \<open>The answer of a renaming asked for on a terminal page: the name goes into the session of that page, and into
  the heading and the marked tab of the page that is shown by then.\<close>

definition renamed_here :: "nat \<Rightarrow> jsstring \<Rightarrow> terminal_page \<Rightarrow> terminal_page" where
  "renamed_here ref name p =
     (let p1 = p\<lparr>tpv := (tpv p)\<lparr>objects := (objects (tpv p))(ref := (objects (tpv p) ref)\<lparr>ses_name := name\<rparr>)\<rparr>\<rparr> in
      if \<not> on_page (tpv p) then p1
      else p1\<lparr>shown_name := name, tab_list := map (\<lambda>t. if tab_shown t then t\<lparr>tab_name := name\<rparr> else t) (tab_list p)\<rparr>)"

text \<open>The attachment button asks for files, to be typed into the terminal in the direct mode.\<close>

definition attach_press :: "terminal_page \<Rightarrow> page_result" where
  "attach_press p = (p, [PickFiles (inputMode (tpv p) = Direct)])"

text \<open>The Enter key in the composer submits, unless it is shifted or ends a composition.\<close>

definition composer_key :: "bool \<Rightarrow> bool \<Rightarrow> bool \<Rightarrow> terminal_page \<Rightarrow> page_result" where
  "composer_key enter shift isComposing p =
     (if \<not> enter \<or> shift \<or> isComposing then (p, []) else on_view_p composer_submit p)"

datatype terminal_event =
    Inside vevent
  | BackPress | AllSessions | TabPress jsstring | TabsReordered "tab_item list" "jsstring option"
  | MenuPress | MenuEntry menu_choice | ReconnectPress | CopyPress "buffer_line list" nat nat | ScreenCopied bool
  | RenamedHere nat jsstring | AttachPress | ComposerKey bool bool bool
  | OpenTerminal jsstring "jsstring option"     \<comment> \<open>from another page\<close>
  | RoomTerminalLoaded jsstring jsstring        \<comment> \<open>the answer to a button of a room\<close>

text \<open>The buttons are those of a terminal page; an answer finds the document whatever it shows. The gestures of
  \<open>TabOrder\<close> permute the tabs.\<close>

definition page_step :: "page_env \<Rightarrow> terminal_page \<Rightarrow> terminal_event \<Rightarrow> page_result" where
  "page_step w p e =
     (case e of
        Inside x \<Rightarrow> on_view_p (\<lambda>v. view_step (pe_js w) v x) p
      | ScreenCopied copied \<Rightarrow> (screen_copied copied p, [])
      | RenamedHere ref name \<Rightarrow> (renamed_here ref name p, [])
      | RoomTerminalLoaded room i \<Rightarrow> openWorkflowTerminal w room i p
      | OpenTerminal i flow \<Rightarrow> if on_page (tpv p) then (p, []) else open_terminal w i flow p
      | _ \<Rightarrow>
          if \<not> on_page (tpv p) then (p, [])
          else case e of
                 BackPress \<Rightarrow> back_press p
               | AllSessions \<Rightarrow> on_view_p renderSessions p
               | TabPress i \<Rightarrow> tab_press w i p
               | TabsReordered ts entry \<Rightarrow>
                   if mset ts = mset (tab_list p) then (p\<lparr>tab_list := ts, tab_entry := entry\<rparr>, []) else (p, [])
               | MenuPress \<Rightarrow> (p\<lparr>menu_open := \<not> menu_open p\<rparr>, [])
               | MenuEntry c \<Rightarrow> menu_press c p
               | ReconnectPress \<Rightarrow> reconnect_press p
               | CopyPress buffer viewport height \<Rightarrow> copy_press buffer viewport height p
               | AttachPress \<Rightarrow> attach_press p
               | ComposerKey enter shift isComposing \<Rightarrow> composer_key enter shift isComposing p
               | _ \<Rightarrow> (p, []))"

end
