(* ===== verification/TerminalPageSafety.thy ===== *)
theory TerminalPageSafety
  imports TerminalPage
begin

text \<open>
  Properties of the page around the terminal: where the back button leads, what the menu and the tabs reach,
  and which terminal a late renaming labels.
\<close>

section \<open>Where a page was opened from\<close>

definition place :: "view \<Rightarrow> bool \<times> portal_view \<times> jsstring option \<times> jsstring option" where
  "place s = (on_page s, view_name s, selectedWorkflow s, selected s)"

lemma place_eq:
  "place s' = place s \<longleftrightarrow> on_page s' = on_page s \<and> view_name s' = view_name s \<and> selectedWorkflow s' = selectedWorkflow s \<and> selected s' = selected s"
  by (auto simp: place_def)

text \<open>What the events of the page leave alone: the place, and the identifiers of the session objects.\<close>

lemma place_frame [simp]:
  "view_name (fst (fitTerminal s)) = view_name s" "selectedWorkflow (fst (fitTerminal s)) = selectedWorkflow s"
  "view_name (scheduleTerminalReconnect r s) = view_name s"
  "selectedWorkflow (scheduleTerminalReconnect r s) = selectedWorkflow s"
  "view_name (fst (socket_close s)) = view_name s" "selectedWorkflow (fst (socket_close s)) = selectedWorkflow s"
  "view_name (set_conn f s) = view_name s" "selectedWorkflow (set_conn f s) = selectedWorkflow s"
  "view_name (fst (finish_replay g s)) = view_name s" "selectedWorkflow (fst (finish_replay g s)) = selectedWorkflow s"
  by (simp_all add: fitTerminal_def scheduleTerminalReconnect_def socket_close_def set_conn_def finish_replay_def
      case_prod_beta Let_def split: option.split prod.split)

lemma place_link_ready [simp]:
  "view_name (link_ready n r s) = view_name s" "selectedWorkflow (link_ready n r s) = selectedWorkflow s"
  "on_page (link_ready n r s) = on_page s" "selected (link_ready n r s) = selected s" "objects (link_ready n r s) = objects s"
  by (simp_all add: link_ready_def split: option.split)

lemma place_markReady [simp]:
  "view_name (fst (markReady n s)) = view_name s" "selectedWorkflow (fst (markReady n s)) = selectedWorkflow s"
  by (simp_all add: markReady_def if_current_def clearReadyTimer_def Let_def split: option.split)

lemma place_applied [simp]:
  "view_name (fst (applied p s)) = view_name s" "selectedWorkflow (fst (applied p s)) = selectedWorkflow s"
  by (simp_all add: applied_def if_current_def case_prod_beta Let_def split: option.split)

definition same_place :: "view \<Rightarrow> view \<Rightarrow> bool" where
  "same_place s s' \<longleftrightarrow>
     on_page s' = on_page s \<and> view_name s' = view_name s \<and> selectedWorkflow s' = selectedWorkflow s \<and>
     selected s' = selected s \<and> (\<forall>r. ses_id (objects s' r) = ses_id (objects s r))"

lemma same_place_refl [simp]: "same_place s s"
  by (simp add: same_place_def)

lemma same_place_trans: "same_place s t \<Longrightarrow> same_place t u \<Longrightarrow> same_place s u"
  by (simp add: same_place_def)

lemma same_snapshot [simp]: "same_place s (fst (applySnapshot n d s))"
  by (simp add: applySnapshot_def same_place_def if_current_def Let_def split: option.split prod.split)

lemma same_protocol [simp]: "same_place s (fst (protocol_error r s))"
  by (simp add: protocol_error_def same_place_def)

lemma same_perform [simp]: "same_place s (fst (perform n r res s))"
proof -
  have "same_place s (set_conn f s)" for f by (simp add: same_place_def)
  then show ?thesis
    using same_place_trans [OF _ same_snapshot] same_place_trans [OF _ same_protocol]
    by (simp add: perform_def Let_def split: sum.split option.split action.split)
qed

lemma same_connect [simp]: "same_place s (fst (connectTerminal r a s))"
  by (simp add: connectTerminal_def open_connection_def same_place_def Let_def)

lemma same_callbacks [simp]:
  "same_place s (fst (received_text w n t s))" "same_place s (fst (received_binary n d s))" "same_place s (fst (opened n s))"
  "same_place s (fst (ready_fires n s))" "same_place s (fst (conn_failed n s))"
proof -
  have clear: "same_place s (clearReadyTimer s)" for s by (simp add: same_place_def clearReadyTimer_def)
  have ended: "same_place s (fst (session_ended w r v s))" for s r v
    by (simp add: session_ended_def same_place_def Let_def)
  show "same_place s (fst (received_text w n t s))"
    using same_place_trans [OF clear same_perform] ended
    by (auto simp: received_text_def if_current_def Let_def split: option.split control.split)
  show "same_place s (fst (received_binary n d s))"
    by (auto simp: received_binary_def if_current_def Let_def same_place_def [of _ "set_conn _ _"]
        split: option.split sum.split action.split)
  show "same_place s (fst (opened n s))" "same_place s (fst (ready_fires n s))" "same_place s (fst (conn_failed n s))"
    by (auto simp: opened_def ready_fires_def conn_failed_def if_current_def same_place_def clearReadyTimer_def split: option.split)
qed

lemma same_timers [simp]: "same_place s (fst (reconnect_fires s))" "same_place s (fst (resize_fires s))"
proof -
  have "same_place s (s\<lparr>reconnectTimer := None\<rparr>)" for s by (simp add: same_place_def)
  from same_place_trans [OF this same_connect] show "same_place s (fst (reconnect_fires s))"
    by (auto simp: reconnect_fires_def Let_def same_place_def [of _ "_\<lparr>reconnectTimer := None\<rparr>"]
        same_place_def [of _ "scheduleTerminalReconnect _ _"] split: option.split)
  show "same_place s (fst (resize_fires s))"
    by (simp add: resize_fires_def Let_def same_place_def split: option.split prod.split)
qed

lemma same_input [simp]:
  "same_place s (fst (composer_submit s))" "same_place s (fst (terminal_data d s))" "same_place s (fst (paste_text t s))"
  "same_place s (mode_button s)" "same_place s (draft_typed t s)" "same_place s (input_status_timeout t s)"
  "same_place s (setTerminalInputStatus t s)"
  by (auto simp: composer_submit_def terminal_data_def paste_text_def mode_button_def draft_typed_def input_status_timeout_def
      setTerminalInputStatus_def applyInputMode_def saveTerminalInputMode_def same_place_def Let_def
      split: option.split prod.split)

text \<open>Events that do not navigate, and the one close code that ends the portal session.\<close>

fun navigates :: "vevent \<Rightarrow> bool" where
  "navigates GoSessions = True"
| "navigates (GoTerminal _ _) = True"
| "navigates (GoLogin _) = True"
| "navigates GoWorkflows = True"
| "navigates (GoWorkflow _) = True"
| "navigates GoDesktop = True"
| "navigates _ = False"

lemma same_view_step:
  assumes "\<not> navigates e"
  shows "same_place s (fst (view_step w s e)) \<or> \<not> on_page (fst (view_step w s e))"
proof -
  have up: "same_place s (link_ready n r s)" for n r by (simp add: same_place_def)
  note thr = same_place_trans [OF up]
  show ?thesis
  proof (cases e)
    case (LinkClosed n code)
    then show ?thesis
      by (auto simp: closed_def if_current_def clearReadyTimer_def renderLogin_def Let_def same_place_def split: option.split)
  next
    case (LinkOpened n)
    then show ?thesis using thr [OF same_callbacks(3)] by auto
  next
    case (LinkClosing n)
    then show ?thesis using up by simp
  next
    case SnapshotWritten
    then show ?thesis by (auto simp: same_place_def split: list.split)
  qed (use assms thr in \<open>auto simp: same_place_def [of _ "_\<lparr>screen := _\<rparr>"] same_place_def [of _ "_\<lparr>fitted := _\<rparr>"]
      same_place_def [of _ "_\<lparr>bridge_up := _\<rparr>"] same_place_def [of _ "_\<lparr>authenticated := _\<rparr>"]
      same_place_def [of _ "_\<lparr>desktop := _, desktopLink := _, windowLink := _\<rparr>"] same_place_def [of _ "fst (fitTerminal _)"]\<close>)
qed

lemma leave_frame [simp]:
  "sessions (fst (closeConnection s)) = sessions s" "objects (fst (closeConnection s)) = objects s"
  "view_name (fst (closeConnection s)) = view_name s" "selectedWorkflow (fst (closeConnection s)) = selectedWorkflow s"
  "on_page (fst (closeConnection s)) = on_page s" "selected (fst (closeConnection s)) = selected s"
  "encryptedPortal (fst (closeConnection s)) = encryptedPortal s" "bridge_up (fst (closeConnection s)) = bridge_up s"
  "next_conn (fst (closeConnection s)) = next_conn s"
  "objects (stopPolling s) = objects s" "sessions (stopPolling s) = sessions s" "view_name (stopPolling s) = view_name s"
  "selectedWorkflow (stopPolling s) = selectedWorkflow s" "on_page (stopPolling s) = on_page s"
  "encryptedPortal (stopPolling s) = encryptedPortal s" "bridge_up (stopPolling s) = bridge_up s"
  "next_conn (stopPolling s) = next_conn s"
  by (simp_all add: closeConnection_def stopPolling_def)

lemma find_session_frame [simp]:
  "find_session i (fst (closeConnection s)) = find_session i s" "find_session i (stopPolling s) = find_session i s"
  by (simp_all add: find_session_def)

lemma find_session_id: "find_session i s = Some ref \<Longrightarrow> ses_id (objects s ref) = i \<and> ref \<in> set (sessions s)"
  by (auto simp: find_session_def find_Some_iff)

text \<open>The two outcomes of \<open>renderTerminal\<close>.\<close>

lemma terminal_rendered:
  assumes "find_session i s = Some ref"
  shows "let s' = fst (renderTerminal i flow s) in
    on_page s' \<and> view_name s' = ViewTerminal \<and> selected s' = Some i \<and> objects s' = objects s \<and> sessions s' = sessions s \<and>
    selectedWorkflow s' =
      (if flow \<noteq> None then flow else if view_name s \<noteq> ViewTerminal then None else selectedWorkflow s)"
proof -
  have c: "sessions (fst (connectTerminal r a x)) = sessions x" "objects (fst (connectTerminal r a x)) = objects x"
    "sessions (fst (fitTerminal x)) = sessions x" for r a x
    by (simp_all add: connectTerminal_def open_connection_def socket_close_def fitTerminal_def Let_def
        split: option.split prod.split)
  have p: "view_name (fst (connectTerminal r a x)) = view_name x" "selectedWorkflow (fst (connectTerminal r a x)) = selectedWorkflow x"
    "selected (fst (connectTerminal r a x)) = selected x" "on_page (fst (connectTerminal r a x)) = on_page x" for r a x
    using same_connect [of x r a] by (simp_all add: same_place_def)
  show ?thesis
    using assms by (simp add: renderTerminal_def rememberPortalView_def install_terminal_def Let_def c p)
qed

lemma leaves [simp]:
  "\<not> on_page (fst (renderSessions s))" "\<not> on_page (fst (renderWorkflowDetail i s))" "\<not> on_page (fst (renderWorkflows s))"
  by (simp_all add: renderSessions_def renderWorkflowDetail_def renderWorkflows_def enter_page_def rememberPortalView_def
      startPolling_def stopPolling_def)

lemma terminal_gone: "find_session i s = None \<Longrightarrow> \<not> on_page (fst (renderTerminal i flow s))"
  by (simp add: renderTerminal_def)

section \<open>Going back\<close>

definition page_sound :: "jsstring option \<Rightarrow> terminal_page \<Rightarrow> bool" where
  "page_sound flow p \<longleftrightarrow>
     (on_page (tpv p) \<longrightarrow>
        view_name (tpv p) = ViewTerminal \<and> selectedWorkflow (tpv p) = flow \<and>
        selected (tpv p) = Some (ses_id (objects (tpv p) (page_ref p))))"

text \<open>The page stays among terminals: no other page is opened except through its own buttons, and no terminal from
  another page.\<close>

definition stays :: "terminal_event \<Rightarrow> bool" where
  "stays e \<longleftrightarrow> (case e of Inside x \<Rightarrow> \<not> navigates x | OpenTerminal _ _ \<Rightarrow> False | RoomTerminalLoaded _ _ \<Rightarrow> False | _ \<Rightarrow> True)"

definition for_shown :: "terminal_page \<Rightarrow> page_out \<Rightarrow> bool" where
  "for_shown p out \<longleftrightarrow>
     (case out of Chosen c r \<Rightarrow> on_page (tpv p) \<and> selected (tpv p) = Some (ses_id (objects (tpv p) r)) | _ \<Rightarrow> True)"

lemma sound_same:
  "page_sound flow p \<Longrightarrow> same_place (tpv p) v \<or> \<not> on_page v \<Longrightarrow> page_sound flow (p\<lparr>tpv := v\<rparr>)"
  by (auto simp: page_sound_def same_place_def)

lemma sound_left: "\<not> on_page (tpv p) \<Longrightarrow> page_sound flow p"
  by (simp add: page_sound_def)

lemma on_view_p_parts [simp]:
  "fst (on_view_p f p) = p\<lparr>tpv := fst (f (tpv p))\<rparr>" "snd (on_view_p f p) = map PageOut (snd (f (tpv p)))"
  by (simp_all add: on_view_p_def case_prod_beta)

lemma build_page_parts [simp]:
  "tpv (build_page w ref v p) = v" "page_ref (build_page w ref v p) = ref"
  by (simp_all add: build_page_def Let_def split: prod.split)

lemma open_sound:
  assumes "if on_page (tpv p) then page_sound flow p \<and> flow' = None else flow' = flow \<and> (flow \<noteq> None \<or> view_name (tpv p) \<noteq> ViewTerminal)"
  shows "page_sound flow (fst (open_terminal w i flow' p))"
proof (cases "find_session i (tpv p)")
  case None
  then show ?thesis
    using terminal_gone [OF None, of flow'] by (simp add: open_terminal_def page_sound_def case_prod_beta)
next
  case (Some ref)
  then show ?thesis
    using assms terminal_rendered [OF Some, of flow'] find_session_id [OF Some]
    by (auto simp: open_terminal_def page_sound_def Let_def case_prod_beta split: if_splits)
qed

lemma page_sound_step:
  assumes "page_sound flow p" "stays e"
  shows "page_sound flow (fst (page_step w p e))"
proof (cases e)
  case (Inside x)
  then show ?thesis
    using assms sound_same [OF assms(1) same_view_step] by (simp add: page_step_def stays_def del: view_step.simps)
next
  case (TabPress i)
  have "page_sound flow (fst (open_terminal w i None p))" if "on_page (tpv p)"
    using that assms(1) by (intro open_sound) simp
  then show ?thesis using TabPress assms(1) by (auto simp: page_step_def tab_press_def split: option.split)
next
  case BackPress
  then show ?thesis using assms(1) by (auto simp: page_step_def back_press_def page_sound_def split: option.split)
next
  case (RenamedHere r name)
  then show ?thesis using assms(1) by (auto simp: page_step_def renamed_here_def page_sound_def Let_def)
next
  case (ScreenCopied b)
  then show ?thesis using sound_same [OF assms(1)] by (simp add: page_step_def screen_copied_def)
qed (use assms sound_same [OF assms(1)] in \<open>auto simp: page_step_def stays_def menu_press_def reconnect_press_def copy_press_def
    attach_press_def composer_key_def\<close>; auto simp: page_sound_def)+

lemma page_outputs: "page_sound flow p \<Longrightarrow> out \<in> set (snd (page_step w p e)) \<Longrightarrow> for_shown p out"
  by (cases e) (auto simp: page_step_def openWorkflowTerminal_def for_shown_def page_sound_def back_press_def tab_press_def open_terminal_def menu_press_def
      reconnect_press_def copy_press_def attach_press_def composer_key_def split: option.splits if_splits prod.splits)

interpretation page_run: guarded_outputs "page_step w" "page_sound flow" "\<lambda>_. stays" for_shown for w flow
  by unfold_locales (auto intro: page_sound_step page_outputs)

lemma opened_page:
  assumes "\<not> on_page (tpv p)" "flow \<noteq> None \<or> view_name (tpv p) \<noteq> ViewTerminal" "list_all stays es"
  shows "page_sound flow (fst (run_steps (page_step w) p (OpenTerminal i flow # es)))"
proof -
  have "page_sound flow (fst (page_step w p (OpenTerminal i flow)))"
    using assms(1,2) open_sound [of p flow flow w i] by (simp add: page_step_def)
  then show ?thesis
    using assms(3) by (auto intro!: page_run.run_inv guarded_all simp: list_all_iff)
qed



section \<open>Tabs\<close>

lemma rendered_tabs:
  assumes "distinct (map ses_id (filter running ss))"
  shows "mset (map tab_id (fst (renderTerminalTabs w i entry ss))) = mset (map ses_id (filter running ss))"
    and "i \<in> ses_id ` set (filter running ss) \<Longrightarrow>
      map tab_id (filter tab_shown (fst (renderTerminalTabs w i entry ss))) = [i]"
proof -
  let ?o = "fst (orderedRunningSessions (parse (pe_js w)) (pe_stringify w) (pe_writable w) entry ss)"
  have o: "mset ?o = mset (filter running ss)"
    using tabs_are_running_sessions [OF assms refl refl] by blast
  have t: "fst (renderTerminalTabs w i entry ss) = map (tab_item_of i) ?o"
    by (simp add: renderTerminalTabs_def case_prod_beta)
  have ids: "map tab_id (map (tab_item_of i) xs) = map ses_id xs" for xs by (simp add: tab_item_of_def)
  show "mset (map tab_id (fst (renderTerminalTabs w i entry ss))) = mset (map ses_id (filter running ss))"
    unfolding t ids using o by (metis mset_map)
  assume i: "i \<in> ses_id ` set (filter running ss)"
  have d: "distinct (map ses_id ?o)" using assms o by (metis mset_eq_imp_distinct_iff mset_map)
  have m: "i \<in> set (map ses_id ?o)" using i o by (metis list.set_map set_mset_mset)
  have "map tab_id (filter tab_shown (map (tab_item_of i) xs)) = filter (\<lambda>j. j = i) (map ses_id xs)" for xs
    by (induction xs) (auto simp: tab_item_of_def)
  moreover have "distinct ys \<Longrightarrow> i \<in> set ys \<Longrightarrow> filter (\<lambda>j. j = i) ys = [i]" for ys :: "jsstring list"
    by (induction ys) (auto simp: filter_empty_conv)
  ultimately show "map tab_id (filter tab_shown (fst (renderTerminalTabs w i entry ss))) = [i]"
    unfolding t using d m by simp
qed

lemma terminal_links:
  assumes "find_session i s = Some ref" "\<not> encryptedPortal s \<or> bridge_up s"
  shows "OpenLink (next_conn s) i \<in> set (snd (renderTerminal i flow s))"
    and "conn s = Some k \<Longrightarrow> CloseLink (c_id k) \<in> set (snd (renderTerminal i flow s))"
proof -
  have c: "bridge_up (fst (fitTerminal x)) = bridge_up x" "ses_id (objects s ref) = i" for x
    using find_session_id [OF assms(1)] by simp_all
  show "OpenLink (next_conn s) i \<in> set (snd (renderTerminal i flow s))"
    using assms c(2) by (auto simp: renderTerminal_def rememberPortalView_def install_terminal_def connectTerminal_def
        open_connection_def Let_def)
  show "conn s = Some k \<Longrightarrow> CloseLink (c_id k) \<in> set (snd (renderTerminal i flow s))"
    using close_connection_left(8) [of "stopPolling s" k] assms(1) by (simp add: renderTerminal_def stopPolling_def)
qed


text \<open>A late renaming labels another terminal: if the user goes to another tab before the renaming is answered, the
  page that is shown by then puts the new name over its own terminal and its tab, although the session there
  has kept its name.\<close>

theorem late_rename_mislabels_terminal:
  assumes "on_page (tpv p)" "menu_open p" "find (\<lambda>t. tab_id t = i) (tab_list p) = Some t" "\<not> tab_shown t"
    and "find_session i (tpv p) = Some ref" "page_ref p \<noteq> ref"
  shows "let (p', outs) = run_steps (page_step w) p [MenuEntry RenameChoice, TabPress i, RenamedHere (page_ref p) name] in
    Chosen RenameChoice (page_ref p) \<in> set outs \<and> page_ref p' = ref \<and> selected (tpv p') = Some i \<and>
    shown_name p' = name \<and> (\<forall>t\<in>set (tab_list p'). tab_shown t \<longrightarrow> tab_name t = name) \<and>
    ses_name (objects (tpv p') ref) = ses_name (objects (tpv p) ref)"
proof -
  define q where "q = p\<lparr>menu_open := False\<rparr>"
  define v where "v = fst (renderTerminal i None (tpv p))"
  have v: "objects v = objects (tpv p)" "selected v = Some i" "on_page v"
    using terminal_rendered [OF assms(5), of None] by (simp_all add: v_def Let_def)
  have 1: "page_step w p (MenuEntry RenameChoice) = (q, [Chosen RenameChoice (page_ref p)])"
    using assms(1,2) by (simp add: page_step_def menu_press_def q_def)
  have 2: "fst (page_step w q (TabPress i)) = build_page w ref v q"
    using assms(1,3-5) by (simp add: page_step_def tab_press_def open_terminal_def v_def q_def case_prod_beta)
  have 3: "page_step w x (RenamedHere r name) = (renamed_here r name x, [])" for x r
    by (simp add: page_step_def)
  show ?thesis
    using v assms(6) by (auto simp: case_prod_beta 1 2 3 renamed_here_def Let_def)
qed

text \<open>A terminal asked for in a room opens late: the button of a room first loads the sessions, and when they come the
  terminal takes the page, although the user is at another terminal by then; that one loses its link, and the
  back button leads into the room that was left.\<close>

theorem late_room_terminal_takes_page:
  assumes "on_page (tpv p)" "conn (tpv p) = Some k" "find_session i (tpv p) = Some ref" "room \<noteq> []"
  shows "let (p', outs) = page_step w p (RoomTerminalLoaded room i) in
    page_ref p' = ref \<and> selected (tpv p') = Some i \<and> PageOut (CloseLink (c_id k)) \<in> set outs \<and>
    view_name (tpv (fst (page_step w p' BackPress))) = ViewWorkflow"
proof -
  define v where "v = fst (renderTerminal i (Some room) (tpv p))"
  have v: "selected v = Some i" "on_page v" "selectedWorkflow v = Some room"
    using terminal_rendered [OF assms(3), of "Some room"] by (simp_all add: v_def Let_def)
  have step: "page_step w p (RoomTerminalLoaded room i) =
      (build_page w ref v p, map PageOut (snd (renderTerminal i (Some room) (tpv p))))"
    using assms(3) by (simp add: page_step_def openWorkflowTerminal_def open_terminal_def v_def case_prod_beta)
  have "CloseLink (c_id k) \<in> set (snd (renderTerminal i (Some room) (tpv p)))"
    using close_connection_left(8) [of "stopPolling (tpv p)" k] assms(2,3) by (simp add: renderTerminal_def stopPolling_def)
  then show ?thesis
    unfolding step using v assms(4)
    by (simp add: page_step_def back_press_def renderWorkflowDetail_def enter_page_def rememberPortalView_def)
qed

section \<open>Examples\<close>

definition demo_other :: session where
  "demo_other = demo_session\<lparr>ses_id := js ''s2'', ses_name := js ''logs''\<rparr>"

definition demo_page_env :: page_env where
  "demo_page_env = \<lparr>pe_js = demo_env, pe_stringify = (\<lambda>_. []), pe_writable = True\<rparr>"

text \<open>The terminal \<open>s1\<close> is shown, and \<open>s2\<close> has a tab beside it.\<close>

definition demo_two :: view where
  "demo_two = demo_page\<lparr>objects := (\<lambda>r. if r = 0 then demo_session else demo_other), sessions := [0, 1]\<rparr>"

definition demo_terminal_page :: terminal_page where
  "demo_terminal_page = \<lparr>tpv = demo_two, page_ref = 0, menu_open = True, back_label = [], stop_enabled = True,
     shown_name = js ''shell'', tab_list = [tab_item_of (js ''s1'') demo_session, tab_item_of (js ''s1'') demo_other], tab_entry = None\<rparr>"

lemma demo_two_facts:
  "on_page demo_two" "find_session (js ''s2'') demo_two = Some 1" "running (objects demo_two 1)" "\<exists>k. conn demo_two = Some k \<and> c_id k = 0"
  "bridge_up demo_two" "next_conn demo_two = 1" "distinct (map ses_id (filter running (view_sessions demo_two)))"
  "find (\<lambda>t. tab_id t = js ''s2'') (tab_list demo_terminal_page) = Some (tab_item_of (js ''s1'') demo_other)"
  "\<not> tab_shown (tab_item_of (js ''s1'') demo_other)"
  by (simp_all add: demo_two_def demo_other_def demo_terminal_page_def demo_simps find_session_def view_sessions_def tab_item_of_def js_def)


theorem late_rename_mislabels_terminal_witness:
  "shown_name (fst (run_steps (page_step demo_page_env) demo_terminal_page
     [MenuEntry RenameChoice, TabPress (js ''s2''), RenamedHere 0 (js ''build'')])) = js ''build''"
proof -
  have v: "tpv demo_terminal_page = demo_two" "menu_open demo_terminal_page" "page_ref demo_terminal_page = 0"
    by (simp_all add: demo_terminal_page_def)
  show ?thesis
    using late_rename_mislabels_terminal [of demo_terminal_page "js ''s2''" _ 1 demo_page_env "js ''build''"] demo_two_facts
    by (auto simp: v case_prod_beta)
qed

text \<open>The terminal is opened from a room, the other tab is visited.\<close>

definition demo_room_page :: terminal_page where
  "demo_room_page = demo_terminal_page\<lparr>tpv := demo_two\<lparr>on_page := False, view_name := ViewWorkflow\<rparr>\<rparr>"

lemma demo_room_opens:
  "let p = fst (page_step demo_page_env demo_room_page (OpenTerminal (js ''s2'') (Some (js ''r''))))
   in on_page (tpv p) \<and> page_ref p = 1 \<and> ses_id (objects (tpv p) 1) = js ''s2'' \<and> \<not> menu_open p"
proof -
  let ?s = "demo_two\<lparr>on_page := False, view_name := ViewWorkflow\<rparr>"
  have f: "find_session (js ''s2'') ?s = Some 1" using demo_two_facts(2) by (simp add: find_session_def)
  have "ses_id (objects ?s 1) = js ''s2''" using find_session_id [OF f] by simp
  then show ?thesis
    using terminal_rendered [OF f, of "Some (js ''r'')"] f
    by (simp add: demo_room_page_def page_step_def open_terminal_def case_prod_beta build_page_def Let_def)
qed



theorem late_room_terminal_takes_page_witness:
  "selected (tpv (fst (page_step demo_page_env demo_terminal_page (RoomTerminalLoaded (js ''r'') (js ''s2''))))) = Some (js ''s2'')"
proof -
  have v: "tpv demo_terminal_page = demo_two" by (simp add: demo_terminal_page_def)
  have "js ''r'' \<noteq> []" by (simp add: js_def)
  then show ?thesis
    using late_room_terminal_takes_page [of demo_terminal_page _ "js ''s2''" 1 "js ''r''" demo_page_env] demo_two_facts
    by (auto simp: v case_prod_beta)
qed

end
