(* ===== verification/Portal.thy ===== *)
theory Portal
  imports TerminalConn
begin

text \<open>
  The session of the portal in \<open>main.ts\<close>: starting, logging in, resuming a lost connection with the
  remembered key, calling the API of the computer, loading the sessions, and going to the remembered
  view.

  An encrypted bridge is known by its number; what happens inside it is the theory \<open>Bridge\<close>. The
  asynchronous functions are split at their \<open>await\<close>s: \<open>resuming\<close> and \<open>logging\<close> say which promise an
  attempt waits for, and the events \<open>Connected\<close>, \<open>ConnectFails\<close>, \<open>Sessions\<close>, \<open>SessionsFail\<close>, \<open>History\<close>
  and \<open>HistoryFails\<close> settle it. The key storage of the device (IndexedDB) is awaited in one step.
  \<open>open_sockets\<close> are the bridges whose web socket to the relay has been opened and neither closed nor
  lost.
\<close>

section \<open>API calls\<close>

definition isWorkflowAPIPath :: "jsstring \<Rightarrow> bool" where
  "isWorkflowAPIPath path \<longleftrightarrow>
     path = js ''/api/agents'' \<or> path = js ''/api/agents/refresh'' \<or> path = js ''/api/projects/suggestions'' \<or>
     path = js ''/api/workflows'' \<or> starts_with (js ''/api/workflows/'') path"

datatype api_result = Answer json | NoContent | Expired | ApiError jsstring

text \<open>\<open>api\<close> through the bridge, once the response has arrived. \<open>Expired\<close> is the status 401; its effect on
  the portal is \<open>session_expired\<close>.\<close>

definition request_failed :: "(jsnum \<Rightarrow> jsstring) \<Rightarrow> jsnum \<Rightarrow> jsstring" where
  "request_failed show status = js ''Request failed ('' @ show status @ js '')''"

definition success_status :: "jsnum \<Rightarrow> bool" where
  "success_status status \<longleftrightarrow> \<not> (num_less status (Fin 200) \<or> \<not> num_less status (Fin 300))"

definition api_encrypted :: "js_env \<Rightarrow> jsstring \<Rightarrow> jsnum \<Rightarrow> jsstring \<Rightarrow> api_result" where
  "api_encrypted w path status body =
     (if status = Fin 401 then Expired
      else if \<not> success_status status then
        (case parse w body of
           Some v \<Rightarrow>
             (case (isRecord v, as_string (prop_of v ''error'')) of
                (True, Some e) \<Rightarrow> ApiError e
              | _ \<Rightarrow> ApiError (request_failed (show_num w) status))
         | None \<Rightarrow> ApiError (request_failed (show_num w) status))
      else if status = Fin 204 then NoContent
      else
        (case parse w body of
           Some v \<Rightarrow> Answer v
         | None \<Rightarrow>
             if isWorkflowAPIPath path then ApiError (js ''AI Work needs the updated local Termlinks service'')
             else if starts_with (js ''/api/terminal-history'') path
             then ApiError (js ''Terminal history needs the updated local Termlinks service'')
             else ApiError (js ''Your computer returned an invalid response'')))"

text \<open>\<open>api\<close> on a direct portal: the browser's own request. A body that is not JSON reads as an empty
  object on failure, and makes the promise reject on success (\<open>None\<close>).\<close>

definition api_direct :: "js_env \<Rightarrow> jsnum \<Rightarrow> bool \<Rightarrow> jsstring \<Rightarrow> api_result option" where
  "api_direct w status ok body =
     (if status = Fin 401 then Some Expired
      else if \<not> ok then
        Some (ApiError (case parse w body of
            Some v \<Rightarrow> (case as_string (prop_of v ''error'') of
                         Some e \<Rightarrow> if e \<noteq> [] then e else request_failed (show_num w) status
                       | None \<Rightarrow> request_failed (show_num w) status)
          | None \<Rightarrow> request_failed (show_num w) status))
      else if status = Fin 204 then Some NoContent
      else map_option Answer (parse w body))"

text \<open>\<open>loadTerminalHistory\<close>: an answer is decoded, and an older computer is tolerated.\<close>

definition compatibility_error :: "jsstring \<Rightarrow> bool" where
  "compatibility_error msg \<longleftrightarrow>
     has_substring (js ''updated local Termlinks service'') msg \<or>
     has_substring (js ''terminal history is unavailable'') msg \<or> has_substring (js ''API route is not allowed'') msg"

definition invalid_history :: jsstring where
  "invalid_history = js ''Your computer returned invalid terminal history''"

definition loadTerminalHistory :: "date_parse \<Rightarrow> json + jsstring \<Rightarrow> (saved_terminal list \<times> bool) + jsstring" where
  "loadTerminalHistory date response =
     (let decoded = (case response of
                       Inl v \<Rightarrow> (case decodeTerminalHistory date v of Inr saved \<Rightarrow> Inl saved | Inl _ \<Rightarrow> Inr invalid_history)
                     | Inr msg \<Rightarrow> Inr msg)
      in case decoded of
           Inl saved \<Rightarrow> Inl (saved, True)
         | Inr msg \<Rightarrow> if compatibility_error msg then Inl ([], False) else Inr msg)"

text \<open>\<open>isDirectPortal\<close>: \<open>None\<close> stands for a request that failed.\<close>

definition isDirectPortal :: "js_env \<Rightarrow> (bool \<times> jsstring option \<times> jsstring) option \<Rightarrow> bool" where
  "isDirectPortal w response =
     (case response of
        None \<Rightarrow> False
      | Some (ok, contentType, body) \<Rightarrow>
          if \<not> ok \<or> \<not> (case contentType of Some t \<Rightarrow> has_substring (js ''application/json'') t | None \<Rightarrow> False) then False
          else (case parse w body of Some v \<Rightarrow> prop_of v ''mode'' = Some (jstr ''direct'') | None \<Rightarrow> False))"

section \<open>The key kept on the device\<close>

record crypto_key =
  extractable :: bool
  algorithm :: jsstring
  usages :: "jsstring list"

datatype stored_value = StoredKey crypto_key | OtherValue

text \<open>\<open>None\<close> is a browser without IndexedDB, or one that refuses to open it.\<close>

type_synonym key_db = "stored_value option option"

definition loadPortalResumeKey :: "key_db \<Rightarrow> crypto_key option" where
  "loadPortalResumeKey db =
     (case db of
        Some (Some (StoredKey k)) \<Rightarrow>
          if extractable k \<or> algorithm k \<noteq> js ''AES-GCM'' then None
          else if js ''encrypt'' \<notin> set (usages k) \<or> js ''decrypt'' \<notin> set (usages k) then None
          else Some k
      | _ \<Rightarrow> None)"

definition savePortalResumeKey :: "crypto_key \<Rightarrow> key_db \<Rightarrow> key_db \<times> bool" where
  "savePortalResumeKey k db =
     (case db of
        None \<Rightarrow> (None, False)
      | Some _ \<Rightarrow> if extractable k then (db, False) else (Some (Some (StoredKey k)), True))"

definition forgetPortalResumeKey :: "key_db \<Rightarrow> key_db" where
  "forgetPortalResumeKey db = map_option (\<lambda>_. None) db"

section \<open>The remembered view\<close>

fun view_text :: "portal_view \<Rightarrow> jsstring" where
  "view_text ViewSessions = js ''sessions''"
| "view_text ViewTerminal = js ''terminal''"
| "view_text ViewWorkflows = js ''workflows''"
| "view_text ViewWorkflow = js ''workflow''"
| "view_text ViewDesktop = js ''desktop''"

definition all_views :: "portal_view list" where
  "all_views = [ViewSessions, ViewTerminal, ViewWorkflows, ViewWorkflow, ViewDesktop]"

text \<open>\<open>String(value.view)\<close>, where it can be the name of a view: an array of one element reads as that
  element. Then \<open>state.view\<close> is the array and equals no view's name, which no page takes for more than
  the sessions.\<close>

fun view_string :: "json \<Rightarrow> jsstring option" where
  "view_string (JStr s) = Some s"
| "view_string (JArr [v]) = view_string v"
| "view_string _ = None"

definition known_view :: "json option \<Rightarrow> portal_view option" where
  "known_view v =
     (case v of
        None \<Rightarrow> None
      | Some x \<Rightarrow>
          (case view_string x of
             None \<Rightarrow> None
           | Some s \<Rightarrow> map_option (\<lambda>w. if as_string v = None then ViewSessions else w) (find (\<lambda>w. view_text w = s) all_views)))"

definition readLastPortalView ::
  "(jsstring \<Rightarrow> json option) \<Rightarrow> jsstring option \<Rightarrow> portal_view \<times> jsstring option \<times> jsstring option" where
  "readLastPortalView parse_text entry =
     (let text = (case entry of None \<Rightarrow> js ''null'' | Some t \<Rightarrow> if t = [] then js ''null'' else t) in
      case parse_text text of
        None \<Rightarrow> (ViewSessions, None, None)
      | Some v \<Rightarrow>
          if \<not> isRecord v then (ViewSessions, None, None)
          else
            (case known_view (prop_of v ''view'') of
               None \<Rightarrow> (ViewSessions, None, None)
             | Some w \<Rightarrow> (w, as_string (prop_of v ''selected''), as_string (prop_of v ''selectedWorkflow''))))"

text \<open>What \<open>rememberPortalView\<close> stores; a property that is \<open>undefined\<close> is left out.\<close>

definition remembered_json :: "portal_view \<Rightarrow> jsstring option \<Rightarrow> jsstring option \<Rightarrow> json" where
  "remembered_json v sel flow =
     jmsg ([(''view'', JStr (view_text v))] @
       (case sel of Some s \<Rightarrow> [(''selected'', JStr s)] | None \<Rightarrow> []) @
       (case flow of Some s \<Rightarrow> [(''selectedWorkflow'', JStr s)] | None \<Rightarrow> []))"

section \<open>The portal\<close>

text \<open>An attempt to get in: \<open>boot\<close> on a direct portal, a resume with the remembered key, or the submission
  of a login form. It is known by the number of the bridge it makes; on a direct portal the number is
  only a name.\<close>

datatype attempt_phase = AwaitConnect | AwaitSessions | AwaitHistory | AwaitPage

datatype attempt_kind = Boots | Resumes "jsstring option" | LogsIn nat bool

record attempt =
  a_id :: nat
  a_kind :: attempt_kind
  a_key :: "crypto_key option"
  a_phase :: attempt_phase

record portal =
  pv :: view
  enc_bridge :: "nat option"
  next_bridge :: nat
  open_sockets :: "nat list"
  key_store :: key_db
  saved_key :: "crypto_key option"
  attempts :: "attempt list"
  retry_timer :: bool
  page_visible :: bool
  next_object :: nat
  savedTerminals :: "saved_terminal list"
  history_available :: bool
  viewer_control :: bool
  session_list :: bool               \<comment> \<open>the document shows the dashboard's list\<close>
  logouts :: nat                     \<comment> \<open>logout requests that are under way\<close>
  login_form :: "nat option"         \<comment> \<open>the form the document shows\<close>
  next_form :: nat

datatype pout =
    View vout | ConnectBridge nat crypto_key | CloseBridge nat
  | RequestMe | RequestLogin jsstring | RequestLogout "nat option"
  | RequestSessions "nat option" | RequestHistory "nat option"
  | LoginError nat jsstring

type_synonym p_result = "portal \<times> pout list"

record portal_env =
  page_env :: js_env
  dates :: date_parse
  token_key :: "jsstring \<Rightarrow> crypto_key"     \<comment> \<open>\<open>deriveEncryptionKey\<close>\<close>

definition initial_portal :: "portal_view \<times> jsstring option \<times> jsstring option \<Rightarrow> key_db \<Rightarrow> portal" where
  "initial_portal remembered db =
     \<lparr>pv = initial_view (fst remembered) (fst (snd remembered)) (snd (snd remembered)), enc_bridge = None,
      next_bridge = 0, open_sockets = [], key_store = db, saved_key = None, attempts = [], retry_timer = False,
      page_visible = True, next_object = 0, savedTerminals = [], history_available = True,
      viewer_control = False, session_list = False, logouts = 0, login_form = None, next_form = 0\<rparr>"

text \<open>The bridge and the key are global variables; the pages read whether there is one.\<close>

definition set_bridge :: "nat option \<Rightarrow> portal \<Rightarrow> portal" where
  "set_bridge b p = p\<lparr>enc_bridge := b, pv := (pv p)\<lparr>bridge_up := (b \<noteq> None)\<rparr>\<rparr>"

definition set_key :: "crypto_key option \<Rightarrow> portal \<Rightarrow> portal" where
  "set_key k p = p\<lparr>saved_key := k, pv := (pv p)\<lparr>resume_key := (k \<noteq> None)\<rparr>\<rparr>"

definition set_auth :: "bool \<Rightarrow> portal \<Rightarrow> portal" where
  "set_auth a p = p\<lparr>pv := (pv p)\<lparr>authenticated := a\<rparr>\<rparr>"

definition show_label :: "jsstring \<Rightarrow> conn_kind \<Rightarrow> portal \<Rightarrow> portal" where
  "show_label label kind p = p\<lparr>pv := show_state label kind (pv p)\<rparr>"

text \<open>A page function builds its page in place of the one before; \<open>renderLogin\<close> makes a new form.\<close>

fun shown_one :: "vout \<Rightarrow> portal \<Rightarrow> portal" where
  "shown_one (ShowLogin _) p = p\<lparr>session_list := False, login_form := Some (next_form p), next_form := next_form p + 1\<rparr>"
| "shown_one ShowSessions p = p\<lparr>session_list := True, login_form := None\<rparr>"
| "shown_one (ShowTerminal _) p = p\<lparr>session_list := False, login_form := None\<rparr>"
| "shown_one (ShowPage _) p = p\<lparr>session_list := False, login_form := None\<rparr>"
| "shown_one _ p = p"

definition page :: "(view \<Rightarrow> v_result) \<Rightarrow> portal \<Rightarrow> p_result" where
  "page f p = (let (v, outs) = f (pv p) in (fold shown_one outs (p\<lparr>pv := v\<rparr>), map View outs))"

definition find_attempt :: "nat \<Rightarrow> portal \<Rightarrow> attempt option" where
  "find_attempt i p = find (\<lambda>a. a_id a = i) (attempts p)"

definition resumes :: "attempt \<Rightarrow> bool" where
  "resumes a \<longleftrightarrow> (case a_kind a of Resumes _ \<Rightarrow> True | _ \<Rightarrow> False)"

text \<open>\<open>portalReconnect\<close> is the promise of the resume in flight.\<close>

definition resuming :: "portal \<Rightarrow> bool" where
  "resuming p \<longleftrightarrow> (\<exists>a\<in>set (attempts p). resumes a)"

definition drop_attempt :: "nat \<Rightarrow> portal \<Rightarrow> portal" where
  "drop_attempt i p = p\<lparr>attempts := filter (\<lambda>a. a_id a \<noteq> i) (attempts p)\<rparr>"

definition set_phase :: "nat \<Rightarrow> attempt_phase \<Rightarrow> portal \<Rightarrow> portal" where
  "set_phase i ph p = p\<lparr>attempts := map (\<lambda>a. if a_id a = i then a\<lparr>a_phase := ph\<rparr> else a) (attempts p)\<rparr>"

text \<open>\<open>new EncryptedBridge()\<close> and \<open>connectWithKey\<close>: the web socket is made at once.\<close>

definition start_bridge :: "attempt_kind \<Rightarrow> crypto_key \<Rightarrow> portal \<Rightarrow> p_result" where
  "start_bridge kind k p =
     (p\<lparr>attempts := attempts p @ [\<lparr>a_id = next_bridge p, a_kind = kind, a_key = Some k, a_phase = AwaitConnect\<rparr>],
        open_sockets := open_sockets p @ [next_bridge p], next_bridge := next_bridge p + 1\<rparr>,
      [ConnectBridge (next_bridge p) k])"

definition start_request :: "attempt_kind \<Rightarrow> pout \<Rightarrow> portal \<Rightarrow> p_result" where
  "start_request kind out p =
     (p\<lparr>attempts := attempts p @ [\<lparr>a_id = next_bridge p, a_kind = kind, a_key = None, a_phase = AwaitConnect\<rparr>],
        next_bridge := next_bridge p + 1\<rparr>, [out])"

definition clearPortalResumeKey :: "portal \<Rightarrow> portal" where
  "clearPortalResumeKey p =
     (set_key None p)\<lparr>retry_timer := False, key_store := forgetPortalResumeKey (key_store p)\<rparr>"

section \<open>Resuming\<close>

definition resuming_label :: jsstring where
  "resuming_label = js ''Reconnecting securely'' @ ellipsis"

definition waking_label :: jsstring where
  "waking_label = js ''Computer waking'' @ mid_dot @ js ''reconnecting'' @ ellipsis"

text \<open>Closing a bridge that is no longer \<open>encryptedBridge\<close> has no effect on the portal.\<close>

definition close_previous :: "portal \<Rightarrow> p_result" where
  "close_previous p =
     (case enc_bridge p of
        None \<Rightarrow> (p, [])
      | Some b \<Rightarrow> ((set_bridge None p)\<lparr>open_sockets := filter (\<lambda>n. n \<noteq> b) (open_sockets p)\<rparr>, [CloseBridge b]))"

definition resumeEncryptedPortal :: "portal \<Rightarrow> p_result" where
  "resumeEncryptedPortal p =
     (case saved_key p of
        None \<Rightarrow> (p, [])
      | Some k \<Rightarrow>
          if \<not> encryptedPortal (pv p) \<or> authenticated (pv p) \<or> \<not> page_visible p then (p, [])
          else if resuming p then (p, [])
          else
            and_then (close_previous (show_label resuming_label Connecting (p\<lparr>retry_timer := False\<rparr>)))
              (start_bridge (Resumes (selected (pv p))) k))"

text \<open>The \<open>catch\<close> of a resume.\<close>

definition resume_failed :: "jsstring \<Rightarrow> portal \<Rightarrow> p_result" where
  "resume_failed msg p =
     (let p1 = set_auth False (set_bridge None p) in
      if has_substring (js ''Invalid portal token'') msg then
        page (renderLogin (js ''The saved device login is no longer valid. Enter the current portal token.''))
          (clearPortalResumeKey p1)
      else
        and_then
          (if on_page (pv p1) \<or> other_page (pv p1) then (show_label waking_label Connecting p1, [])
           else page (renderLogin (js ''Saved login found. Reconnecting when the computer is available'' @ ellipsis)) p1)
          (\<lambda>p2. (if saved_key p2 \<noteq> None \<and> page_visible p2 then p2\<lparr>retry_timer := True\<rparr> else p2, [])))"

text \<open>The timer of 2500 ms.\<close>

definition retry_fires :: "portal \<Rightarrow> p_result" where
  "retry_fires p = (if retry_timer p then resumeEncryptedPortal (p\<lparr>retry_timer := False\<rparr>) else (p, []))"

text \<open>The end of \<open>fail\<close> in \<open>EncryptedBridge\<close>; the queued microtask runs after the handler.\<close>

definition bridge_lost :: "nat \<Rightarrow> jsstring \<Rightarrow> portal \<Rightarrow> p_result" where
  "bridge_lost b e p =
     (if enc_bridge p \<noteq> Some b \<or> \<not> authenticated (pv p) then (p, [])
      else
        let p1 = set_auth False (set_bridge None p) in
        if saved_key p1 \<noteq> None then resumeEncryptedPortal (show_label paused_label Connecting p1)
        else page (renderLogin e) p1)"

text \<open>\<open>encryptedBridge?.close()\<close> by somebody else, while it is still the portal's bridge.\<close>

definition close_bridge :: "portal \<Rightarrow> p_result" where
  "close_bridge p =
     (case enc_bridge p of
        None \<Rightarrow> (p, [])
      | Some b \<Rightarrow>
          and_then (p\<lparr>open_sockets := filter (\<lambda>n. n \<noteq> b) (open_sockets p)\<rparr>, [CloseBridge b])
            (bridge_lost b (js ''Portal closed'')))"

section \<open>Loading the sessions\<close>

text \<open>\<open>loadSessions\<close> and \<open>loadTerminalHistory\<close> ask through the bridge of the moment, and fail at once
  without one.\<close>

definition not_connected :: jsstring where
  "not_connected = js ''Encrypted portal is not connected''"

definition can_request :: "portal \<Rightarrow> bool" where
  "can_request p \<longleftrightarrow> (encryptedPortal (pv p) \<longrightarrow> enc_bridge p \<noteq> None)"

definition keep_objects :: "session list \<Rightarrow> portal \<Rightarrow> portal" where
  "keep_objects list p =
     p\<lparr>next_object := next_object p + length list,
       pv := (pv p)\<lparr>objects := (\<lambda>r. if next_object p \<le> r \<and> r < next_object p + length list
                                 then list ! (r - next_object p) else objects (pv p) r)\<rparr>\<rparr>"

text \<open>The answer of \<open>/api/sessions\<close>: new objects, of which the running ones that were not closed stay.\<close>

definition sessions_answer :: "session list \<Rightarrow> bool \<Rightarrow> portal \<Rightarrow> portal" where
  "sessions_answer list control p =
     (let p1 = (keep_objects list p)\<lparr>viewer_control := control\<rparr>;
          refs = filter (\<lambda>r. running (objects (pv p1) r) \<and> ses_id (objects (pv p1) r) \<notin> closedSessions (pv p1))
                   [next_object p ..< next_object p + length list]
      in p1\<lparr>pv := (pv p1)\<lparr>sessions := refs\<rparr>\<rparr>)"

definition history_answer :: "saved_terminal list \<Rightarrow> bool \<Rightarrow> portal \<Rightarrow> portal" where
  "history_answer saved available p = p\<lparr>savedTerminals := saved, history_available := available\<rparr>"

section \<open>Arriving\<close>

definition startPolling_page :: "view \<Rightarrow> v_result" where
  "startPolling_page s = (startPolling s, [])"

text \<open>The state from which the portal goes on, and whether it awaits the content of the page.\<close>

definition renderRememberedView :: "portal \<Rightarrow> p_result \<times> bool" where
  "renderRememberedView p =
     (let s = pv p in
      case (view_name s, selectedWorkflow s, selected s) of
        (ViewWorkflow, Some w, _) \<Rightarrow> if w \<noteq> [] then (page (renderWorkflowDetail w) p, True) else (page renderSessions p, False)
      | (ViewWorkflows, _, _) \<Rightarrow> (page renderWorkflows p, True)
      | (ViewDesktop, _, _) \<Rightarrow>
          (if encryptedPortal s then page renderDesktop p else page renderSessions p, False)
      | (ViewTerminal, _, Some i) \<Rightarrow>
          (if i \<noteq> [] \<and> find_session i s \<noteq> None then page (renderTerminal i (selectedWorkflow s)) p
           else page renderSessions p, False)
      | _ \<Rightarrow> (page renderSessions p, False))"

definition resume_session :: "jsstring option \<Rightarrow> portal \<Rightarrow> nat option" where
  "resume_session sel p = (case sel of None \<Rightarrow> None | Some i \<Rightarrow> if i = [] then None else find_session i (pv p))"

text \<open>Where a resume goes on, with the session that was selected when it began.\<close>

definition resume_page :: "jsstring option \<Rightarrow> portal \<Rightarrow> p_result \<times> bool" where
  "resume_page sel p =
     (let s = pv p in
      if view_name s = ViewWorkflow \<and> selectedWorkflow s \<noteq> None \<and> selectedWorkflow s \<noteq> Some [] then
        (page (renderWorkflowDetail (the (selectedWorkflow s))) p, True)
      else if view_name s = ViewWorkflows then (page renderWorkflows p, True)
      else if view_name s = ViewDesktop then (page renderDesktop p, False)
      else
        case resume_session sel p of
          Some ref \<Rightarrow>
            (if terminal s \<noteq> None \<and> on_page s then page (connectTerminal ref False) p
             else page (renderTerminal (ses_id (objects s ref)) (selectedWorkflow s)) p, False)
        | None \<Rightarrow>
            (if view_name s = ViewSessions \<and> session_list p then page startPolling_page p else page renderSessions p, False))"

definition attempt_failed :: "nat \<Rightarrow> jsstring \<Rightarrow> portal \<Rightarrow> p_result" where
  "attempt_failed i msg p =
     (case find_attempt i p of
        None \<Rightarrow> (p, [])
      | Some a \<Rightarrow>
          (let p1 = drop_attempt i p in
           case a_kind a of
             Resumes _ \<Rightarrow> resume_failed msg p1
           | LogsIn form _ \<Rightarrow> (p1, [LoginError form msg])
           | Boots \<Rightarrow>
               if authenticated (pv p1) then (p1, [])
               else page (renderLogin (if has_substring (js ''offline'') msg
                      then js ''Your computer is offline. Start it with: termlinks cloud start'' else [])) p1))"

definition request_sessions :: "nat \<Rightarrow> portal \<Rightarrow> p_result" where
  "request_sessions i p =
     (if can_request p then (set_phase i AwaitSessions p, [RequestSessions (enc_bridge p)])
      else attempt_failed i not_connected p)"

definition request_history :: "nat \<Rightarrow> portal \<Rightarrow> p_result" where
  "request_history i p =
     (if can_request p then (set_phase i AwaitHistory p, [RequestHistory (enc_bridge p)])
      else attempt_failed i not_connected p)"

text \<open>The promise of \<open>connectWithKey\<close>, or the answer of the first request on a direct portal.\<close>

definition connected_to :: "nat \<Rightarrow> portal \<Rightarrow> p_result" where
  "connected_to i p =
     (case find_attempt i p of
        None \<Rightarrow> (p, [])
      | Some a \<Rightarrow>
          if a_phase a \<noteq> AwaitConnect then (p, [])
          else
            let p1 = (if encryptedPortal (pv p) then set_bridge (Some i) p else p);
                p2 = (case (a_kind a, a_key a) of
                        (LogsIn _ keep, Some k) \<Rightarrow>
                          if keep then (set_key (Some k) p1)\<lparr>key_store := fst (savePortalResumeKey k (key_store p1))\<rparr>
                          else clearPortalResumeKey p1
                      | _ \<Rightarrow> p1)
            in request_sessions i (set_auth True p2))"

definition arrived :: "nat \<Rightarrow> portal \<Rightarrow> p_result" where
  "arrived i p =
     (case find_attempt i p of
        None \<Rightarrow> (p, [])
      | Some a \<Rightarrow>
          (let (r, waits) = (case a_kind a of Resumes sel \<Rightarrow> resume_page sel p | _ \<Rightarrow> renderRememberedView p)
           in and_then r (\<lambda>p1. (if waits then set_phase i AwaitPage p1 else drop_attempt i p1, []))))"

text \<open>A workflow page handles the failure of its own requests, so the promise it leaves behind resolves.\<close>

definition page_loaded :: "nat \<Rightarrow> portal \<Rightarrow> p_result" where
  "page_loaded i p =
     (case find_attempt i p of
        Some a \<Rightarrow> (if a_phase a = AwaitPage then drop_attempt i p else p, [])
      | None \<Rightarrow> (p, []))"

section \<open>Answers\<close>

text \<open>\<open>api\<close> on the status 401; without the encrypted bridge the key stays as it is.\<close>

definition session_expired :: "portal \<Rightarrow> p_result" where
  "session_expired p =
     (let p1 = set_auth False p in
      if encryptedPortal (pv p) then
        and_then (page closeConnection (clearPortalResumeKey p1))
          (\<lambda>p2. and_then (close_previous p2) (page (renderLogin [])))
      else and_then (page closeConnection p1) (page (renderLogin [])))"

definition expired_message :: jsstring where
  "expired_message = js ''Your portal session expired''"

definition sessions_loaded :: "nat \<Rightarrow> session list \<Rightarrow> bool \<Rightarrow> portal \<Rightarrow> p_result" where
  "sessions_loaded i list control p =
     (case find_attempt i p of
        Some a \<Rightarrow> if a_phase a = AwaitSessions then request_history i (sessions_answer list control p) else (p, [])
      | None \<Rightarrow> (p, []))"

definition history_loaded :: "date_parse \<Rightarrow> nat \<Rightarrow> json + jsstring \<Rightarrow> portal \<Rightarrow> p_result" where
  "history_loaded date i response p =
     (case find_attempt i p of
        Some a \<Rightarrow>
          if a_phase a \<noteq> AwaitHistory then (p, [])
          else
            (case loadTerminalHistory date response of
               Inl (saved, available) \<Rightarrow> arrived i (history_answer saved available p)
             | Inr msg \<Rightarrow> attempt_failed i msg p)
      | None \<Rightarrow> (p, []))"

text \<open>The promise an attempt waits for rejects; the history's has its own way.\<close>

definition request_rejected :: "date_parse \<Rightarrow> nat \<Rightarrow> jsstring \<Rightarrow> portal \<Rightarrow> p_result" where
  "request_rejected date i msg p =
     (case find_attempt i p of
        Some a \<Rightarrow>
          (case a_phase a of
             AwaitHistory \<Rightarrow> history_loaded date i (Inr msg) p
           | AwaitPage \<Rightarrow> (p, [])
           | _ \<Rightarrow> attempt_failed i msg p)
      | None \<Rightarrow> (p, []))"

text \<open>A request of an attempt is answered with 401. An encrypted bridge logs in inside its socket, so
  there an attempt that is connecting has no request.\<close>

definition request_expired :: "nat \<Rightarrow> portal \<Rightarrow> p_result" where
  "request_expired i p =
     (case find_attempt i p of
        Some a \<Rightarrow>
          if a_phase a = AwaitPage \<or> (a_phase a = AwaitConnect \<and> encryptedPortal (pv p)) then (p, [])
          else and_then (session_expired p) (attempt_failed i expired_message)
      | None \<Rightarrow> (p, []))"

section \<open>Logging in and out\<close>

definition form_busy :: "nat \<Rightarrow> portal \<Rightarrow> bool" where
  "form_busy f p \<longleftrightarrow> (\<exists>a\<in>set (attempts p). \<exists>keep. a_kind a = LogsIn f keep)"

definition short_token :: jsstring where
  "short_token = js ''Paste the complete portal token without backticks''"

text \<open>The submit handler of the login form up to its first \<open>await\<close>; deriving the key is part of it.\<close>

definition login_submit :: "portal_env \<Rightarrow> jsstring \<Rightarrow> bool \<Rightarrow> portal \<Rightarrow> p_result" where
  "login_submit w input keep p =
     (case login_form p of
        None \<Rightarrow> (p, [])
      | Some f \<Rightarrow>
          if form_busy f p then (p, [])
          else
            let p1 = p\<lparr>retry_timer := False\<rparr>; token = trim input in
            if length token < 32 then (p1, [LoginError f short_token])
            else if encryptedPortal (pv p1) then
              and_then (close_bridge p1) (start_bridge (LogsIn f keep) (token_key w token))
            else start_request (LogsIn f keep) (RequestLogin token) p1)"

text \<open>The logout button: the request, and the \<open>finally\<close> that runs whatever became of it.\<close>

definition logout_done :: "portal \<Rightarrow> p_result" where
  "logout_done p =
     and_then (close_previous (clearPortalResumeKey (set_auth False p))) (page (renderLogin []))"

definition logout_click :: "portal \<Rightarrow> p_result" where
  "logout_click p = (if can_request p then (p\<lparr>logouts := logouts p + 1\<rparr>, [RequestLogout (enc_bridge p)]) else logout_done p)"

text \<open>The flag says that the request was answered with 401.\<close>

definition logout_settled :: "bool \<Rightarrow> portal \<Rightarrow> p_result" where
  "logout_settled expired p =
     (if logouts p = 0 then (p, [])
      else
        let p1 = p\<lparr>logouts := logouts p - 1\<rparr>
        in if expired then and_then (session_expired p1) logout_done else logout_done p1)"

section \<open>Starting\<close>

definition boot :: "bool \<Rightarrow> portal \<Rightarrow> p_result" where
  "boot direct p =
     (let p1 = p\<lparr>pv := (pv p)\<lparr>encryptedPortal := \<not> direct\<rparr>\<rparr> in
      if direct then start_request Boots RequestMe p1
      else
        let p2 = set_key (loadPortalResumeKey (key_store p1)) p1 in
        if saved_key p2 \<noteq> None then
          and_then (page (renderLogin (js ''Restoring the secure device login'' @ ellipsis)) p2) resumeEncryptedPortal
        else page (renderLogin []) p2)"

section \<open>A bridge for an upload\<close>

definition bridge_ready :: "portal \<Rightarrow> nat option" where
  "bridge_ready p = (case enc_bridge p of Some b \<Rightarrow> if b \<in> set (open_sockets p) then Some b else None | None \<Rightarrow> None)"

definition offline_message :: jsstring where
  "offline_message = js ''The encrypted computer connection is offline''"

definition upload_again_message :: jsstring where
  "upload_again_message = js ''The computer is reconnecting. Try the upload again in a moment''"

text \<open>\<open>readyUploadBridge\<close> gives a bridge or an error at once, or (\<open>None\<close>) awaits the resume it starts or
  finds, and then looks again.\<close>

definition readyUploadBridge :: "portal \<Rightarrow> p_result \<times> (nat + jsstring) option" where
  "readyUploadBridge p =
     (case (authenticated (pv p), bridge_ready p) of
        (True, Some b) \<Rightarrow> ((p, []), Some (Inl b))
      | _ \<Rightarrow>
          if \<not> encryptedPortal (pv p) \<or> saved_key p = None then ((p, []), Some (Inr offline_message))
          else (resumeEncryptedPortal (set_auth False p), None))"

definition upload_bridge_after :: "portal \<Rightarrow> nat + jsstring" where
  "upload_bridge_after p =
     (case (authenticated (pv p), bridge_ready p) of
        (True, Some b) \<Rightarrow> Inl b
      | _ \<Rightarrow> Inr upload_again_message)"

section \<open>Events\<close>

datatype pevent =
    Page vevent
  | Connected nat | Rejected nat jsstring | ExpiredAt nat
  | SessionsAre nat "session list" bool | HistoryIs nat json | PageLoaded nat
  | BridgeFailed nat jsstring | SocketGone nat
  | RetryTimer | VisibleIs bool | Wake
  | LoginSubmit jsstring bool | LogoutClick | LogoutSettled bool
  | PageSessions "session list" bool | PageHistory "saved_terminal list" bool | PageExpired
  | UploadWants

text \<open>What the page functions do by themselves, and the timers and callbacks of the terminal. The
  presence of the bridge and the login are the portal's own affair.\<close>

fun page_event :: "vevent \<Rightarrow> bool" where
  "page_event (BridgeIs _) = False"
| "page_event (AuthIs _) = False"
| "page_event _ = True"

text \<open>A terminal asks for a resume as the last thing its handler does, except its retry, which schedules
  the next one after asking.\<close>

definition view_event :: "js_env \<Rightarrow> vevent \<Rightarrow> portal \<Rightarrow> p_result" where
  "view_event w e p =
     (if \<not> page_event e then (p, [])
      else
        case (e, reconnectTimer (pv p)) of
          (ReconnectTimer, Some (_, ref)) \<Rightarrow>
            if ResumePortal \<in> set (snd (reconnect_fires (pv p))) then
              and_then (resumeEncryptedPortal (p\<lparr>pv := (pv p)\<lparr>reconnectTimer := None\<rparr>\<rparr>))
                (page (\<lambda>s. (scheduleTerminalReconnect ref s, [])))
            else page (\<lambda>s. view_step w s e) p
        | _ \<Rightarrow>
            and_then (page (\<lambda>s. view_step w s e) p)
              (\<lambda>p1. if ResumePortal \<in> set (snd (view_step w (pv p) e)) then resumeEncryptedPortal p1 else (p1, [])))"

fun portal_step :: "portal_env \<Rightarrow> portal \<Rightarrow> pevent \<Rightarrow> p_result" where
  "portal_step w p (Page e) = view_event (page_env w) e p"
| "portal_step w p (Connected i) = connected_to i p"
| "portal_step w p (Rejected i msg) = request_rejected (dates w) i msg p"
| "portal_step w p (ExpiredAt i) = request_expired i p"
| "portal_step w p (SessionsAre i list control) = sessions_loaded i list control p"
| "portal_step w p (HistoryIs i v) = history_loaded (dates w) i (Inl v) p"
| "portal_step w p (PageLoaded i) = page_loaded i p"
| "portal_step w p (BridgeFailed b e) = bridge_lost b e (p\<lparr>open_sockets := filter (\<lambda>n. n \<noteq> b) (open_sockets p)\<rparr>)"
| "portal_step w p (SocketGone b) = (p\<lparr>open_sockets := filter (\<lambda>n. n \<noteq> b) (open_sockets p)\<rparr>, [])"
| "portal_step w p RetryTimer = retry_fires p"
| "portal_step w p (VisibleIs v) =
     (if v then resumeEncryptedPortal (p\<lparr>page_visible := True\<rparr>) else (p\<lparr>page_visible := False\<rparr>, []))"
| "portal_step w p Wake = resumeEncryptedPortal p"
| "portal_step w p (LoginSubmit t keep) = login_submit w t keep p"
| "portal_step w p LogoutClick = logout_click p"
| "portal_step w p (LogoutSettled expired) = logout_settled expired p"
| "portal_step w p (PageSessions list control) = (sessions_answer list control p, [])"
| "portal_step w p (PageHistory saved available) = (history_answer saved available p, [])"
| "portal_step w p PageExpired = session_expired p"
| "portal_step w p UploadWants = fst (readyUploadBridge p)"

abbreviation portal_run :: "portal_env \<Rightarrow> portal \<Rightarrow> pevent list \<Rightarrow> p_result" where
  "portal_run w \<equiv> run_steps (portal_step w)"

end
