(* ===== verification/PortalSafety.thy ===== *)
theory PortalSafety
  imports Portal TerminalSafety
begin

text \<open>
  Properties of the portal: who is logged in and through which bridge, one resume at a time, what a lost
  connection leads to, what is remembered of the key and of the view, and the places where a resume and
  the user get in each other's way.
\<close>

section \<open>What the pages leave alone\<close>

text \<open>The part of the page state that belongs to the login and to the list of sessions: the \<open>account\<close>, the
  sessions listed, and the identifiers of the objects. No page function touches it, except that a terminal
  closed with 1008 ends the login and that the page of sessions drops sessions from the list.\<close>

definition roster ::
  "view \<Rightarrow> (bool \<times> bool \<times> bool \<times> bool \<times> jsstring set) \<times> nat list \<times> (nat \<Rightarrow> jsstring)" where
  "roster s = ((encryptedPortal s, bridge_up s, resume_key s, authenticated s, closedSessions s),
     sessions s, (\<lambda>r. ses_id (objects s r)))"

abbreviation account :: "view \<Rightarrow> bool \<times> bool \<times> bool \<times> bool \<times> jsstring set" where
  "account s \<equiv> fst (roster s)"

lemma frame_update [simp]:
  "(\<And>r. ses_id (a1 r) = ses_id (objects s r)) \<Longrightarrow> roster (s\<lparr>objects := a1\<rparr>) = roster s"
  "roster (s\<lparr>selected := a3\<rparr>) = roster s" "roster (s\<lparr>selectedWorkflow := a4\<rparr>) = roster s"
  "roster (s\<lparr>view_name := a5\<rparr>) = roster s" "roster (s\<lparr>on_page := a6\<rparr>) = roster s"
  "roster (s\<lparr>other_page := a7\<rparr>) = roster s" "roster (s\<lparr>polling := a8\<rparr>) = roster s"
  "roster (s\<lparr>conn := a9\<rparr>) = roster s" "roster (s\<lparr>next_conn := b1\<rparr>) = roster s"
  "roster (s\<lparr>terminal := b2\<rparr>) = roster s" "roster (s\<lparr>next_terminal := b1\<rparr>) = roster s"
  "roster (s\<lparr>terminalSessionID := b3\<rparr>) = roster s" "roster (s\<lparr>snapshotApplied := a8\<rparr>) = roster s"
  "roster (s\<lparr>replyGate := b4\<rparr>) = roster s" "roster (s\<lparr>writes := b5\<rparr>) = roster s"
  "roster (s\<lparr>fit_loaded := a8\<rparr>) = roster s" "roster (s\<lparr>fitted := b6\<rparr>) = roster s"
  "roster (s\<lparr>screen := b7\<rparr>) = roster s" "roster (s\<lparr>touch := a8\<rparr>) = roster s"
  "roster (s\<lparr>layout := a8\<rparr>) = roster s" "roster (s\<lparr>resizeTimer := b8\<rparr>) = roster s"
  "roster (s\<lparr>lastResize := b9\<rparr>) = roster s" "roster (s\<lparr>reconnectTimer := c1\<rparr>) = roster s"
  "roster (s\<lparr>reconnectAttempts := b1\<rparr>) = roster s" "roster (s\<lparr>inputMode := c2\<rparr>) = roster s"
  "roster (s\<lparr>stored_mode := a3\<rparr>) = roster s" "roster (s\<lparr>storage_works := a8\<rparr>) = roster s"
  "roster (s\<lparr>desktop := a8\<rparr>) = roster s" "roster (s\<lparr>desktopLink := a8\<rparr>) = roster s"
  "roster (s\<lparr>windowLink := a8\<rparr>) = roster s" "roster (s\<lparr>ui := c3\<rparr>) = roster s"
  by (simp_all add: roster_def)

lemma frame_ops [simp]:
  "roster (fst (fitTerminal s)) = roster s"
  "roster (scheduleTerminalReconnect r s) = roster s"
  "roster (fst (socket_close s)) = roster s"
  "roster (set_conn f s) = roster s"
  "roster (fst (finish_replay g s)) = roster s"
  by (simp_all add: fitTerminal_def scheduleTerminalReconnect_def socket_close_def set_conn_def finish_replay_def
      Let_def case_prod_beta split: option.split)

lemma frame_if_current: "(\<And>k. roster (fst (f k s)) = roster s) \<Longrightarrow> roster (fst (if_current n f s)) = roster s"
  by (simp add: if_current_def split: option.split)

lemma frame_connect [simp]:
  "roster (fst (open_connection r b s)) = roster s" "roster (fst (connectTerminal r a s)) = roster s"
  by (simp_all add: connectTerminal_def open_connection_def Let_def)

lemma frame_callbacks [simp]:
  "roster (fst (reconnect_fires s)) = roster s" "roster (fst (resize_fires s)) = roster s"
  "roster (fst (markReady n s)) = roster s" "roster (fst (opened n s)) = roster s"
  "roster (fst (ready_fires n s)) = roster s" "roster (fst (conn_failed n s)) = roster s"
  "roster (link_ready n rs s) = roster s"
  by (simp_all add: reconnect_fires_def resize_fires_def markReady_def opened_def ready_fires_def conn_failed_def
      clearReadyTimer_def if_current_def link_ready_def Let_def case_prod_beta split: option.split)

lemma frame_replay [simp]:
  "roster (fst (applied p s)) = roster s" "roster (fst (protocol_error r s)) = roster s"
  by (simp_all add: applied_def protocol_error_def if_current_def Let_def case_prod_beta split: option.split)

lemma frame_snapshot [simp]: "roster (fst (applySnapshot n d s)) = roster s"
  unfolding applySnapshot_def Let_def case_prod_beta
  by (rule frame_if_current) (simp split: option.split)

lemma frame_received [simp]:
  "roster (fst (perform n r res s)) = roster s" "roster (fst (session_ended w r v s)) = roster s"
  "roster (fst (received_text w n t s)) = roster s" "roster (fst (received_binary n d s)) = roster s"
proof -
  show a: "roster (fst (perform n r res s)) = roster s" for n r res s
    by (simp add: perform_def Let_def split: sum.split option.split action.split)
  show b: "roster (fst (session_ended w r v s)) = roster s" for w r v s
    by (simp add: session_ended_def Let_def)
  show "roster (fst (received_text w n t s)) = roster s"
    unfolding received_text_def
    by (rule frame_if_current) (simp add: a b clearReadyTimer_def split: option.split control.split)
  show "roster (fst (received_binary n d s)) = roster s"
    unfolding received_binary_def Let_def
    by (rule frame_if_current) (simp add: a split: sum.split option.split action.split)
qed

text \<open>\<open>kept v v'\<close>: the account and the identifiers are as before, and nothing was added to the list.\<close>

definition kept :: "view \<Rightarrow> view \<Rightarrow> bool" where
  "kept v v' \<longleftrightarrow> account v' = account v \<and> set (sessions v') \<subseteq> set (sessions v) \<and>
     (\<forall>r. ses_id (objects v' r) = ses_id (objects v r))"

lemma kept_frame: "roster v' = roster v \<Longrightarrow> kept v v'"
  by (simp add: kept_def roster_def fun_eq_iff)

lemma frame_pages [simp]:
  "roster (fst (closeConnection s)) = roster s" "roster (fst (renderLogin m s)) = roster s"
  "roster (fst (renderWorkflows s)) = roster s" "roster (fst (renderWorkflowDetail i s)) = roster s"
  "roster (fst (renderDesktop s)) = roster s"
  by (simp_all add: renderLogin_def renderWorkflows_def renderWorkflowDetail_def renderDesktop_def enter_page_def
      closeConnection_def rememberPortalView_def startPolling_def stopPolling_def)

lemma kept_sessions [simp]: "kept s (fst (renderSessions s))"
  by (auto simp: kept_def roster_def renderSessions_def closeConnection_def rememberPortalView_def startPolling_def stopPolling_def
      listed_sessions_def socket_close_def split: option.split)

lemma frame_install [simp]: "roster (fst (install_terminal r s)) = roster s"
  by (simp add: install_terminal_def)

lemma kept_from: "roster s1 = roster s \<Longrightarrow> kept s1 v \<Longrightarrow> kept s v"
  by (simp add: kept_def roster_def fun_eq_iff)

lemma kept_terminal [simp]: "kept s (fst (renderTerminal i f s))"
proof -
  let ?s1 = "fst (closeConnection (stopPolling s))"
  have f: "roster ?s1 = roster s" by (simp add: stopPolling_def)
  show ?thesis
  proof (cases "find_session i ?s1")
    case (Some r)
    then show ?thesis
      using f by (intro kept_frame) (simp add: renderTerminal_def rememberPortalView_def Let_def)
  next
    case None
    then show ?thesis
      using kept_from [OF f kept_sessions] by (simp add: renderTerminal_def)
  qed
qed

lemma frame_input [simp]:
  "roster (fst (terminal_data d s)) = roster s" "roster (fst (paste_text t s)) = roster s"
  "roster (mode_button s) = roster s" "roster (draft_typed t s) = roster s"
  "roster (input_status_timeout t s) = roster s" "roster (setTerminalInputStatus t s) = roster s"
  "roster (fst (composer_submit s)) = roster s"
  by (simp_all add: terminal_data_def paste_text_def mode_button_def applyInputMode_def saveTerminalInputMode_def
      draft_typed_def input_status_timeout_def setTerminalInputStatus_def composer_submit_def Let_def case_prod_beta
      split: option.split)

lemma frame_closed:
  "roster (fst (closed n code s)) = roster s \<or>
   roster (fst (closed n code s)) = roster (s\<lparr>authenticated := False\<rparr>)"
proof -
  have a: "roster (set_conn f s\<lparr>authenticated := False\<rparr>) = roster (s\<lparr>authenticated := False\<rparr>)" for f
    by (simp add: roster_def set_conn_def)
  show ?thesis
    by (simp add: closed_def if_current_def clearReadyTimer_def Let_def a split: option.split)
qed

lemma kept_step:
  assumes "page_event e"
  shows "kept s (fst (view_step w s e)) \<or> kept (s\<lparr>authenticated := False\<rparr>) (fst (view_step w s e))"
proof (cases e)
  case (LinkClosed n code)
  have "roster (link_ready n CLOSED s\<lparr>authenticated := a\<rparr>) = roster (s\<lparr>authenticated := a\<rparr>)" for a
    by (simp add: link_ready_def roster_def split: option.split)
  then show ?thesis
    using LinkClosed frame_closed [of n code "link_ready n CLOSED s"] by (auto simp: kept_frame)
qed (use assms in \<open>auto simp: kept_frame split: list.split\<close>)

section \<open>Invariant of the portal\<close>

text \<open>What the invariant reads of the portal. A page function that leaves the account alone keeps it.\<close>

definition core ::
  "portal \<Rightarrow> (bool \<times> bool \<times> bool \<times> bool \<times> jsstring set) \<times> nat option \<times> nat \<times> crypto_key option \<times> attempt list \<times> bool \<times>
   nat \<times> (nat \<Rightarrow> jsstring)" where
  "core p = (account (pv p), enc_bridge p, next_bridge p, saved_key p, attempts p, retry_timer p, next_object p,
     (\<lambda>r. ses_id (objects (pv p) r)))"

definition attempts_ok :: "attempt list \<Rightarrow> nat \<Rightarrow> bool" where
  "attempts_ok as n \<longleftrightarrow>
     length (filter resumes as) \<le> 1 \<and> distinct (map a_id as) \<and> (\<forall>a\<in>set as. a_id a < n)"

text \<open>Every session listed is an object that exists, and none of them has been closed.\<close>

definition list_ok :: "view \<Rightarrow> nat \<Rightarrow> bool" where
  "list_ok v n \<longleftrightarrow> (\<forall>r\<in>set (sessions v). r < n \<and> ses_id (objects v r) \<notin> closedSessions v)"

definition sound_for :: "jsstring set \<Rightarrow> portal \<Rightarrow> bool" where
  "sound_for C p \<longleftrightarrow> closedSessions (pv p) = C \<and>
     bridge_up (pv p) = (enc_bridge p \<noteq> None) \<and> resume_key (pv p) = (saved_key p \<noteq> None) \<and>
     (encryptedPortal (pv p) \<and> authenticated (pv p) \<longrightarrow> enc_bridge p \<noteq> None) \<and>
     (retry_timer p \<longrightarrow> saved_key p \<noteq> None) \<and> attempts_ok (attempts p) (next_bridge p) \<and>
     (\<forall>b. enc_bridge p = Some b \<longrightarrow> b < next_bridge p) \<and> list_ok (pv p) (next_object p)"

abbreviation portal_sound :: "portal \<Rightarrow> bool" where
  "portal_sound p \<equiv> sound_for (closedSessions (pv p)) p"

lemma sound_self: "sound_for C p \<Longrightarrow> portal_sound p"
  by (simp add: sound_for_def)

lemma sound_mono:
  "core q = core p \<Longrightarrow> set (sessions (pv q)) \<subseteq> set (sessions (pv p)) \<Longrightarrow> sound_for C p \<Longrightarrow> sound_for C q"
  by (auto simp: sound_for_def core_def roster_def list_ok_def fun_eq_iff)

lemma list_ok_empty [simp]: "sessions v = [] \<Longrightarrow> list_ok v n"
  by (simp add: list_ok_def)

lemma list_ok_update [simp]:
  "list_ok (v\<lparr>authenticated := a\<rparr>) n = list_ok v n" "list_ok (v\<lparr>bridge_up := a\<rparr>) n = list_ok v n"
  "list_ok (v\<lparr>resume_key := a\<rparr>) n = list_ok v n" "list_ok (v\<lparr>ui := u\<rparr>) n = list_ok v n"
  "list_ok (v\<lparr>reconnectTimer := t\<rparr>) n = list_ok v n" "list_ok (v\<lparr>encryptedPortal := a\<rparr>) n = list_ok v n"
  by (simp_all add: list_ok_def)

lemma shown_frame [simp]:
  "core (fold shown_one outs p) = core p" "open_sockets (fold shown_one outs p) = open_sockets p"
  "page_visible (fold shown_one outs p) = page_visible p" "key_store (fold shown_one outs p) = key_store p"
  "pv (fold shown_one outs p) = pv p" "savedTerminals (fold shown_one outs p) = savedTerminals p"
  "enc_bridge (fold shown_one outs p) = enc_bridge p" "saved_key (fold shown_one outs p) = saved_key p"
  "attempts (fold shown_one outs p) = attempts p" "retry_timer (fold shown_one outs p) = retry_timer p"
  "next_bridge (fold shown_one outs p) = next_bridge p" "logouts (fold shown_one outs p) = logouts p"
  "next_object (fold shown_one outs p) = next_object p"
proof -
  have "core (fold shown_one outs p) = core p \<and> open_sockets (fold shown_one outs p) = open_sockets p \<and>
      page_visible (fold shown_one outs p) = page_visible p \<and> key_store (fold shown_one outs p) = key_store p \<and>
      pv (fold shown_one outs p) = pv p \<and> savedTerminals (fold shown_one outs p) = savedTerminals p \<and>
      logouts (fold shown_one outs p) = logouts p"
  proof (induction outs arbitrary: p)
    case (Cons v outs)
    then show ?case by (cases v) (simp_all add: core_def)
  qed simp
  then show "core (fold shown_one outs p) = core p" "open_sockets (fold shown_one outs p) = open_sockets p"
    "page_visible (fold shown_one outs p) = page_visible p" "key_store (fold shown_one outs p) = key_store p"
    "pv (fold shown_one outs p) = pv p" "savedTerminals (fold shown_one outs p) = savedTerminals p"
    "enc_bridge (fold shown_one outs p) = enc_bridge p" "saved_key (fold shown_one outs p) = saved_key p"
    "attempts (fold shown_one outs p) = attempts p" "retry_timer (fold shown_one outs p) = retry_timer p"
    "next_bridge (fold shown_one outs p) = next_bridge p" "logouts (fold shown_one outs p) = logouts p"
    "next_object (fold shown_one outs p) = next_object p"
    by (simp_all add: core_def)
qed

lemma page_core: "kept (pv p) (fst (f (pv p))) \<Longrightarrow> core (fst (page f p)) = core p"
  by (simp add: page_def core_def kept_def Let_def case_prod_beta fun_eq_iff)

lemma page_frame [simp]:
  "open_sockets (fst (page f p)) = open_sockets p" "page_visible (fst (page f p)) = page_visible p"
  "key_store (fst (page f p)) = key_store p" "pv (fst (page f p)) = fst (f (pv p))"
  "enc_bridge (fst (page f p)) = enc_bridge p" "saved_key (fst (page f p)) = saved_key p"
  "attempts (fst (page f p)) = attempts p" "retry_timer (fst (page f p)) = retry_timer p"
  "next_bridge (fst (page f p)) = next_bridge p" "logouts (fst (page f p)) = logouts p"
  "next_object (fst (page f p)) = next_object p"
  by (simp_all add: page_def Let_def case_prod_beta)

lemma sound_kept: "sound_for C p \<Longrightarrow> kept (pv p) (fst (f (pv p))) \<Longrightarrow> sound_for C (fst (page f p))"
  by (rule sound_mono [OF page_core]) (simp_all add: kept_def)

lemma sound_page [intro]: "sound_for C p \<Longrightarrow> (\<And>s. roster (fst (f s)) = roster s) \<Longrightarrow> sound_for C (fst (page f p))"
  by (rule sound_kept) (simp_all add: kept_frame)

lemma sound_listing [intro]:
  "sound_for C p \<Longrightarrow> sound_for C (fst (page renderSessions p))"
  "sound_for C p \<Longrightarrow> sound_for C (fst (page (renderTerminal i f) p))"
  by (simp_all add: sound_kept)

lemma sound_and_then [intro]:
  "sound_for C (fst r) \<Longrightarrow> (\<And>x. sound_for C x \<Longrightarrow> sound_for C (fst (f x))) \<Longrightarrow> sound_for C (fst (and_then r f))"
  by simp

lemma sound_setters [intro]:
  "sound_for C p \<Longrightarrow> sound_for C (set_auth False p)"
  "sound_for C p \<Longrightarrow> sound_for C (set_key (Some k) p)"
  "sound_for C p \<Longrightarrow> sound_for C (clearPortalResumeKey p)"
  "sound_for C p \<Longrightarrow> sound_for C (show_label l c p)"
  "sound_for C p \<Longrightarrow> sound_for C (set_auth False (set_bridge None p))"
  "sound_for C p \<Longrightarrow> sound_for C (p\<lparr>retry_timer := False\<rparr>)"
  by (auto simp: sound_for_def set_auth_def set_key_def clearPortalResumeKey_def show_label_def set_bridge_def)

lemma resumes_phase: "resumes (a\<lparr>a_phase := ph\<rparr>) = resumes a"
  by (simp add: resumes_def)

lemma attempts_ok_map: "attempts_ok as n \<Longrightarrow> attempts_ok (map (\<lambda>a. if a_id a = i then a\<lparr>a_phase := ph\<rparr> else a) as) n"
proof -
  let ?f = "\<lambda>a. if a_id a = i then a\<lparr>a_phase := ph\<rparr> else a"
  have "map a_id (map ?f as) = map a_id as" "map resumes (map ?f as) = map resumes as"
    by (simp_all add: resumes_phase)
  moreover have "length (filter resumes l) = length (filter id (map resumes l))" for l
    by (simp add: filter_map comp_def)
  ultimately have "length (filter resumes (map ?f as)) = length (filter resumes as)"
    by metis
  then show "attempts_ok as n \<Longrightarrow> attempts_ok (map ?f as) n"
    by (auto simp: attempts_ok_def comp_def if_distrib cong: if_cong)
qed

lemma attempts_ok_filter: "attempts_ok as n \<Longrightarrow> attempts_ok (filter P as) n"
proof -
  have "length (filter resumes (filter P as)) \<le> length (filter resumes as)"
    by (induction as) auto
  then show "attempts_ok as n \<Longrightarrow> attempts_ok (filter P as) n"
    by (simp add: attempts_ok_def distinct_map_filter del: filter_filter)
qed

lemma attempts_ok_append:
  "attempts_ok as n \<Longrightarrow> a_id a = n \<Longrightarrow> \<not> resumes a \<or> (\<forall>x\<in>set as. \<not> resumes x) \<Longrightarrow> attempts_ok (as @ [a]) (n + 1)"
  by (auto simp: attempts_ok_def filter_empty_conv less_Suc_eq)

lemma sound_attempts [intro]:
  "sound_for C p \<Longrightarrow> sound_for C (drop_attempt i p)"
  "sound_for C p \<Longrightarrow> sound_for C (set_phase i ph p)"
  by (simp_all add: sound_for_def drop_attempt_def set_phase_def attempts_ok_filter attempts_ok_map)

lemma sound_unseen [intro]:
  "sound_for C p \<Longrightarrow> sound_for C (p\<lparr>open_sockets := l\<rparr>)"
  "sound_for C p \<Longrightarrow> sound_for C (p\<lparr>page_visible := v\<rparr>)"
  "sound_for C p \<Longrightarrow> sound_for C (p\<lparr>logouts := n\<rparr>)"
  "sound_for C p \<Longrightarrow> sound_for C (sessions_answer list control p)"
  "sound_for C p \<Longrightarrow> sound_for C (history_answer saved available p)"
  by (auto simp: sound_for_def sessions_answer_def keep_objects_def history_answer_def list_ok_def Let_def)

lemma sound_close_previous [intro]:
  "sound_for C p \<Longrightarrow> \<not> authenticated (pv p) \<Longrightarrow> sound_for C (fst (close_previous p))"
  by (auto simp: sound_for_def close_previous_def set_bridge_def split: option.split)

lemma close_previous_frame [simp]:
  "attempts (fst (close_previous p)) = attempts p" "saved_key (fst (close_previous p)) = saved_key p"
  "authenticated (pv (fst (close_previous p))) = authenticated (pv p)"
  "encryptedPortal (pv (fst (close_previous p))) = encryptedPortal (pv p)"
  "retry_timer (fst (close_previous p)) = retry_timer p" "next_bridge (fst (close_previous p)) = next_bridge p"
  "enc_bridge (fst (close_previous p)) = None"
  by (simp_all add: close_previous_def set_bridge_def split: option.split)

lemma sound_start:
  assumes "sound_for C p" "\<not> resuming p \<or> (\<forall>sel. kind \<noteq> Resumes sel)"
  shows "sound_for C (fst (start_bridge kind k p))"
proof -
  have "attempts_ok (attempts p @ [\<lparr>a_id = next_bridge p, a_kind = kind, a_key = Some k, a_phase = AwaitConnect\<rparr>])
      (next_bridge p + 1)"
    using assms by (intro attempts_ok_append) (auto simp: sound_for_def resuming_def resumes_def split: attempt_kind.split)
  then show ?thesis
    using assms(1) by (auto simp: sound_for_def start_bridge_def less_SucI)
qed

lemma sound_start_request:
  assumes "sound_for C p" "\<forall>sel. kind \<noteq> Resumes sel"
  shows "sound_for C (fst (start_request kind out p))"
proof -
  have "attempts_ok (attempts p @ [\<lparr>a_id = next_bridge p, a_kind = kind, a_key = None, a_phase = AwaitConnect\<rparr>])
      (next_bridge p + 1)"
    using assms by (intro attempts_ok_append) (auto simp: sound_for_def resumes_def split: attempt_kind.split)
  then show ?thesis
    using assms(1) by (auto simp: sound_for_def start_request_def less_SucI)
qed

lemma resume_cases:
  obtains (skipped) "resumeEncryptedPortal p = (p, [])"
    "saved_key p = None \<or> \<not> encryptedPortal (pv p) \<or> authenticated (pv p) \<or> \<not> page_visible p \<or> resuming p"
  | (started) k where "saved_key p = Some k" "encryptedPortal (pv p)" "\<not> authenticated (pv p)" "page_visible p"
    "\<not> resuming p"
    "resumeEncryptedPortal p =
       and_then (close_previous (show_label resuming_label Connecting (p\<lparr>retry_timer := False\<rparr>)))
         (start_bridge (Resumes (selected (pv p))) k)"
  by (cases "saved_key p"; cases "encryptedPortal (pv p)"; cases "authenticated (pv p)"; cases "page_visible p";
      cases "resuming p"; simp add: resumeEncryptedPortal_def)

lemma sound_resume [intro]: "sound_for C p \<Longrightarrow> sound_for C (fst (resumeEncryptedPortal p))"
proof (cases p rule: resume_cases)
  case (started k)
  moreover assume "sound_for C p"
  ultimately have "sound_for C (fst (close_previous (show_label resuming_label Connecting (p\<lparr>retry_timer := False\<rparr>))))"
    by (intro sound_close_previous sound_setters) (simp_all add: show_label_def)
  then show ?thesis
    unfolding started(6) using started(5) by (simp add: sound_start resuming_def show_label_def)
qed simp

lemma sound_resume_failed [intro]: "sound_for C p \<Longrightarrow> sound_for C (fst (resume_failed msg p))"
proof -
  assume p: "sound_for C p"
  let ?p1 = "set_auth False (set_bridge None p)"
  have r: "sound_for C (if saved_key x \<noteq> None \<and> page_visible x then x\<lparr>retry_timer := True\<rparr> else x)"
    if "sound_for C x" for x
    using that by (simp add: sound_for_def)
  have p1: "sound_for C ?p1" using p by (rule sound_setters)
  show ?thesis
  proof (cases "has_substring (js ''Invalid portal token'') msg")
    case True
    then show ?thesis
      using sound_page [OF sound_setters(3) [OF p1] frame_pages(2)] by (simp add: resume_failed_def)
  next
    case False
    have "sound_for C (fst (if on_page (pv ?p1) \<or> other_page (pv ?p1) then (show_label waking_label Connecting ?p1, [])
        else page (renderLogin m) ?p1))" for m
      using sound_page [OF p1 frame_pages(2)] sound_setters(4) [OF p1] by (simp split: if_split)
    then show ?thesis
      using False r unfolding resume_failed_def Let_def by (simp only: if_False and_then_simps fst_conv)
  qed
qed

lemma sound_retry [intro]: "sound_for C p \<Longrightarrow> sound_for C (fst (retry_fires p))"
  by (auto simp: retry_fires_def)

lemma sound_lost [intro]: "sound_for C p \<Longrightarrow> sound_for C (fst (bridge_lost b e p))"
  unfolding bridge_lost_def Let_def by (auto intro!: sound_page sound_setters)

lemma sound_close_bridge [intro]: "sound_for C p \<Longrightarrow> sound_for C (fst (close_bridge p))"
  unfolding close_bridge_def by (auto split: option.split)

lemma sound_failed [intro]: "sound_for C p \<Longrightarrow> sound_for C (fst (attempt_failed i msg p))"
  unfolding attempt_failed_def Let_def by (auto split: option.split attempt_kind.split intro!: sound_page)

lemma sound_requests [intro]:
  "sound_for C p \<Longrightarrow> sound_for C (fst (request_sessions i p))"
  "sound_for C p \<Longrightarrow> sound_for C (fst (request_history i p))"
  by (auto simp: request_sessions_def request_history_def)

lemma sound_remembered [intro]: "sound_for C p \<Longrightarrow> sound_for C (fst (fst (renderRememberedView p)))"
  unfolding renderRememberedView_def Let_def by (auto split: portal_view.split option.split)

lemma frame_poll [simp]: "roster (fst (startPolling_page s)) = roster s"
  by (simp add: startPolling_page_def startPolling_def stopPolling_def)

lemma sound_resume_page [intro]: "sound_for C p \<Longrightarrow> sound_for C (fst (fst (resume_page sel p)))"
  unfolding resume_page_def Let_def by (auto split: option.split)

lemma sound_arrived [intro]: "sound_for C p \<Longrightarrow> sound_for C (fst (arrived i p))"
proof -
  assume p: "sound_for C p"
  then show ?thesis
    using sound_remembered [OF p] sound_resume_page [OF p]
    by (auto simp: arrived_def case_prod_beta Let_def split: option.split attempt_kind.split)
qed

lemma sound_connected [intro]: "sound_for C p \<Longrightarrow> sound_for C (fst (connected_to i p))"
proof -
  have up: "sound_for C (set_auth True (set_bridge (Some i) x))"
      "sound_for C (set_auth True ((set_key (Some k) (set_bridge (Some i) x))\<lparr>key_store := db\<rparr>))"
      "sound_for C (set_auth True (clearPortalResumeKey (set_bridge (Some i) x)))"
    if "sound_for C x" "i < next_bridge x" for x k db
    using that by (auto simp: sound_for_def set_auth_def set_bridge_def set_key_def clearPortalResumeKey_def)
  have direct: "sound_for C (set_auth True x)"
      "sound_for C (set_auth True ((set_key (Some k) x)\<lparr>key_store := db\<rparr>))"
      "sound_for C (set_auth True (clearPortalResumeKey x))"
    if "sound_for C x" "\<not> encryptedPortal (pv x)" for x k db
    using that by (auto simp: sound_for_def set_auth_def set_key_def clearPortalResumeKey_def)
  assume p: "sound_for C p"
  show ?thesis
  proof (cases "find_attempt i p")
    case (Some a)
    then have "a \<in> set (attempts p)" "a_id a = i"
      by (auto simp: find_attempt_def find_Some_iff)
    then have "i < next_bridge p"
      using p by (auto simp: sound_for_def attempts_ok_def)
    then show ?thesis
      using p up direct Some
      by (cases "encryptedPortal (pv p)")
         (auto simp: connected_to_def Let_def intro!: sound_requests split: attempt_kind.split option.split)
  qed (simp add: connected_to_def p)
qed

lemma sound_loaded [intro]:
  "sound_for C p \<Longrightarrow> sound_for C (fst (sessions_loaded i list control p))"
  "sound_for C p \<Longrightarrow> sound_for C (fst (history_loaded date i response p))"
  "sound_for C p \<Longrightarrow> sound_for C (fst (page_loaded i p))"
  by (auto simp: sessions_loaded_def history_loaded_def page_loaded_def split: option.split sum.split)

lemma sound_rejected [intro]: "sound_for C p \<Longrightarrow> sound_for C (fst (request_rejected date i msg p))"
  by (auto simp: request_rejected_def split: option.split attempt_phase.split)

lemma authenticated_close [simp]: "authenticated (fst (closeConnection s)) = authenticated s"
  by (simp add: closeConnection_def)

lemma sound_expired [intro]: "sound_for C p \<Longrightarrow> sound_for C (fst (session_expired p))"
proof -
  assume p: "sound_for C p"
  have a: "sound_for C (fst (page closeConnection (clearPortalResumeKey (set_auth False p))))"
    "sound_for C (fst (page closeConnection (set_auth False p)))"
    using p by (auto intro!: sound_page sound_setters)
  moreover have "\<not> authenticated (pv (fst (page closeConnection (clearPortalResumeKey (set_auth False p)))))"
    by (simp add: clearPortalResumeKey_def set_key_def set_auth_def)
  ultimately show ?thesis
    unfolding session_expired_def Let_def by (auto intro!: sound_page sound_close_previous)
qed

lemma sound_request_expired [intro]: "sound_for C p \<Longrightarrow> sound_for C (fst (request_expired i p))"
  by (auto simp: request_expired_def split: option.split)

lemma sound_login [intro]: "sound_for C p \<Longrightarrow> sound_for C (fst (login_submit w input keep p))"
  unfolding login_submit_def Let_def
  by (auto split: option.split intro!: sound_start sound_start_request sound_close_bridge)

lemma sound_logout [intro]:
  "sound_for C p \<Longrightarrow> sound_for C (fst (logout_done p))"
  "sound_for C p \<Longrightarrow> sound_for C (fst (logout_click p))"
  "sound_for C p \<Longrightarrow> sound_for C (fst (logout_settled expired p))"
proof -
  show a: "sound_for C (fst (logout_done p))" if "sound_for C p" for p
  proof -
    have "\<not> authenticated (pv (clearPortalResumeKey (set_auth False p)))"
      by (simp add: clearPortalResumeKey_def set_key_def set_auth_def)
    then show ?thesis
      using that unfolding logout_done_def by (auto intro!: sound_page sound_close_previous)
  qed
  show "sound_for C p \<Longrightarrow> sound_for C (fst (logout_click p))"
    by (simp add: logout_click_def a sound_unseen)
  show "sound_for C p \<Longrightarrow> sound_for C (fst (logout_settled expired p))"
    by (simp add: logout_settled_def Let_def a sound_unseen sound_expired)
qed

lemma sound_upload [intro]: "sound_for C p \<Longrightarrow> sound_for C (fst (fst (readyUploadBridge p)))"
  by (auto simp: readyUploadBridge_def split: option.split bool.split)

lemma sound_event [intro]: "sound_for C p \<Longrightarrow> sound_for C (fst (view_event w e p))"
proof -
  assume p: "sound_for C p"
  have step: "sound_for C (fst (page (\<lambda>s. view_step w s e) p))" if "page_event e"
  proof -
    let ?q = "fst (page (\<lambda>s. view_step w s e) p)"
    from kept_step [OF that, of "pv p" w] show ?thesis
    proof
      assume "kept (pv p) (fst (view_step w (pv p) e))"
      then show ?thesis using p by (simp add: sound_kept del: view_step.simps)
    next
      assume "kept ((pv p)\<lparr>authenticated := False\<rparr>) (fst (view_step w (pv p) e))"
      then have "core ?q = core (set_auth False p)" "set (sessions (pv ?q)) \<subseteq> set (sessions (pv (set_auth False p)))"
        by (simp_all add: core_def set_auth_def kept_def fun_eq_iff del: view_step.simps)
      then show ?thesis using sound_mono sound_setters(1) [OF p] by blast
    qed
  qed
  have timer: "sound_for C (p\<lparr>pv := (pv p)\<lparr>reconnectTimer := None\<rparr>\<rparr>)"
    using p by (simp add: sound_for_def)
  let ?r = "and_then (page (\<lambda>s. view_step w s e) p)
     (\<lambda>p1. if ResumePortal \<in> set (snd (view_step w (pv p) e)) then resumeEncryptedPortal p1 else (p1, []))"
  show ?thesis
  proof (cases "page_event e")
    case True
    have usual: "sound_for C (fst ?r)"
      using step [OF True] by (simp add: sound_resume del: view_step.simps)
    show ?thesis
    proof (cases "e = ReconnectTimer \<and> reconnectTimer (pv p) \<noteq> None")
      case reconnect: True
      then obtain d ref where t: "e = ReconnectTimer" "reconnectTimer (pv p) = Some (d, ref)" by auto
      have "sound_for C (fst (and_then (resumeEncryptedPortal (p\<lparr>pv := (pv p)\<lparr>reconnectTimer := None\<rparr>\<rparr>))
          (page (\<lambda>s. (scheduleTerminalReconnect ref s, [])))))"
        using sound_page [OF sound_resume [OF timer]] by simp
      then show ?thesis
        using step [OF True] by (simp add: view_event_def t)
    next
      case False
      then have "view_event w e p = ?r"
        using True by (cases e) (simp_all add: view_event_def split: option.split)
      then show ?thesis using usual by simp
    qed
  qed (simp add: view_event_def p)
qed

lemma sound_step: "sound_for C p \<Longrightarrow> sound_for C (fst (portal_step w p e))"
  by (cases e) (simp_all add: sound_event sound_connected sound_rejected sound_request_expired sound_loaded
      sound_lost sound_unseen sound_retry sound_resume sound_login sound_logout sound_expired sound_upload)

lemma sound_run: "sound_for C p \<Longrightarrow> sound_for C (fst (portal_run w p es))"
proof (induction es arbitrary: p)
  case (Cons e es)
  then show ?case using sound_step [of C p w e] by (simp del: portal_step.simps)
qed simp

lemma sound_boot: "sound_for {} (fst (boot direct (initial_portal remembered db)))"
proof -
  let ?p1 = "(initial_portal remembered db)\<lparr>pv := (pv (initial_portal remembered db))\<lparr>encryptedPortal := \<not> direct\<rparr>\<rparr>"
  have a: "sound_for {} ?p1"
    by (simp add: sound_for_def initial_portal_def initial_view_def attempts_ok_def list_ok_def)
  then have b: "sound_for {} (set_key k ?p1)" for k
    by (simp add: sound_for_def set_key_def initial_portal_def)
  have l: "sound_for {} (fst (page (renderLogin m) (set_key k ?p1)))" for m k
    by (rule sound_page [OF b frame_pages(2)])
  show ?thesis
  proof (cases direct)
    case True
    then show ?thesis using sound_start_request [OF a, of Boots] by (simp add: boot_def)
  next
    case False
    then show ?thesis using l sound_resume [OF l] by (simp add: boot_def Let_def)
  qed
qed


section \<open>A lost connection\<close>

definition invalid_token :: "jsstring \<Rightarrow> bool" where
  "invalid_token msg \<longleftrightarrow> has_substring (js ''Invalid portal token'') msg"

lemma find_last:
  "\<forall>a\<in>set as. a_id a \<noteq> n \<Longrightarrow> find (\<lambda>a. a_id a = n) (as @ [x]) = (if a_id x = n then Some x else None)"
  by (induction as) auto

text \<open>What a resume that starts leaves behind.\<close>

lemma resume_starts:
  assumes "saved_key p = Some k" "encryptedPortal (pv p)" "\<not> authenticated (pv p)" "page_visible p" "\<not> resuming p"
  shows "ConnectBridge (next_bridge p) k \<in> set (snd (resumeEncryptedPortal p))"
    and "attempts (fst (resumeEncryptedPortal p)) =
      attempts p @ [\<lparr>a_id = next_bridge p, a_kind = Resumes (selected (pv p)), a_key = Some k, a_phase = AwaitConnect\<rparr>]"
    and "saved_key (fst (resumeEncryptedPortal p)) = Some k" "page_visible (fst (resumeEncryptedPortal p))"
    "encryptedPortal (pv (fst (resumeEncryptedPortal p)))" "\<not> authenticated (pv (fst (resumeEncryptedPortal p)))"
    "next_bridge (fst (resumeEncryptedPortal p)) = next_bridge p + 1" "enc_bridge (fst (resumeEncryptedPortal p)) = None"
    "set (open_sockets (fst (resumeEncryptedPortal p))) =
       insert (next_bridge p) (set (open_sockets p) - (case enc_bridge p of Some b \<Rightarrow> {b} | None \<Rightarrow> {}))"
    "enc_bridge p = None \<Longrightarrow> open_sockets (fst (resumeEncryptedPortal p)) = open_sockets p @ [next_bridge p]"
  using assms
  by (auto simp: resumeEncryptedPortal_def close_previous_def start_bridge_def show_label_def set_bridge_def split: option.split)

lemma resume_find:
  assumes "sound_for C p" "saved_key p = Some k" "encryptedPortal (pv p)" "\<not> authenticated (pv p)" "page_visible p"
    "\<not> resuming p"
  shows "find_attempt (next_bridge p) (fst (resumeEncryptedPortal p)) =
    Some \<lparr>a_id = next_bridge p, a_kind = Resumes (selected (pv p)), a_key = Some k, a_phase = AwaitConnect\<rparr>"
proof -
  have "\<forall>a\<in>set (attempts p). a_id a \<noteq> next_bridge p"
    using assms(1) by (auto simp: sound_for_def attempts_ok_def)
  then show ?thesis
    by (simp add: find_attempt_def resume_starts(2) [OF assms(2-)] find_last)
qed

text \<open>A resume that fails for another reason than its key sets the timer again.\<close>

lemma resume_failed_retries:
  assumes "saved_key p = Some k" "page_visible p" "\<not> invalid_token msg" "encryptedPortal (pv p)"
  shows "retry_timer (fst (resume_failed msg p))" "saved_key (fst (resume_failed msg p)) = Some k"
    "\<not> authenticated (pv (fst (resume_failed msg p)))" "page_visible (fst (resume_failed msg p))"
    "encryptedPortal (pv (fst (resume_failed msg p)))" "attempts (fst (resume_failed msg p)) = attempts p"
    "next_bridge (fst (resume_failed msg p)) = next_bridge p" "enc_bridge (fst (resume_failed msg p)) = None"
    "open_sockets (fst (resume_failed msg p)) = open_sockets p"
proof -
  have l: "authenticated (fst (renderLogin m s)) = authenticated s" "encryptedPortal (fst (renderLogin m s)) = encryptedPortal s"
    for m s using frame_pages(2) [of m s] by (simp_all add: roster_def)
  show "retry_timer (fst (resume_failed msg p))" "saved_key (fst (resume_failed msg p)) = Some k"
    "\<not> authenticated (pv (fst (resume_failed msg p)))" "page_visible (fst (resume_failed msg p))"
    "encryptedPortal (pv (fst (resume_failed msg p)))" "attempts (fst (resume_failed msg p)) = attempts p"
    "next_bridge (fst (resume_failed msg p)) = next_bridge p" "enc_bridge (fst (resume_failed msg p)) = None"
    "open_sockets (fst (resume_failed msg p)) = open_sockets p"
    using assms
    by (simp_all add: resume_failed_def invalid_token_def Let_def set_auth_def set_bridge_def show_label_def l)
qed

lemma resuming_drop:
  assumes "sound_for C p" "find_attempt i p = Some a" "resumes a"
  shows "\<not> resuming (drop_attempt i p)"
proof
  assume "resuming (drop_attempt i p)"
  then obtain b where b: "b \<in> set (attempts p)" "a_id b \<noteq> i" "resumes b"
    by (auto simp: resuming_def drop_attempt_def)
  have a: "a \<in> set (attempts p)" "a_id a = i"
    using assms(2) by (auto simp: find_attempt_def find_Some_iff)
  have "card {a, b} \<le> card (set (filter resumes (attempts p)))"
    using a b assms(3) by (intro card_mono) auto
  also have "\<dots> \<le> length (filter resumes (attempts p))" by (rule card_length)
  also have "\<dots> \<le> 1" using assms(1) by (simp add: sound_for_def attempts_ok_def)
  finally have "card {a, b} \<le> 1" .
  moreover have "a \<noteq> b" using a(2) b(2) by auto
  ultimately show False by simp
qed

text \<open>One turn of the retry: the resume's promise rejects, the timer is set, and when it fires the next
  bridge is connected with the same key.\<close>

lemma retry_turn:
  fixes w :: portal_env
  assumes p: "sound_for C p" and a: "find_attempt i p = Some a" "a_kind a = Resumes sel"
    and ph: "a_phase a = AwaitConnect \<or> a_phase a = AwaitSessions"
    and k: "saved_key p = Some k" and v: "page_visible p" "encryptedPortal (pv p)" and m: "\<not> invalid_token msg"
  defines "p1 \<equiv> fst (portal_step w p (Rejected i msg))"
  shows "retry_timer p1" "enc_bridge p1 = None"
    "ConnectBridge (next_bridge p) k \<in> set (snd (portal_step w p1 RetryTimer))"
    "open_sockets (fst (portal_step w p1 RetryTimer)) = open_sockets p @ [next_bridge p]"
    "next_bridge (fst (portal_step w p1 RetryTimer)) = next_bridge p + 1"
    "find_attempt (next_bridge p) (fst (portal_step w p1 RetryTimer)) =
      Some \<lparr>a_id = next_bridge p, a_kind = Resumes (selected (pv p1)), a_key = Some k, a_phase = AwaitConnect\<rparr>"
    "saved_key (fst (portal_step w p1 RetryTimer)) = Some k" "page_visible (fst (portal_step w p1 RetryTimer))"
    "encryptedPortal (pv (fst (portal_step w p1 RetryTimer)))" "sound_for C (fst (portal_step w p1 RetryTimer))"
proof -
  let ?q = "drop_attempt i p"
  have p1: "p1 = fst (resume_failed msg ?q)"
    using a ph by (auto simp: p1_def request_rejected_def attempt_failed_def)
  have q: "saved_key ?q = Some k" "page_visible ?q" "encryptedPortal (pv ?q)" "open_sockets ?q = open_sockets p"
    "next_bridge ?q = next_bridge p" "\<not> resuming ?q" "sound_for C ?q"
    using k v resuming_drop [OF p a(1)] a(2) sound_attempts(1) [OF p, of i] by (simp_all add: drop_attempt_def resumes_def)
  note f = resume_failed_retries [OF q(1,2) m q(3)]
  let ?r = "p1\<lparr>retry_timer := False\<rparr>"
  have s: "sound_for C ?r" unfolding p1 using q(7) by (intro sound_setters sound_resume_failed)
  have r: "saved_key ?r = Some k" "encryptedPortal (pv ?r)" "\<not> authenticated (pv ?r)" "page_visible ?r" "\<not> resuming ?r"
    "enc_bridge ?r = None"
    using f q(6) by (simp_all add: p1 resuming_def)
  note t = resume_starts [OF r(1-5)]
  have step: "portal_step w p1 RetryTimer = resumeEncryptedPortal ?r"
    using f(1) by (simp add: retry_fires_def p1)
  show "retry_timer p1" "enc_bridge p1 = None" using f by (simp_all add: p1)
  show "ConnectBridge (next_bridge p) k \<in> set (snd (portal_step w p1 RetryTimer))"
    "open_sockets (fst (portal_step w p1 RetryTimer)) = open_sockets p @ [next_bridge p]"
    "next_bridge (fst (portal_step w p1 RetryTimer)) = next_bridge p + 1"
    "saved_key (fst (portal_step w p1 RetryTimer)) = Some k" "page_visible (fst (portal_step w p1 RetryTimer))"
    "encryptedPortal (pv (fst (portal_step w p1 RetryTimer)))"
    using t(1,3-5,7) t(10) [OF r(6)] f(7,9) q(4,5) unfolding step by (simp_all add: p1)
  show "find_attempt (next_bridge p) (fst (portal_step w p1 RetryTimer)) =
      Some \<lparr>a_id = next_bridge p, a_kind = Resumes (selected (pv p1)), a_key = Some k, a_phase = AwaitConnect\<rparr>"
    using resume_find [OF s r(1-5)] f(7) q(5) unfolding step by (simp add: p1)
  show "sound_for C (fst (portal_step w p1 RetryTimer))" unfolding step using s by (rule sound_resume)
qed


section \<open>Sockets that nobody closes\<close>

fun failing_rounds :: "nat \<Rightarrow> nat \<Rightarrow> jsstring \<Rightarrow> pevent list" where
  "failing_rounds i 0 msg = []"
| "failing_rounds i (Suc n) msg = [Connected i, Rejected i msg, RetryTimer] @ failing_rounds (Suc i) n msg"

lemma find_phase:
  "find_attempt i p = Some a \<Longrightarrow> find_attempt i (set_phase i ph p) = Some (a\<lparr>a_phase := ph\<rparr>)"
proof -
  have "find (\<lambda>x. a_id x = i) as = Some a \<Longrightarrow>
      find (\<lambda>x. a_id x = i) (map (\<lambda>x. if a_id x = i then x\<lparr>a_phase := ph\<rparr> else x) as) = Some (a\<lparr>a_phase := ph\<rparr>)" for as
    by (induction as) (auto split: if_splits)
  then show "find_attempt i p = Some a \<Longrightarrow> find_attempt i (set_phase i ph p) = Some (a\<lparr>a_phase := ph\<rparr>)"
    by (simp add: find_attempt_def set_phase_def)
qed

text \<open>The bridge of a resume has authenticated: the sessions are asked for.\<close>

lemma resume_connects:
  assumes "find_attempt i p = Some a" "a_kind a = Resumes sel" "a_phase a = AwaitConnect" "encryptedPortal (pv p)"
  shows "connected_to i p = (set_phase i AwaitSessions (set_auth True (set_bridge (Some i) p)), [RequestSessions (Some i)])"
    "find_attempt i (fst (connected_to i p)) = Some (a\<lparr>a_phase := AwaitSessions\<rparr>)"
proof -
  have e: "connected_to i p = (set_phase i AwaitSessions (set_auth True (set_bridge (Some i) p)), [RequestSessions (Some i)])"
    using assms by (simp add: connected_to_def request_sessions_def can_request_def set_auth_def set_bridge_def)
  show "connected_to i p = (set_phase i AwaitSessions (set_auth True (set_bridge (Some i) p)), [RequestSessions (Some i)])"
    by (rule e)
  have "find_attempt i (set_auth True (set_bridge (Some i) p)) = Some a"
    using assms(1) by (simp add: find_attempt_def set_auth_def set_bridge_def)
  then show "find_attempt i (fst (connected_to i p)) = Some (a\<lparr>a_phase := AwaitSessions\<rparr>)"
    by (simp add: e find_phase)
qed

lemma failing_round:
  fixes w :: portal_env
  assumes p: "sound_for C p" and a: "find_attempt i p = Some a" "a_kind a = Resumes sel" "a_phase a = AwaitConnect"
    and n: "next_bridge p = Suc i" and k: "saved_key p = Some k" and v: "page_visible p" "encryptedPortal (pv p)"
    and m: "\<not> invalid_token msg"
  defines "q \<equiv> fst (portal_run w p [Connected i, Rejected i msg, RetryTimer])"
  shows "sound_for C q" "open_sockets q = open_sockets p @ [Suc i]" "next_bridge q = Suc (Suc i)" "saved_key q = Some k"
    "page_visible q" "encryptedPortal (pv q)"
    "\<exists>a sel. find_attempt (Suc i) q = Some a \<and> a_kind a = Resumes sel \<and> a_phase a = AwaitConnect"
proof -
  define c where "c = fst (connected_to i p)"
  have c: "saved_key c = Some k" "page_visible c" "encryptedPortal (pv c)" "open_sockets c = open_sockets p"
    "next_bridge c = Suc i" "find_attempt i c = Some (a\<lparr>a_phase := AwaitSessions\<rparr>)"
    using k v n resume_connects [OF a v(2)] by (simp_all add: c_def set_phase_def set_auth_def set_bridge_def)
  have "sound_for C c" unfolding c_def by (rule sound_connected [OF p])
  note t = retry_turn [OF this c(6) _ _ c(1-3) m, simplified, OF a(2)]
  have q: "q = fst (portal_step w (fst (portal_step w c (Rejected i msg))) RetryTimer)"
    by (simp add: q_def c_def case_prod_beta Let_def)
  show "sound_for C q" "open_sockets q = open_sockets p @ [Suc i]" "next_bridge q = Suc (Suc i)" "saved_key q = Some k"
    "page_visible q" "encryptedPortal (pv q)"
    "\<exists>a sel. find_attempt (Suc i) q = Some a \<and> a_kind a = Resumes sel \<and> a_phase a = AwaitConnect"
    unfolding q using t [of w] c(4,5) by simp_all
qed

text \<open>C27. Resumes that fail after their bridge is up leak its socket: when a resume connects, its session
  request fails and the timer starts the next, then after \<open>n\<close> such rounds \<open>n\<close> more web sockets are open.
  The ninth of a device is refused by the relay (\<open>one_connector_eight_browsers\<close>).\<close>

theorem failed_resumes_leak_sockets:
  assumes "portal_sound p" "find_attempt i p = Some a" "a_kind a = Resumes sel" "a_phase a = AwaitConnect"
    and "next_bridge p = Suc i" "saved_key p = Some k" "page_visible p" "encryptedPortal (pv p)" "\<not> invalid_token msg"
  shows "open_sockets (fst (portal_run w p (failing_rounds i n msg))) = open_sockets p @ [Suc i ..< Suc i + n]"
  using assms(1-8)
proof (induction n arbitrary: p i a sel)
  case (Suc n)
  let ?q = "fst (portal_run w p [Connected i, Rejected i msg, RetryTimer])"
  note r = failing_round [OF Suc.prems assms(9), of w]
  from r(7) obtain a' sel' where a': "find_attempt (Suc i) ?q = Some a'" "a_kind a' = Resumes sel'" "a_phase a' = AwaitConnect"
    by blast
  have "fst (portal_run w p (failing_rounds i (Suc n) msg)) = fst (portal_run w ?q (failing_rounds (Suc i) n msg))"
    unfolding failing_rounds.simps run_steps_append by (simp add: case_prod_beta Let_def)
  then show ?case
    using Suc.IH [OF sound_self [OF r(1)] a' r(3-6)] r(2) by (simp add: upt_rec del: portal_step.simps run_steps.simps upt_Suc)
qed simp

section \<open>A resume and the user\<close>

lemma connect_effect:
  assumes "bridge_up s"
  shows "OpenLink (next_conn s) (ses_id (objects s ref)) \<in> set (snd (connectTerminal ref a s))"
    "selected (fst (connectTerminal ref a s)) = selected s" "on_page (fst (connectTerminal ref a s)) = on_page s"
    "terminalSessionID (fst (connectTerminal ref a s)) = terminalSessionID s"
    "\<exists>k. conn (fst (connectTerminal ref a s)) = Some k \<and> c_id k = next_conn s \<and> c_session k = ref"
  using assms by (simp_all add: connectTerminal_def open_connection_def new_connection_def Let_def)

text \<open>C28. A resume connects the terminal that was selected when it began: if the user has gone to another
  terminal in the meantime, the page of that one stays, with its emulator, and gets a link to the
  session left behind; what is typed goes there.\<close>

theorem resume_connects_wrong_terminal:
  assumes "find_attempt i p = Some a" "a_kind a = Resumes (Some old)" "a_phase a = AwaitHistory"
    and "loadTerminalHistory (dates w) (Inl v) = Inl (saved, available)"
    and "view_name (pv p) = ViewTerminal" "on_page (pv p)" "terminal (pv p) \<noteq> None" "bridge_up (pv p)"
    and "selected (pv p) = Some new" "terminalSessionID (pv p) = Some new" "new \<noteq> old" "old \<noteq> []"
    and "find_session old (pv p) = Some ref" "(q, outs) = portal_step w p (HistoryIs i v)"
  shows "View (OpenLink (next_conn (pv p)) old) \<in> set outs \<and> selected (pv q) = Some new \<and>
    terminalSessionID (pv q) = Some new \<and> on_page (pv q) \<and>
    (\<exists>k. conn (pv q) = Some k \<and> c_session k = ref) \<and> ses_id (objects (pv p) ref) = old"
proof -
  have id: "ses_id (objects (pv p) ref) = old"
    using assms(13) by (auto simp: find_session_def find_Some_iff)
  have "portal_step w p (HistoryIs i v) =
      and_then (page (connectTerminal ref False) (history_answer saved available p)) (\<lambda>p1. (drop_attempt i p1, []))"
    using assms(1-7,12,13)
    by (simp add: history_loaded_def arrived_def resume_page_def resume_session_def history_answer_def find_attempt_def
        Let_def)
  then have q: "q = drop_attempt i (fst (page (connectTerminal ref False) (history_answer saved available p)))"
    "outs = snd (page (connectTerminal ref False) (history_answer saved available p))"
    using assms(14) by (metis and_then_simps fst_conv, metis and_then_simps append_Nil2 snd_conv)
  show ?thesis
    using connect_effect [OF assms(8), of ref False] id assms(6,9,10) unfolding q
    by (auto simp: page_def history_answer_def drop_attempt_def case_prod_beta Let_def)
qed

text \<open>A resume that fails late takes the login with it: while it was connecting the user has logged in
  by hand, and its failure forgets the new bridge without closing its socket, logs out, and, when it
  says that the token is invalid, throws the new key away as well.\<close>

theorem late_resume_logs_out:
  assumes "find_attempt i p = Some a" "a_kind a = Resumes sel" "a_phase a = AwaitConnect" "encryptedPortal (pv p)"
    and "authenticated (pv p)" "enc_bridge p = Some b" "b \<in> set (open_sockets p)"
    and "(q, outs) = portal_step w p (Rejected i msg)"
  shows "\<not> authenticated (pv q) \<and> enc_bridge q = None \<and> b \<in> set (open_sockets q) \<and> CloseBridge b \<notin> set outs \<and>
    (invalid_token msg \<longrightarrow> saved_key q = None \<and> loadPortalResumeKey (key_store q) = None)"
proof -
  have l: "authenticated (fst (renderLogin m s)) = authenticated s" for m s
    using frame_pages(2) [of m s] by (simp add: roster_def)
  have "(q, outs) = resume_failed msg (drop_attempt i p)"
    using assms(1-3,8) by (simp add: request_rejected_def attempt_failed_def)
  then have q: "q = fst (resume_failed msg (drop_attempt i p))" "outs = snd (resume_failed msg (drop_attempt i p))"
    by (metis fst_conv, metis snd_conv)
  show ?thesis
    using assms(7) unfolding q
    by (auto simp: resume_failed_def invalid_token_def clearPortalResumeKey_def set_key_def set_auth_def set_bridge_def
        drop_attempt_def show_label_def Let_def l page_def case_prod_beta loadPortalResumeKey_def
        forgetPortalResumeKey_def split: option.split)
qed

text \<open>A bridge that is lost while a resumed page loads its content is not replaced: the resume is still
  in flight, so the loss starts none, and it ends well, so it sets no timer.\<close>

theorem loss_while_page_loads:
  assumes "portal_sound p" "encryptedPortal (pv p)" "authenticated (pv p)" "enc_bridge p = Some b" "saved_key p = Some k"
    and "find_attempt i p = Some a" "a_kind a = Resumes sel" "a_phase a = AwaitPage" "\<not> retry_timer p"
    and "(q, outs) = portal_run w p [BridgeFailed b e, PageLoaded i]"
  shows "enc_bridge q = None \<and> \<not> authenticated (pv q) \<and> saved_key q = Some k \<and> \<not> resuming q \<and> \<not> retry_timer q \<and>
    outs = []"
proof -
  define p1 where "p1 = show_label paused_label Connecting (set_auth False (set_bridge None
    (p\<lparr>open_sockets := filter (\<lambda>n. n \<noteq> b) (open_sockets p)\<rparr>)))"
  have a: "a \<in> set (attempts p)" "a_id a = i" "resumes a"
    using assms(6,7) by (auto simp: find_attempt_def find_Some_iff resumes_def)
  have "resuming p1"
    using a by (auto simp: resuming_def p1_def show_label_def set_auth_def set_bridge_def)
  then have "resumeEncryptedPortal p1 = (p1, [])"
    by (simp add: resumeEncryptedPortal_def split: option.split)
  then have s1: "portal_step w p (BridgeFailed b e) = (p1, [])"
    using assms(3-5) by (simp add: bridge_lost_def p1_def set_auth_def set_bridge_def)
  have f: "find_attempt i p1 = Some a"
    using assms(6) by (simp add: find_attempt_def p1_def show_label_def set_auth_def set_bridge_def)
  have "sound_for (closedSessions (pv p)) p1"
    unfolding p1_def using assms(1) by (intro sound_setters sound_unseen)
  then have "\<not> resuming (drop_attempt i p1)"
    by (rule resuming_drop [OF _ f a(3)])
  moreover have "q = drop_attempt i p1" "outs = []"
  proof -
    have "fst (portal_run w p [BridgeFailed b e, PageLoaded i]) = drop_attempt i p1 \<and>
        snd (portal_run w p [BridgeFailed b e, PageLoaded i]) = []"
      using s1 f assms(8) by (simp add: page_loaded_def del: portal_step.simps(8))
    then show "q = drop_attempt i p1" "outs = []"
      using assms(10) by (metis fst_conv, metis snd_conv)
  qed
  ultimately show ?thesis
    using assms(5,9) by (simp add: drop_attempt_def p1_def show_label_def set_auth_def set_bridge_def)
qed

text \<open>A failed login ends the retrying: pressing the button with an incomplete token while a retry is
  scheduled cancels the timer and starts nothing in its place.\<close>

theorem short_token_stops_retry:
  assumes "login_form p = Some f" "\<not> form_busy f p" "length (trim input) < 32"
    and "(q, outs) = portal_run w p [LoginSubmit input keep, RetryTimer]"
  shows "q = p\<lparr>retry_timer := False\<rparr> \<and> outs = [LoginError f short_token]"
proof -
  have "fst (portal_run w p [LoginSubmit input keep, RetryTimer]) = p\<lparr>retry_timer := False\<rparr> \<and>
      snd (portal_run w p [LoginSubmit input keep, RetryTimer]) = [LoginError f short_token]"
    using assms(1-3) by (simp add: login_submit_def retry_fires_def Let_def)
  then show ?thesis using assms(4) by (metis fst_conv snd_conv)
qed

section \<open>The direct portal\<close>

text \<open>On a direct portal nobody hears that the token was wrong: the computer answers 401, \<open>api\<close> takes
  it for an expired session and replaces the login page by an empty one, and the error goes to the form
  that is gone.\<close>

theorem wrong_token_is_silent:
  assumes "portal_sound p" "\<not> encryptedPortal (pv p)" "login_form p = Some f" "\<not> form_busy f p" "f < next_form p"
    and "32 \<le> length (trim input)" "(q, outs) = portal_run w p [LoginSubmit input keep, ExpiredAt (next_bridge p)]"
  shows "login_form q = Some (next_form p) \<and> View (ShowLogin []) \<in> set outs \<and>
    filter (\<lambda>v. case v of LoginError g _ \<Rightarrow> True | _ \<Rightarrow> False) outs = [LoginError f expired_message] \<and>
    f \<noteq> next_form p \<and> attempts q = attempts p"
proof -
  let ?n = "next_bridge p"
  let ?a = "\<lparr>a_id = ?n, a_kind = LogsIn f keep, a_key = None, a_phase = AwaitConnect\<rparr>"
  let ?p1 = "p\<lparr>retry_timer := False, attempts := attempts p @ [?a], next_bridge := ?n + 1\<rparr>"
  have ids: "\<forall>a\<in>set (attempts p). a_id a \<noteq> ?n"
    using assms(1) by (auto simp: sound_for_def attempts_ok_def)
  have s1: "portal_step w p (LoginSubmit input keep) = (?p1, [RequestLogin (trim input)])"
    using assms(2-4,6) by (simp add: login_submit_def start_request_def Let_def)
  have f: "find_attempt ?n ?p1 = Some ?a"
    using find_last [OF ids, of ?a] by (simp add: find_attempt_def)
  let ?c = "fst (page closeConnection (set_auth False ?p1))"
  let ?l = "fst (page (renderLogin []) ?c)"
  have e: "session_expired ?p1 = and_then (page closeConnection (set_auth False ?p1)) (page (renderLogin []))"
    using assms(2) by (simp add: session_expired_def set_auth_def)
  have quiet: "fold shown_one (snd (closeConnection s)) x = x" for s x
    by (simp add: closeConnection_def socket_close_def split: option.split)
  have l: "login_form ?l = Some (next_form p)" "attempts ?l = attempts p @ [?a]"
    by (simp_all add: page_def case_prod_beta Let_def renderLogin_def quiet set_auth_def)
  have o1: "snd (page closeConnection x) = map View (snd (closeConnection (pv x)))"
    "snd (page (renderLogin []) x) = map View (snd (closeConnection (stopPolling (pv x))) @ [ShowLogin []])" for x
    by (simp_all add: page_def case_prod_beta Let_def renderLogin_def)
  have fa: "find_attempt ?n ?l = Some ?a"
    using f l(2) by (simp add: find_attempt_def)
  have s2: "portal_step w ?p1 (ExpiredAt ?n) =
      (drop_attempt ?n ?l, snd (session_expired ?p1) @ [LoginError f expired_message])"
    using f fa assms(2) e by (simp add: request_expired_def attempt_failed_def and_then_def case_prod_beta Let_def)
  have x: "filter (\<lambda>v. case v of LoginError g _ \<Rightarrow> True | _ \<Rightarrow> False) (snd (session_expired ?p1)) = []"
    "View (ShowLogin []) \<in> set (snd (session_expired ?p1))"
    unfolding e by (simp_all add: o1 filter_map comp_def)
  have d: "attempts (drop_attempt ?n ?l) = attempts p" "login_form (drop_attempt ?n ?l) = login_form ?l"
    using l(2) ids by (simp_all add: drop_attempt_def filter_id_conv)
  have "q = drop_attempt ?n ?l" "outs = RequestLogin (trim input) # snd (session_expired ?p1) @ [LoginError f expired_message]"
    using assms(7) s1 s2 by (simp_all add: prod_eq_iff del: portal_step.simps)
  then show ?thesis
    using d l(1) x assms(5) by simp
qed

text \<open>When a direct portal that is logged in cannot load its sessions at the start, it shows nothing
  at all: no page, no message, no further attempt.\<close>

theorem direct_start_failure_is_blank:
  "portal_run w (fst (boot True (initial_portal remembered db))) [Connected 0, Rejected 0 msg] =
     (let p = fst (boot True (initial_portal remembered db)) in (set_auth True (p\<lparr>attempts := []\<rparr>), [RequestSessions None]))"
  by (simp add: prod_eq_iff boot_def start_request_def initial_portal_def initial_view_def connected_to_def find_attempt_def
      request_sessions_def can_request_def set_phase_def set_auth_def request_rejected_def attempt_failed_def
      drop_attempt_def Let_def)

section \<open>What is remembered\<close>

definition good_key :: "crypto_key \<Rightarrow> bool" where
  "good_key k \<longleftrightarrow> \<not> extractable k \<and> algorithm k = js ''AES-GCM'' \<and> js ''encrypt'' \<in> set (usages k) \<and>
     js ''decrypt'' \<in> set (usages k)"

lemma boot_encrypted:
  "loadPortalResumeKey db = Some k \<Longrightarrow>
     ConnectBridge 0 k \<in> set (snd (boot False (initial_portal remembered db)))"
  "loadPortalResumeKey db = None \<Longrightarrow>
     snd (boot False (initial_portal remembered db)) = [View (ShowLogin [])]"
proof -
  have v: "pv (fst (page (renderLogin m) p)) = fst (renderLogin m (pv p))" for m p by simp
  have l: "encryptedPortal (fst (renderLogin m s)) = encryptedPortal s" "authenticated (fst (renderLogin m s)) = authenticated s"
    for m s using frame_pages(2) [of m s] by (simp_all add: roster_def)
  assume k: "loadPortalResumeKey db = Some k"
  let ?q = "fst (page (renderLogin (js ''Restoring the secure device login'' @ ellipsis)) (set_key (Some k) (initial_portal remembered db)))"
  have "saved_key ?q = Some k" "encryptedPortal (pv ?q)" "\<not> authenticated (pv ?q)" "page_visible ?q" "\<not> resuming ?q"
    "next_bridge ?q = 0"
    by (simp_all add: l set_key_def initial_portal_def initial_view_def resuming_def)
  from resume_starts(1) [OF this(1-5)] this(6)
  show "ConnectBridge 0 k \<in> set (snd (boot False (initial_portal remembered db)))"
    using k by (simp add: boot_def Let_def initial_portal_def initial_view_def set_key_def)
next
  assume "loadPortalResumeKey db = None"
  then show "snd (boot False (initial_portal remembered db)) = [View (ShowLogin [])]"
    by (simp add: boot_def Let_def initial_portal_def initial_view_def set_key_def page_def case_prod_beta renderLogin_def
        closeConnection_def socket_close_def stopPolling_def)
qed

text \<open>A device that was asked to stay signed in does: after such a login the next start connects with
  the key of that login, and after a logout it asks for the token and the bridge is closed.\<close>

theorem remembered_device_signs_in:
  assumes "find_attempt i p = Some a" "a_kind a = LogsIn f True" "a_key a = Some k" "a_phase a = AwaitConnect"
    and "encryptedPortal (pv p)" "key_store p \<noteq> None" "good_key k"
    and "(q, outs) = portal_step w p (Connected i)" "(r, outs') = logout_done q"
  shows "ConnectBridge 0 k \<in> set (snd (boot False (initial_portal remembered (key_store q)))) \<and>
    snd (boot False (initial_portal remembered (key_store r))) = [View (ShowLogin [])] \<and>
    CloseBridge i \<in> set outs' \<and> i \<notin> set (open_sockets r) \<and> \<not> authenticated (pv r)"
proof -
  have l: "authenticated (fst (renderLogin m s)) = authenticated s" for m s
    using frame_pages(2) [of m s] by (simp add: roster_def)
  have q: "q = fst (portal_step w p (Connected i))" using assms(8) by (metis fst_conv)
  have r: "r = fst (logout_done q)" "outs' = snd (logout_done q)" using assms(9) by (metis fst_conv, metis snd_conv)
  have store: "key_store q = Some (Some (StoredKey k))" "enc_bridge q = Some i"
    unfolding q using assms(1-7)
    by (auto simp: connected_to_def request_sessions_def can_request_def set_phase_def set_auth_def set_bridge_def set_key_def
        savePortalResumeKey_def good_key_def)
  have "loadPortalResumeKey (key_store q) = Some k"
    using assms(7) by (simp add: store loadPortalResumeKey_def good_key_def)
  moreover have "loadPortalResumeKey (key_store r) = None" "CloseBridge i \<in> set outs'" "i \<notin> set (open_sockets r)"
    "\<not> authenticated (pv r)"
    using store
    by (simp_all add: r logout_done_def close_previous_def clearPortalResumeKey_def set_key_def set_auth_def set_bridge_def
        forgetPortalResumeKey_def loadPortalResumeKey_def l)
  ultimately show ?thesis
    using boot_encrypted by simp
qed

lemma view_text_inj: "find (\<lambda>w. view_text w = view_text v) all_views = Some v"
  by (cases v) (simp_all add: all_views_def js_eval)

text \<open>The portal comes back to the view it was left in: reading what \<open>rememberPortalView\<close> stored gives
  the same view, terminal and team room.\<close>

theorem last_view_round_trip:
  assumes "parse_text t = Some (remembered_json v sel flow)" "t \<noteq> []"
  shows "readLastPortalView parse_text (Some t) = (v, sel, flow)"
  using assms view_text_inj [of v]
  by (cases sel; cases flow)
     (simp_all add: readLastPortalView_def remembered_json_def known_view_def)

section \<open>Witnesses\<close>

definition demo_key :: crypto_key where
  "demo_key = \<lparr>extractable = False, algorithm = js ''AES-GCM'', usages = [js ''encrypt'', js ''decrypt'']\<rparr>"

definition demo_portal_env :: portal_env where
  "demo_portal_env = \<lparr>page_env = demo_env, dates = (\<lambda>_. None), token_key = (\<lambda>_. demo_key)\<rparr>"

text \<open>A portal on the dashboard that is logged in through bridge 0.\<close>

definition demo_portal :: portal where
  "demo_portal = (initial_portal (ViewSessions, None, None) (Some None))\<lparr>
     pv := (initial_view ViewSessions None None)\<lparr>authenticated := True, bridge_up := True, resume_key := True, other_page := True\<rparr>,
     enc_bridge := Some 0, next_bridge := 1, open_sockets := [0], saved_key := Some demo_key, session_list := True\<rparr>"

definition demo_resume :: "attempt_phase \<Rightarrow> jsstring option \<Rightarrow> attempt" where
  "demo_resume ph sel = \<lparr>a_id = 1, a_kind = Resumes sel, a_key = Some demo_key, a_phase = ph\<rparr>"

lemma demo_good: "good_key demo_key"
  by (simp add: good_key_def demo_key_def)

lemma demo_portal_facts [simp]:
  "portal_sound demo_portal" "encryptedPortal (pv demo_portal)" "authenticated (pv demo_portal)"
  "enc_bridge demo_portal = Some 0" "saved_key demo_portal = Some demo_key" "page_visible demo_portal"
  "\<not> resuming demo_portal" "next_bridge demo_portal = 1" "open_sockets demo_portal = [0]" "\<not> retry_timer demo_portal"
  "key_store demo_portal = Some None" "attempts demo_portal = []"
  by (simp_all add: demo_portal_def initial_portal_def initial_view_def sound_for_def attempts_ok_def resuming_def)

lemma not_invalid [simp]: "\<not> invalid_token (js ''offline'')" "invalid_token (js ''Invalid portal token'')"
  by (simp_all add: invalid_token_def js_eval)


lemma demo_resuming:
  fixes ph sel
  defines "p \<equiv> demo_portal\<lparr>pv := (pv demo_portal)\<lparr>authenticated := False, bridge_up := False\<rparr>, enc_bridge := None,
    attempts := [demo_resume ph sel], next_bridge := 2, open_sockets := [1]\<rparr>"
  shows "portal_sound p" "find_attempt 1 p = Some (demo_resume ph sel)" "a_kind (demo_resume ph sel) = Resumes sel"
    "a_phase (demo_resume ph sel) = ph" "next_bridge p = Suc 1" "saved_key p = Some demo_key" "page_visible p"
    "encryptedPortal (pv p)"
  by (simp_all add: p_def demo_portal_def initial_portal_def initial_view_def sound_for_def attempts_ok_def demo_resume_def
      find_attempt_def resumes_def)

theorem failed_resumes_leak_sockets_witness:
  "open_sockets (fst (portal_run demo_portal_env
     (demo_portal\<lparr>pv := (pv demo_portal)\<lparr>authenticated := False, bridge_up := False\<rparr>, enc_bridge := None,
        attempts := [demo_resume AwaitConnect None], next_bridge := 2, open_sockets := [1]\<rparr>)
     (failing_rounds 1 8 (js ''offline'')))) = [1 ..< 10]"
  using failed_resumes_leak_sockets [OF demo_resuming [where ph = AwaitConnect and sel = None] not_invalid(1),
      where w = demo_portal_env and n = 8]
  by (simp add: upt_rec del: upt_Suc failing_rounds.simps)

theorem late_resume_logs_out_witness:
  "let p = demo_portal\<lparr>attempts := [demo_resume AwaitConnect None], next_bridge := 2, open_sockets := [0, 1]\<rparr>;
       q = fst (portal_step demo_portal_env p (Rejected 1 (js ''Invalid portal token''))) in
   \<not> authenticated (pv q) \<and> 0 \<in> set (open_sockets q) \<and> saved_key q = None"
proof -
  let ?p = "demo_portal\<lparr>attempts := [demo_resume AwaitConnect None], next_bridge := 2, open_sockets := [0, 1]\<rparr>"
  have f: "find_attempt 1 ?p = Some (demo_resume AwaitConnect None)" "a_kind (demo_resume AwaitConnect None) = Resumes None"
    "a_phase (demo_resume AwaitConnect None) = AwaitConnect" "encryptedPortal (pv ?p)" "authenticated (pv ?p)"
    "enc_bridge ?p = Some 0" "0 \<in> set (open_sockets ?p)"
    by (simp_all add: find_attempt_def demo_resume_def)
  from late_resume_logs_out [OF f surjective_pairing [symmetric], of demo_portal_env "js ''Invalid portal token''"]
  show ?thesis using not_invalid(2) by (simp add: Let_def del: portal_step.simps)
qed

theorem loss_while_page_loads_witness:
  "let p = demo_portal\<lparr>attempts := [demo_resume AwaitPage None], next_bridge := 2\<rparr>;
       q = fst (portal_run demo_portal_env p [BridgeFailed 0 [], PageLoaded 1]) in
   enc_bridge q = None \<and> saved_key q = Some demo_key \<and> \<not> resuming q \<and> \<not> retry_timer q"
proof -
  let ?p = "demo_portal\<lparr>attempts := [demo_resume AwaitPage None], next_bridge := 2\<rparr>"
  have f: "portal_sound ?p" "encryptedPortal (pv ?p)" "authenticated (pv ?p)" "enc_bridge ?p = Some 0"
    "saved_key ?p = Some demo_key" "find_attempt 1 ?p = Some (demo_resume AwaitPage None)"
    "a_kind (demo_resume AwaitPage None) = Resumes None" "a_phase (demo_resume AwaitPage None) = AwaitPage" "\<not> retry_timer ?p"
    using demo_portal_facts(1) by (simp_all add: find_attempt_def demo_resume_def sound_for_def attempts_ok_def resumes_def)
  from loss_while_page_loads [OF f surjective_pairing [symmetric], of demo_portal_env "[]"]
  show ?thesis by (simp add: Let_def del: portal_step.simps run_steps_Cons)
qed

definition demo_login :: portal where
  "demo_login = (initial_portal (ViewSessions, None, None) (Some None))\<lparr>login_form := Some 0, next_form := 1, retry_timer := True,
     saved_key := Some demo_key\<rparr>"

theorem short_token_stops_retry_witness:
  "portal_run demo_portal_env demo_login [LoginSubmit (js ''abc'') True, RetryTimer] =
     (demo_login\<lparr>retry_timer := False\<rparr>, [LoginError 0 short_token])"
proof -
  have "login_form demo_login = Some 0" "\<not> form_busy 0 demo_login" "length (trim (js ''abc'')) < 32"
    by (simp_all add: demo_login_def initial_portal_def form_busy_def js_eval trim_def trim_start_def trim_end_def)
  from short_token_stops_retry [OF this surjective_pairing [symmetric], of demo_portal_env True]
  show ?thesis by (simp add: prod_eq_iff del: portal_step.simps run_steps_Cons)
qed


text \<open>The user has gone from \<open>s2\<close> to \<open>s1\<close> while the resume was in flight.\<close>

definition demo_switched :: portal where
  "demo_switched = demo_portal\<lparr>pv := demo_page\<lparr>conn := None, sessions := [0, 1],
     objects := (\<lambda>r. if r = 1 then demo_session\<lparr>ses_id := js ''s2''\<rparr> else demo_session)\<rparr>,
     attempts := [demo_resume AwaitHistory (Some (js ''s2''))], next_bridge := 2\<rparr>"

theorem resume_connects_wrong_terminal_witness:
  "let r = portal_step demo_portal_env demo_switched (HistoryIs 1 (jmsg [(''terminals'', JArr [])])) in
   View (OpenLink 1 (js ''s2'')) \<in> set (snd r) \<and> selected (pv (fst r)) = Some (js ''s1'') \<and>
   terminalSessionID (pv (fst r)) = Some (js ''s1'') \<and> on_page (pv (fst r))"
proof -
  have f: "find_attempt 1 demo_switched = Some (demo_resume AwaitHistory (Some (js ''s2'')))"
    "a_kind (demo_resume AwaitHistory (Some (js ''s2''))) = Resumes (Some (js ''s2''))"
    "a_phase (demo_resume AwaitHistory (Some (js ''s2''))) = AwaitHistory"
    "loadTerminalHistory (dates demo_portal_env) (Inl (jmsg [(''terminals'', JArr [])])) = Inl ([], True)"
    "view_name (pv demo_switched) = ViewTerminal" "on_page (pv demo_switched)" "terminal (pv demo_switched) \<noteq> None"
    "bridge_up (pv demo_switched)" "selected (pv demo_switched) = Some (js ''s1'')"
    "terminalSessionID (pv demo_switched) = Some (js ''s1'')" "js ''s1'' \<noteq> js ''s2''" "js ''s2'' \<noteq> []"
    "find_session (js ''s2'') (pv demo_switched) = Some 1" "next_conn (pv demo_switched) = 1"
    by (simp_all add: find_attempt_def demo_switched_def demo_resume_def loadTerminalHistory_def decodeTerminalHistory_def
        demo_simps find_session_def MAX_SAVED_TERMINALS_def)
  from resume_connects_wrong_terminal [OF f(1-13) surjective_pairing [symmetric]] f(14)
  show ?thesis by (simp add: Let_def del: portal_step.simps)
qed

theorem wrong_token_is_silent_witness:
  "let p = demo_login\<lparr>pv := (pv demo_login)\<lparr>encryptedPortal := False\<rparr>, saved_key := None, retry_timer := False\<rparr>;
       r = portal_run demo_portal_env p [LoginSubmit (replicate 32 65) True, ExpiredAt 0] in
   login_form (fst r) = Some 1 \<and> View (ShowLogin []) \<in> set (snd r) \<and> attempts (fst r) = []"
proof -
  let ?p = "demo_login\<lparr>pv := (pv demo_login)\<lparr>encryptedPortal := False\<rparr>, saved_key := None, retry_timer := False\<rparr>"
  have "\<not> is_space 65" by (simp add: is_space_def)
  then have t: "trim (replicate 32 65) = replicate 32 65" by (simp add: trim_def trim_start_def trim_end_def dropWhile_replicate)
  have f: "portal_sound ?p" "\<not> encryptedPortal (pv ?p)" "login_form ?p = Some 0" "\<not> form_busy 0 ?p" "0 < next_form ?p"
    "32 \<le> length (trim (replicate 32 65))" "next_bridge ?p = 0" "next_form ?p = 1" "attempts ?p = []"
    by (simp_all add: demo_login_def initial_portal_def initial_view_def sound_for_def attempts_ok_def form_busy_def t)
  from wrong_token_is_silent [OF f(1-6) surjective_pairing [symmetric], of demo_portal_env True] f(7-9)
  show ?thesis by (simp add: Let_def del: portal_step.simps run_steps_Cons)
qed

theorem remembered_device_signs_in_witness:
  "let p = demo_login\<lparr>attempts := [\<lparr>a_id = 3, a_kind = LogsIn 0 True, a_key = Some demo_key, a_phase = AwaitConnect\<rparr>]\<rparr>;
       q = fst (portal_step demo_portal_env p (Connected 3)) in
   ConnectBridge 0 demo_key \<in> set (snd (boot False (initial_portal (ViewSessions, None, None) (key_store q)))) \<and>
   CloseBridge 3 \<in> set (snd (logout_done q)) \<and> \<not> authenticated (pv (fst (logout_done q)))"
proof -
  let ?a = "\<lparr>a_id = 3, a_kind = LogsIn 0 True, a_key = Some demo_key, a_phase = AwaitConnect\<rparr>"
  let ?p = "demo_login\<lparr>attempts := [?a]\<rparr>"
  have f: "find_attempt 3 ?p = Some ?a" "a_kind ?a = LogsIn 0 True" "a_key ?a = Some demo_key" "a_phase ?a = AwaitConnect"
    "encryptedPortal (pv ?p)" "key_store ?p \<noteq> None"
    by (simp_all add: find_attempt_def demo_login_def initial_portal_def initial_view_def)
  from remembered_device_signs_in [OF f demo_good surjective_pairing [symmetric] surjective_pairing [symmetric],
      where remembered = "(ViewSessions, None, None)" and w = demo_portal_env]
  show ?thesis by (simp add: Let_def del: portal_step.simps)
qed

theorem last_view_round_trip_witness:
  "readLastPortalView (\<lambda>t. if t = js ''x'' then Some (remembered_json ViewTerminal (Some (js ''s1'')) None) else None)
     (Some (js ''x'')) = (ViewTerminal, Some (js ''s1''), None)"
  by (rule last_view_round_trip) (simp_all add: js_eval)

end
