(* ===== verification/Upload.thy ===== *)
theory Upload
  imports Portal Bridge TerminalText Relay
begin

text \<open>
  Sending files to the computer in \<open>main.ts\<close>: \<open>uploadFile\<close> of the encrypted bridge, the dashboard's
  \<open>chooseAndUploadFiles\<close>, and \<open>chooseAttachments\<close> of the terminal composer.

  An upload is the coroutine \<open>uploadFile\<close> stopped at its \<open>await\<close>: its phase is the exchange whose reply it
  awaits. The exchange itself (submission, reply, time-out, failure of the bridge) is the theory \<open>Bridge\<close>.
  A transfer is the loop over the chosen files; asking for a bridge is \<open>readyUploadBridge\<close> of the theory
  \<open>Portal\<close>.
\<close>

section \<open>One file\<close>

record local_file =
  file_name :: jsstring
  file_bytes :: bytes

datatype upload_phase = Starting | Sending nat | Finishing | Saved jsstring | Stopped jsstring

record upload =
  up_id :: jsstring
  up_file :: local_file
  up_phase :: upload_phase

datatype uout = Exchange string json | Progressed jsnum jsnum | CancelUpload

type_synonym u_result = "upload \<times> uout list"

definition chunk_size :: nat where
  "chunk_size = 192 * 1024"

definition max_file_size :: nat where
  "max_file_size = 100 * 1024 * 1024"

definition file_size :: "local_file \<Rightarrow> nat" where
  "file_size f = length (file_bytes f)"

definition supported_name :: "jsstring \<Rightarrow> bool" where
  "supported_name name \<longleftrightarrow>
     \<not> (name = [] \<or> 240 < length (text_encode name) \<or> has_substring (js ''/'') name \<or> has_substring [0x5C] name)"

definition start_message :: "jsstring \<Rightarrow> local_file \<Rightarrow> json" where
  "start_message i f = packet ''file_upload_start'' [(''id'', JStr i), (''name'', JStr (file_name f)), (''size'', jint (int (file_size f)))]"

definition slice_file :: "nat \<Rightarrow> local_file \<Rightarrow> bytes" where
  "slice_file offset f =
     take (min (file_size f) (offset + chunk_size) - offset) (drop offset (file_bytes f))"

definition chunk_message :: "jsstring \<Rightarrow> nat \<Rightarrow> local_file \<Rightarrow> json" where
  "chunk_message i offset f =
     packet ''file_upload_chunk'' [(''id'', JStr i), (''offset'', jint (int offset)), (''data'', base64_json (slice_file offset f))]"

definition finish_message :: "jsstring \<Rightarrow> json" where
  "finish_message i = packet ''file_upload_finish'' [(''id'', JStr i)]"

text \<open>The checks throw before anything is sent.\<close>

definition uploadFile :: "jsstring \<Rightarrow> local_file \<Rightarrow> jsstring + u_result" where
  "uploadFile i f =
     (if \<not> supported_name (file_name f) then Inl (js ''That file name is not supported'')
      else if max_file_size < file_size f then Inl (js ''Files must be 100 MiB or smaller'')
      else Inr (\<lparr>up_id = i, up_file = f, up_phase = Starting\<rparr>, [Exchange ''file_upload_ready'' (start_message i f)]))"

text \<open>The head of the \<open>for\<close> loop.\<close>

definition next_exchange :: "nat \<Rightarrow> upload \<Rightarrow> u_result" where
  "next_exchange offset u =
     (if offset < file_size (up_file u)
      then (u\<lparr>up_phase := Sending offset\<rparr>, [Exchange ''file_upload_progress'' (chunk_message (up_id u) offset (up_file u))])
      else (u\<lparr>up_phase := Finishing\<rparr>, [Exchange ''file_upload_complete'' (finish_message (up_id u))]))"

definition upload_replied :: "upload_reply \<Rightarrow> upload \<Rightarrow> u_result" where
  "upload_replied r u =
     (case up_phase u of
        Starting \<Rightarrow> next_exchange 0 u
      | Sending offset \<Rightarrow>
          and_then (u, [Progressed (reply_received r) (reply_total r)]) (next_exchange (offset + chunk_size))
      | Finishing \<Rightarrow>
          (let size = fin_nat (file_size (up_file u));
               path = (case reply_path r of Some p \<Rightarrow> if p = [] then file_name (up_file u) else p | None \<Rightarrow> file_name (up_file u))
           in (u\<lparr>up_phase := Saved path\<rparr>, [Progressed size size]))
      | _ \<Rightarrow> (u, []))"

text \<open>An exchange, or reading the file, fails: \<open>open'\<close> says whether the bridge's socket is open.\<close>

definition upload_failed :: "jsstring \<Rightarrow> bool \<Rightarrow> upload \<Rightarrow> u_result" where
  "upload_failed msg open' u =
     (case up_phase u of
        Saved _ \<Rightarrow> (u, [])
      | Stopped _ \<Rightarrow> (u, [])
      | _ \<Rightarrow> (u\<lparr>up_phase := Stopped msg\<rparr>, if open' then [CancelUpload] else []))"

datatype uevent = Replied upload_reply | UFailed jsstring bool

fun upload_step :: "upload \<Rightarrow> uevent \<Rightarrow> u_result" where
  "upload_step u (Replied r) = upload_replied r u"
| "upload_step u (UFailed msg open') = upload_failed msg open' u"

section \<open>The chosen files\<close>

text \<open>\<open>Math.round((received / total) * 100)\<close>, on the rationals that stand for the numbers here.\<close>

definition percent :: "jsnum \<Rightarrow> jsnum \<Rightarrow> jsnum" where
  "percent received total' =
     (if total' = Fin 0 then Fin 100
      else
        case (received, total') of
          (Fin a, Fin b) \<Rightarrow> fin_int \<lfloor>a / b * 100 + 1 / 2\<rfloor>
        | (Fin _, PosInf) \<Rightarrow> Fin 0
        | (Fin _, NegInf) \<Rightarrow> Fin 0
        | (PosInf, Fin b) \<Rightarrow> if 0 < b then PosInf else NegInf
        | (NegInf, Fin b) \<Rightarrow> if 0 < b then NegInf else PosInf
        | _ \<Rightarrow> NaN)"

text \<open>Where a path goes: to the dashboard's status, to the shell of the terminal, or into the draft.\<close>

datatype upload_target = Dashboard | DirectTo | DraftTo

datatype transfer_phase = NoTransfer | AskingBridge | Uploading upload

record transfer =
  upload_target :: upload_target
  t_phase :: transfer_phase
  current :: "local_file option"
  files_left :: "local_file list"
  t_index :: nat
  t_count :: nat
  t_status :: jsstring
  t_failed :: bool
  attached :: "(jsstring \<times> jsstring) list"      \<comment> \<open>the chips: name and path\<close>
  in_value :: jsstring                            \<comment> \<open>the composer's draft and its selection\<close>
  in_start :: nat
  in_end :: nat

datatype tout = AskBridge | UploadOut uout | TypePath jsstring

type_synonym transfer_result = "transfer \<times> tout list"

definition sending_label :: "js_env \<Rightarrow> jsstring \<Rightarrow> (jsnum \<times> jsnum) option \<Rightarrow> transfer \<Rightarrow> jsstring" where
  "sending_label w name progress t =
     (let verb = (if upload_target t = Dashboard then js ''Sending '' else js ''Uploading '') @ name in
      case progress of
        Some (r, a) \<Rightarrow> verb @ mid_dot @ show_num w (percent r a) @ js ''%''
      | None \<Rightarrow>
          if upload_target t = Dashboard
          then verb @ js '' ('' @ nat_text (t_index t + 1) @ js ''/'' @ nat_text (t_count t) @ js '')'' @ ellipsis
          else verb @ ellipsis)"

definition set_status :: "jsstring \<Rightarrow> bool \<Rightarrow> transfer \<Rightarrow> transfer" where
  "set_status msg bad t = t\<lparr>t_status := msg, t_failed := bad\<rparr>"

definition end_transfer :: "transfer \<Rightarrow> transfer" where
  "end_transfer t = t\<lparr>t_phase := NoTransfer, current := None, files_left := []\<rparr>"

text \<open>The loop's head: the next file asks for a bridge; after the last one the composer says so.\<close>

definition next_file :: "js_env \<Rightarrow> transfer \<Rightarrow> transfer_result" where
  "next_file w t =
     (case files_left t of
        f # fs \<Rightarrow>
          (set_status (sending_label w (file_name f) None t) False
             (t\<lparr>t_phase := AskingBridge, current := Some f, files_left := fs\<rparr>), [AskBridge])
      | [] \<Rightarrow>
          (end_transfer
             (case upload_target t of
                Dashboard \<Rightarrow> t
              | DirectTo \<Rightarrow> set_status (js ''Path inserted'' @ mid_dot @ js ''press Enter to send'') False t
              | DraftTo \<Rightarrow> set_status (js ''Attached'' @ mid_dot @ js ''saved on computer'') False t), []))"

text \<open>The picker's \<open>change\<close>. The button that opens the dashboard's picker is disabled during a transfer.\<close>

definition choose_files :: "js_env \<Rightarrow> local_file list \<Rightarrow> transfer \<Rightarrow> transfer_result" where
  "choose_files w files t =
     (if t_phase t \<noteq> NoTransfer \<or> files = [] then (t, [])
      else next_file w (t\<lparr>files_left := files, t_index := 0, t_count := length files\<rparr>))"

definition transfer_failed :: "jsstring \<Rightarrow> transfer \<Rightarrow> transfer_result" where
  "transfer_failed msg t = (end_transfer (set_status msg True t), [])"

definition addPathToComposer :: "jsstring \<Rightarrow> transfer \<Rightarrow> transfer" where
  "addPathToComposer path t =
     (let r = insertAttachmentPath (in_value t) path (int (in_start t)) (int (in_end t))
      in t\<lparr>in_value := ins_value r, in_start := caret r, in_end := caret r\<rparr>)"

text \<open>A file is saved on the computer: \<open>sent\<close> says whether the terminal's link took the path.\<close>

definition file_saved :: "js_env \<Rightarrow> jsstring \<Rightarrow> bool \<Rightarrow> transfer \<Rightarrow> transfer_result" where
  "file_saved w path sent t =
     (let t1 = t\<lparr>t_index := t_index t + 1\<rparr> in
      case upload_target t of
        Dashboard \<Rightarrow> next_file w (set_status (js ''Saved on the Mac: '' @ path) False t1)
      | DirectTo \<Rightarrow>
          if sent then and_then (t1, [TypePath (directAttachmentInput path)]) (next_file w)
          else transfer_failed (js ''Path not inserted'' @ mid_dot @ js ''terminal is reconnecting'') t1
      | DraftTo \<Rightarrow>
          next_file w
            (addPathToComposer path
               (t1\<lparr>attached := attached t1 @ [(case current t of Some f \<Rightarrow> file_name f | None \<Rightarrow> [], path)]\<rparr>)))"

text \<open>The bridge is there, with a fresh upload id, or it is not.\<close>

definition bridge_given :: "js_env \<Rightarrow> jsstring + jsstring \<Rightarrow> transfer \<Rightarrow> transfer_result" where
  "bridge_given w r t =
     (case (t_phase t, current t) of
        (AskingBridge, Some f) \<Rightarrow>
          (case r of
             Inl msg \<Rightarrow> transfer_failed msg t
           | Inr i \<Rightarrow>
               (case uploadFile i f of
                  Inl msg \<Rightarrow> transfer_failed msg t
                | Inr (u, outs) \<Rightarrow> (t\<lparr>t_phase := Uploading u\<rparr>, map UploadOut outs)))
      | _ \<Rightarrow> (t, []))"

text \<open>What the callback \<open>onProgress\<close> shows.\<close>

fun show_progress :: "js_env \<Rightarrow> uout \<Rightarrow> transfer \<Rightarrow> transfer" where
  "show_progress w (Progressed r a) t =
     (case current t of Some f \<Rightarrow> set_status (sending_label w (file_name f) (Some (r, a)) t) False t | None \<Rightarrow> t)"
| "show_progress w _ t = t"

definition upload_event :: "js_env \<Rightarrow> uevent \<Rightarrow> bool \<Rightarrow> transfer \<Rightarrow> transfer_result" where
  "upload_event w e sent t =
     (case t_phase t of
        Uploading u \<Rightarrow>
          (let (u', outs) = upload_step u e;
               t1 = fold (show_progress w) outs (t\<lparr>t_phase := Uploading u'\<rparr>)
           in and_then (t1, map UploadOut outs)
                (\<lambda>t2. case up_phase u' of
                        Saved path \<Rightarrow> file_saved w path sent t2
                      | Stopped msg \<Rightarrow> transfer_failed msg t2
                      | _ \<Rightarrow> (t2, [])))
      | _ \<Rightarrow> (t, []))"

datatype tevent = ChooseFiles "local_file list" | BridgeGiven "jsstring + jsstring" | UploadEvent uevent bool
  | DraftIs jsstring nat nat

fun transfer_step :: "js_env \<Rightarrow> transfer \<Rightarrow> tevent \<Rightarrow> transfer_result" where
  "transfer_step w t (ChooseFiles files) = choose_files w files t"
| "transfer_step w t (BridgeGiven r) = bridge_given w r t"
| "transfer_step w t (UploadEvent e sent) = upload_event w e sent t"
| "transfer_step w t (DraftIs v a b) = (t\<lparr>in_value := v, in_start := a, in_end := b\<rparr>, [])"

text \<open>The guards before the picker opens.\<close>

definition picker_refusal :: "bool \<Rightarrow> bool \<Rightarrow> bool \<Rightarrow> upload_target \<Rightarrow> jsstring option" where
  "picker_refusal up kept connected' tg =
     (if tg \<noteq> Dashboard \<and> \<not> connected' then Some (js ''Terminal is reconnecting'')
      else if \<not> up \<and> \<not> kept then
        Some (if tg = Dashboard then offline_message else js ''Encrypted upload unavailable'')
      else None)"

section \<open>An upload is the file\<close>

definition exchanged :: "uout list \<Rightarrow> json list" where
  "exchanged outs = concat (map (\<lambda>v. case v of Exchange _ m \<Rightarrow> [m] | _ \<Rightarrow> []) outs)"

lemma exchanged_simps [simp]:
  "exchanged [] = []" "exchanged (Exchange e m # outs) = m # exchanged outs"
  "exchanged (Progressed r a # outs) = exchanged outs" "exchanged (CancelUpload # outs) = exchanged outs"
  "exchanged (outs @ outs') = exchanged outs @ exchanged outs'"
  by (simp_all add: exchanged_def)

lemma slice_file_eq: "slice_file offset f = take chunk_size (drop offset (file_bytes f))"
  by (auto simp: slice_file_def file_size_def min_def)

lemma chunk_size_pos: "0 < chunk_size"
  by (simp add: chunk_size_def)

lemma chunks_concat:
  "length xs \<le> offset + n * c \<Longrightarrow> concat (map (\<lambda>j. take c (drop (offset + j * c) xs)) [0..<n]) = drop offset xs"
proof (induction n arbitrary: offset)
  case (Suc n)
  have "concat (map (\<lambda>j. take c (drop (offset + c + j * c) xs)) [0..<n]) = drop (offset + c) xs"
    using Suc by simp
  moreover have "take c (drop offset xs) @ drop (offset + c) xs = drop offset xs"
    by (metis add.commute append_take_drop_id drop_drop)
  ultimately show ?case by (simp add: map_upt_Suc add.assoc del: upt_Suc)
qed simp

text \<open>The loop, from an offset on: every reply makes the next exchange.\<close>

lemma upload_loop:
  assumes "length rs = Suc n" "file_size f \<le> offset + n * chunk_size" "0 < n \<Longrightarrow> offset + (n - 1) * chunk_size < file_size f"
    and "up_file u = f" "up_id u = i"
  shows "exchanged (snd (next_exchange offset u) @ snd (run_steps upload_step (fst (next_exchange offset u)) (map Replied rs))) =
      map (\<lambda>j. chunk_message i (offset + j * chunk_size) f) [0..<n] @ [finish_message i] \<and>
    (\<exists>path. up_phase (fst (run_steps upload_step (fst (next_exchange offset u)) (map Replied rs))) = Saved path)"
  using assms
proof (induction n arbitrary: offset u rs)
  case 0
  then obtain r where "rs = [r]" by (auto simp: length_Suc_conv)
  then show ?case
    using 0 by (simp add: next_exchange_def upload_replied_def Let_def)
next
  case (Suc n)
  then obtain r rs' where rs: "rs = r # rs'" "length rs' = Suc n" by (auto simp: length_Suc_conv)
  have more: "offset < file_size f"
    using Suc.prems(3) by simp
  let ?u = "u\<lparr>up_phase := Sending offset\<rparr>"
  have "file_size f \<le> offset + chunk_size + n * chunk_size" using Suc.prems(2) by simp
  moreover have "0 < n \<Longrightarrow> offset + chunk_size + (n - 1) * chunk_size < file_size f"
    using Suc.prems(3) by (cases n) simp_all
  ultimately have IH: "exchanged (snd (next_exchange (offset + chunk_size) ?u) @
        snd (run_steps upload_step (fst (next_exchange (offset + chunk_size) ?u)) (map Replied rs'))) =
      map (\<lambda>j. chunk_message i (offset + chunk_size + j * chunk_size) f) [0..<n] @ [finish_message i] \<and>
      (\<exists>path. up_phase (fst (run_steps upload_step (fst (next_exchange (offset + chunk_size) ?u)) (map Replied rs'))) = Saved path)"
    using Suc.prems(4,5) by (intro Suc.IH [OF rs(2)]) simp_all
  have n: "next_exchange offset u = (?u, [Exchange ''file_upload_progress'' (chunk_message i offset f)])"
    using more Suc.prems(4,5) by (simp add: next_exchange_def)
  show ?case
    unfolding n rs(1) using IH by (simp add: upload_replied_def map_upt_Suc add.assoc del: upt_Suc)
qed

lemma number_of_chunks:
  assumes "n = (s + chunk_size - 1) div chunk_size"
  shows "s \<le> n * chunk_size" "0 < n \<Longrightarrow> (n - 1) * chunk_size < s"
proof -
  have c: "chunk_size = 196608" by (simp add: chunk_size_def)
  show "s \<le> n * chunk_size" "0 < n \<Longrightarrow> (n - 1) * chunk_size < s"
    using assms unfolding c by linarith+
qed

text \<open>C23. An upload sends the file, all of it and in order: when the computer answers, the bridge sends
  the start, the chunks of at most 192 KiB at the offsets 0, 192 Ki, 384 Ki, ..., and the finish, and
  then the upload is over; the data of the chunks decode to pieces that together are the file.\<close>

theorem upload_sends_whole_file:
  assumes "uploadFile i f = Inr (u, begin)" "n = (file_size f + chunk_size - 1) div chunk_size" "length rs = n + 2"
    and "(v, outs) = run_steps upload_step u (map Replied rs)"
  shows "exchanged (begin @ outs) =
      start_message i f # map (\<lambda>j. chunk_message i (j * chunk_size) f) [0..<n] @ [finish_message i] \<and>
    concat (map (\<lambda>j. slice_file (j * chunk_size) f) [0..<n]) = file_bytes f \<and>
    (\<forall>j. length (slice_file j f) \<le> chunk_size \<and>
       (\<exists>s. prop_of (chunk_message i j f) ''data'' = Some (JStr s) \<and> base64URLToBytes s = Some (slice_file j f))) \<and>
    (\<exists>path. up_phase v = Saved path)"
proof -
  have u: "u = \<lparr>up_id = i, up_file = f, up_phase = Starting\<rparr>" "begin = [Exchange ''file_upload_ready'' (start_message i f)]"
    using assms(1) by (auto simp: uploadFile_def split: if_splits)
  obtain r rs' where rs: "rs = r # rs'" "length rs' = Suc n"
    using assms(3) by (cases rs) auto
  note n = number_of_chunks [OF assms(2)]
  have "exchanged (snd (next_exchange 0 u) @ snd (run_steps upload_step (fst (next_exchange 0 u)) (map Replied rs'))) =
      map (\<lambda>j. chunk_message i (0 + j * chunk_size) f) [0..<n] @ [finish_message i] \<and>
    (\<exists>path. up_phase (fst (run_steps upload_step (fst (next_exchange 0 u)) (map Replied rs'))) = Saved path)"
    using n by (intro upload_loop [OF rs(2)]) (simp_all add: u(1))
  moreover have "upload_step u (Replied r) = next_exchange 0 u"
    by (simp add: upload_replied_def u(1))
  ultimately have "exchanged (begin @ outs) =
      start_message i f # map (\<lambda>j. chunk_message i (j * chunk_size) f) [0..<n] @ [finish_message i] \<and>
    (\<exists>path. up_phase v = Saved path)"
    using assms(4) unfolding rs(1) by (simp add: u(2) prod_eq_iff del: upload_step.simps)
  moreover have "concat (map (\<lambda>j. slice_file (j * chunk_size) f) [0..<n]) = file_bytes f"
    using chunks_concat [of "file_bytes f" 0 n chunk_size] n(1) by (simp add: slice_file_eq file_size_def)
  moreover have "\<exists>s. prop_of (chunk_message i j f) ''data'' = Some (JStr s) \<and> base64URLToBytes s = Some (slice_file j f)" for j
    using b64url.round_trip [of "slice_file j f"] by (auto simp: chunk_message_def packet_def base64_json_def)
  ultimately show ?thesis by (simp add: slice_file_eq)
qed

lemma ended_upload: "up_phase u = Saved p \<or> up_phase u = Stopped p \<Longrightarrow> run_steps upload_step u es = (u, [])"
proof (induction es)
  case (Cons e es)
  then have "upload_step u e = (u, [])"
    by (cases e) (auto simp: upload_replied_def upload_failed_def)
  then show ?case using Cons by (simp add: prod_eq_iff del: upload_step.simps)
qed simp

text \<open>An upload that fails sends one cancellation, if the bridge can send at all, and nothing more,
  whatever replies and failures still arrive; one that has ended does nothing any more.\<close>

theorem failed_upload_cancels_once:
  assumes "\<forall>p. up_phase u \<noteq> Saved p \<and> up_phase u \<noteq> Stopped p"
  shows "run_steps upload_step u (UFailed msg open' # es) =
    (u\<lparr>up_phase := Stopped msg\<rparr>, if open' then [CancelUpload] else [])"
proof -
  have "upload_step u (UFailed msg open') = (u\<lparr>up_phase := Stopped msg\<rparr>, if open' then [CancelUpload] else [])"
    using assms by (simp add: upload_failed_def split: upload_phase.split)
  then show ?thesis
    using ended_upload [of "u\<lparr>up_phase := Stopped msg\<rparr>" msg es] by (simp add: prod_eq_iff del: upload_step.simps)
qed

section \<open>Attached paths\<close>

definition quoted_words :: "jsstring list \<Rightarrow> jsstring" where
  "quoted_words paths = (case paths of [] \<Rightarrow> [] | p # ps \<Rightarrow> shellQuotePath p @ concat (map directAttachmentInput ps))"

lemma direct_input_eq: "directAttachmentInput = (\<lambda>p. 0x20 # shellQuotePath p)"
  by (rule ext) (simp add: directAttachmentInput_def js_quote)

lemma sh_read_words: "sh_read Unquoted w (concat (map directAttachmentInput ps)) = Some (w # ps)"
proof (induction ps arbitrary: w)
  case (Cons p ps)
  then show ?case
    using sh_read_shellQuotePath [of Blank "[]" p "concat (map directAttachmentInput ps)"]
    by (simp add: direct_input_eq)
qed simp

lemma sh_words_quoted: "sh_words (quoted_words paths) = Some paths"
  using sh_read_shellQuotePath [of Blank "[]"] sh_read_words
  by (cases paths) (simp_all add: sh_words_def quoted_words_def)

lemma quoted_words_snoc:
  "quoted_words (paths @ [p]) = (if paths = [] then shellQuotePath p else quoted_words paths @ directAttachmentInput p)"
  by (cases paths) (simp_all add: quoted_words_def)

lemma last_shellQuotePath: "shellQuotePath p \<noteq> []" "last (shellQuotePath p) = 0x27" "last (xs @ shellQuotePath p) = 0x27"
  by (simp_all add: shellQuotePath_def js_quote)

lemma last_quoted_words: "paths \<noteq> [] \<Longrightarrow> quoted_words paths \<noteq> [] \<and> last (quoted_words paths) = 0x27"
  by (cases paths rule: rev_cases)
     (simp_all add: quoted_words_snoc last_shellQuotePath directAttachmentInput_def js_quote last_append)

lemma quote_no_space: "\<not> is_space 0x27"
  by (simp add: is_space_def)

lemma insert_at_end:
  "insertAttachmentPath v p (int (length v)) (int (length v)) =
     (let r = v @ (if v = [] \<or> ends_with_space v then [] else [0x20]) @ shellQuotePath p
      in \<lparr>ins_value = r, caret = length r\<rparr>)"
  by (simp add: insertAttachmentPath_def Let_def slice_def js_quote)

lemma add_path_at_end:
  assumes "in_value t = quoted_words paths" "in_start t = length (in_value t)" "in_end t = length (in_value t)"
  shows "in_value (addPathToComposer p t) = quoted_words (paths @ [p])"
    "in_start (addPathToComposer p t) = length (in_value (addPathToComposer p t))"
    "in_end (addPathToComposer p t) = length (in_value (addPathToComposer p t))"
proof -
  have "paths \<noteq> [] \<Longrightarrow> \<not> ends_with_space (quoted_words paths) \<and> quoted_words paths \<noteq> []"
    using last_quoted_words [of paths] quote_no_space by (simp add: ends_with_space_def)
  moreover have "quoted_words [] = []" by (simp add: quoted_words_def)
  ultimately have "quoted_words (paths @ [p]) =
      quoted_words paths @ (if quoted_words paths = [] \<or> ends_with_space (quoted_words paths) then [] else [0x20]) @ shellQuotePath p"
    by (simp add: quoted_words_snoc direct_input_eq)
  then show "in_value (addPathToComposer p t) = quoted_words (paths @ [p])"
    by (simp add: addPathToComposer_def insert_at_end assms Let_def)
  show "in_start (addPathToComposer p t) = length (in_value (addPathToComposer p t))"
    "in_end (addPathToComposer p t) = length (in_value (addPathToComposer p t))"
    by (simp_all add: addPathToComposer_def insert_at_end assms Let_def)
qed

text \<open>Files attached to a draft arrive in it as the words of a command line: whatever their paths
  contain, the shell reads the draft they were attached to, from the empty one on, back as exactly these
  paths, in order.\<close>

theorem attached_paths_are_words:
  assumes "in_value t = []" "in_start t = 0" "in_end t = 0"
  shows "sh_words (in_value (fold addPathToComposer paths t)) = Some paths"
proof -
  have "in_value (fold addPathToComposer paths t) = quoted_words paths \<and>
      in_start (fold addPathToComposer paths t) = length (in_value (fold addPathToComposer paths t)) \<and>
      in_end (fold addPathToComposer paths t) = length (in_value (fold addPathToComposer paths t))"
  proof (induction paths rule: rev_induct)
    case Nil
    then show ?case using assms by (simp add: quoted_words_def)
  next
    case (snoc p paths)
    then show ?case using add_path_at_end [of "fold addPathToComposer paths t" paths p] by simp
  qed
  then show ?thesis by (simp add: sh_words_quoted)
qed

section \<open>One file after another\<close>

definition started_names :: "tout list \<Rightarrow> json option list" where
  "started_names outs = concat (map (\<lambda>v. case v of
     UploadOut (Exchange e m) \<Rightarrow> if e = ''file_upload_ready'' then [prop_of m ''name''] else [] | _ \<Rightarrow> []) outs)"

lemma started_simps [simp]: "started_names [] = []" "started_names (outs @ outs') = started_names outs @ started_names outs'"
  "started_names (AskBridge # outs) = started_names outs" "started_names (TypePath d # outs) = started_names outs"
  by (simp_all add: started_names_def)

definition name_json :: "local_file \<Rightarrow> json option" where
  "name_json f = Some (JStr (file_name f))"

definition pending_names :: "transfer \<Rightarrow> json option list" where
  "pending_names t = (case (t_phase t, current t) of (AskingBridge, Some f) \<Rightarrow> [name_json f] | _ \<Rightarrow> []) @ map name_json (files_left t)"

definition continues :: "transfer \<Rightarrow> transfer_result \<Rightarrow> bool" where
  "continues t r \<longleftrightarrow> (\<exists>rest. pending_names t = started_names (snd r) @ pending_names (fst r) @ rest)"

lemma end_pending [simp]: "pending_names (end_transfer t) = []"
  by (simp add: pending_names_def end_transfer_def)

lemma next_file_pending: "started_names (snd (next_file w t)) = [] \<and> pending_names (fst (next_file w t)) = map name_json (files_left t)"
  by (cases "files_left t"; cases "upload_target t") (simp_all add: next_file_def pending_names_def set_status_def end_transfer_def)

lemma failed_pending: "started_names (snd (transfer_failed msg t)) = [] \<and> pending_names (fst (transfer_failed msg t)) = []"
  by (simp add: transfer_failed_def)

lemma saved_continues:
  "started_names (snd (file_saved w path sent t)) = [] \<and>
   (pending_names (fst (file_saved w path sent t)) = map name_json (files_left t) \<or> pending_names (fst (file_saved w path sent t)) = [])"
proof -
  have f: "files_left (set_status m b x) = files_left x" "files_left (addPathToComposer p x) = files_left x" for m b p x
    by (simp_all add: set_status_def addPathToComposer_def Let_def)
  show ?thesis
    using next_file_pending [of w] failed_pending f
    by (cases "upload_target t") (simp_all add: file_saved_def Let_def)
qed

lemma upload_not_started: "started_names (map UploadOut (snd (upload_step u e))) = []"
  by (cases e; cases "up_phase u")
     (simp_all add: started_names_def upload_replied_def upload_failed_def next_exchange_def Let_def)

lemma progress_frame:
  "t_phase (fold (show_progress w) outs t) = t_phase t" "files_left (fold (show_progress w) outs t) = files_left t"
proof -
  have "t_phase (fold (show_progress w) outs t) = t_phase t \<and> files_left (fold (show_progress w) outs t) = files_left t"
  proof (induction outs arbitrary: t)
    case (Cons v outs)
    then show ?case by (cases v) (simp_all add: set_status_def split: option.split)
  qed simp
  then show "t_phase (fold (show_progress w) outs t) = t_phase t" "files_left (fold (show_progress w) outs t) = files_left t"
    by simp_all
qed

lemma given_continues: "continues t (bridge_given w r t)"
proof (cases "t_phase t = AskingBridge \<and> current t \<noteq> None")
  case True
  then obtain f where f: "t_phase t = AskingBridge" "current t = Some f" by auto
  show ?thesis
  proof (cases r)
    case (Inr i)
    show ?thesis
    proof (cases "uploadFile i f")
      case (Inr ux)
      then have "started_names (map UploadOut (snd ux)) = [name_json f]"
        by (auto simp: uploadFile_def started_names_def start_message_def packet_def name_json_def split: if_splits)
      then show ?thesis
        using f Inr \<open>r = Inr i\<close>
        by (cases ux) (simp add: continues_def bridge_given_def pending_names_def)
    qed (use f Inr failed_pending in \<open>simp add: continues_def bridge_given_def\<close>)
  qed (use f failed_pending in \<open>simp add: continues_def bridge_given_def\<close>)
next
  case False
  then show ?thesis
    by (auto simp: continues_def bridge_given_def split: transfer_phase.split option.split)
qed

lemma event_continues: "continues t (upload_event w e sent t)"
proof (cases "t_phase t")
  case (Uploading u)
  define u' outs where "u' = fst (upload_step u e)" and "outs = snd (upload_step u e)"
  define t1 where "t1 = fold (show_progress w) outs (t\<lparr>t_phase := Uploading u'\<rparr>)"
  have t1: "pending_names t = map name_json (files_left t1)" "pending_names t1 = map name_json (files_left t1)"
    using progress_frame [of w outs "t\<lparr>t_phase := Uploading u'\<rparr>"] Uploading by (simp_all add: t1_def pending_names_def)
  have q: "started_names (map UploadOut outs) = []"
    unfolding outs_def by (rule upload_not_started)
  have "upload_event w e sent t = and_then (t1, map UploadOut outs)
      (\<lambda>t2. case up_phase u' of Saved path \<Rightarrow> file_saved w path sent t2 | Stopped msg \<Rightarrow> transfer_failed msg t2 | _ \<Rightarrow> (t2, []))"
    by (simp add: upload_event_def Uploading t1_def u'_def outs_def case_prod_beta Let_def)
  note eq = this
  show ?thesis
  proof (cases "up_phase u'")
    case (Saved path)
    then show ?thesis
      using eq t1 q saved_continues [of w path sent t1] by (elim conjE disjE) (simp_all add: continues_def)
  qed (use eq t1 q failed_pending [of _ t1] in \<open>auto simp: continues_def\<close>)
qed (simp_all add: upload_event_def continues_def)

text \<open>A transfer sends the chosen files one after another and in order: in every run after a choice
  the uploads that were started are, by name, a beginning of the chosen files; whatever fails, nothing
  is skipped.\<close>

theorem files_sent_in_order:
  assumes "t_phase t = NoTransfer" "files \<noteq> []" "list_all (\<lambda>e. case e of ChooseFiles _ \<Rightarrow> False | _ \<Rightarrow> True) es"
    and "(t', outs) = run_steps (transfer_step w) t (ChooseFiles files # es)"
  shows "\<exists>rest. map name_json files = started_names outs @ pending_names t' @ rest"
proof -
  have run: "\<exists>rest. pending_names x = started_names (snd (run_steps (transfer_step w) x es)) @ pending_names (fst (run_steps (transfer_step w) x es)) @ rest"
    for x using assms(3)
  proof (induction es arbitrary: x)
    case (Cons e es)
    have "continues x (transfer_step w x e)"
      using Cons.prems given_continues event_continues
      by (cases e) (simp_all add: continues_def pending_names_def split: transfer_phase.split)
    then obtain r1 where "pending_names x = started_names (snd (transfer_step w x e)) @ pending_names (fst (transfer_step w x e)) @ r1"
      by (auto simp: continues_def)
    moreover obtain r2 where "pending_names (fst (transfer_step w x e)) =
        started_names (snd (run_steps (transfer_step w) (fst (transfer_step w x e)) es)) @
        pending_names (fst (run_steps (transfer_step w) (fst (transfer_step w x e)) es)) @ r2"
      using Cons.IH [of "fst (transfer_step w x e)"] Cons.prems by auto
    ultimately show ?case by (simp del: transfer_step.simps)
  qed simp
  have c: "transfer_step w t (ChooseFiles files) = next_file w (t\<lparr>files_left := files, t_index := 0, t_count := length files\<rparr>)"
    using assms(1,2) by (simp add: choose_files_def)
  then have "started_names (snd (transfer_step w t (ChooseFiles files))) = []"
    "pending_names (fst (transfer_step w t (ChooseFiles files))) = map name_json files"
    using next_file_pending by simp_all
  then show ?thesis
    using run [of "fst (transfer_step w t (ChooseFiles files))"] assms(4)
    by (simp add: prod_eq_iff del: transfer_step.simps)
qed

section \<open>A chunk fits the relay\<close>

definition ascii :: "jsstring \<Rightarrow> bool" where
  "ascii s \<longleftrightarrow> list_all (\<lambda>c. unat c < 0x80) s"

lemma ascii_append [simp]: "ascii (s @ t) \<longleftrightarrow> ascii s \<and> ascii t"
  by (simp add: ascii_def)

lemma length_text_encode_ascii: "ascii s \<Longrightarrow> length (text_encode s) = length s"
proof (induction s)
  case Nil
  then show ?case by (simp add: length_text_encode)
next
  case (Cons c s)
  then have c: "unat c < 0x80" and s: "ascii s" by (simp_all add: ascii_def)
  from c have "is_scalar (unat c)" by (simp add: is_scalar_def)
  with c have "scalars (c # s) = unat c # scalars s" using scalars_bmp [of "unat c" s] by simp
  then show ?case
    using Cons.IH [OF s] c by (simp add: length_text_encode utf8_scalar_def del: scalars.simps)
qed

lemma ascii_digit: "m < 10 \<Longrightarrow> ascii [of_nat (48 + m)]"
proof -
  assume "m < 10"
  then have "unat (of_nat (48 + m) :: u16) = 48 + m" by (intro unat_of_nat_u16) simp
  then show ?thesis using \<open>m < 10\<close> by (simp add: ascii_def del: of_nat_add)
qed

lemma nat_text_digits: "n < 10 ^ Suc k \<Longrightarrow> length (nat_text n) \<le> Suc k \<and> ascii (nat_text n)"
proof (induction k arbitrary: n)
  case 0
  then show ?case using ascii_digit [of n] by (simp add: nat_text.simps [of n] del: of_nat_add)
next
  case (Suc k)
  show ?case
  proof (cases "n < 10")
    case True
    then show ?thesis using ascii_digit [of n] by (simp add: nat_text.simps [of n] del: of_nat_add)
  next
    case False
    have "n div 10 < 10 ^ Suc k" using Suc.prems by (simp add: div_less_iff_less_mult)
    then show ?thesis
      using Suc.IH [of "n div 10"] False ascii_digit [of "n mod 10"] by (simp add: nat_text.simps [of n] del: of_nat_add)
  qed
qed

text \<open>What \<open>JSON.stringify\<close> makes of a chunk message: its members in order, the texts without escapes.\<close>

definition chunk_text :: "jsstring \<Rightarrow> nat \<Rightarrow> jsstring \<Rightarrow> jsstring" where
  "chunk_text i offset data =
     js ''{\"v\":1,\"type\":\"file_upload_chunk\",\"id\":\"'' @ i @ js ''\",\"offset\":'' @ nat_text offset @
     js '',\"data\":\"'' @ data @ js ''\"}''"

lemma ascii_base64: "isBase64URL d \<or> d = [] \<Longrightarrow> ascii d"
proof -
  have "is_base64url_char c \<Longrightarrow> unat c < 0x80" for c
    by (auto simp: is_base64url_char_def Let_def)
  then show "isBase64URL d \<or> d = [] \<Longrightarrow> ascii d"
    by (auto simp: isBase64URL_def ascii_def list_all_iff)
qed

text \<open>C36. Every chunk passes the relay: the packet that carries a chunk of an accepted file is base64url
  and has at most 350000 characters, far below the relay's limit of 5 MiB.\<close>

theorem chunk_fits_relay:
  assumes "uploadFile i f = Inr r" "ascii i" "length i = 36" "offset < file_size f"
    and "bytesToBase64URL (slice_file offset f) = Some data"
    and "json_text pl (chunk_message i offset f) = chunk_text i offset data" "gcm_exact pl" "length iv = 12"
    and "encryptPacket pl iv k ch Browser n (chunk_message i offset f) = Inr pkt"
  shows "isBase64URL pkt \<and> length pkt \<le> 350000 \<and> 350000 \<le> MAX_ENCRYPTED_PACKET"
proof -
  let ?m = "chunk_message i offset f"
  have "file_size f \<le> 104857600"
    using assms(1) by (auto simp: uploadFile_def max_file_size_def split: if_splits)
  then have "offset < 10 ^ Suc 8" using assms(4) by simp
  note o = nat_text_digits [OF this]
  have "length (slice_file offset f) \<le> 196608"
    by (simp add: slice_file_eq chunk_size_def)
  then have d: "length data \<le> 262144"
    using length_bytesToBase64URL [OF assms(5)] by simp
  have "ascii data"
    using ascii_base64 isBase64URL_bytesToBase64URL [OF assms(5)] length_bytesToBase64URL [OF assms(5)] by fastforce
  then have "ascii (chunk_text i offset data)"
    using o assms(2) by (simp add: chunk_text_def) (simp add: ascii_def js_eval)
  then have "length (text_encode (json_text pl ?m)) \<le> 262144 + 36 + 9 + 75"
    using o d assms(3) by (simp add: assms(6) length_text_encode_ascii) (simp add: chunk_text_def js_def)
  moreover obtain sq where e: "bytesToBase64URL (put_uint32 sq @ iv @ gcm_encrypt pl k iv (encryptionAAD ch Browser (put_uint32 sq))
      (text_encode (json_text pl ?m))) = Some pkt"
    using assms(9) by (auto simp: encryptPacket_def Let_def split: if_splits option.splits)
  moreover have "length (gcm_encrypt pl k iv aad p) = length p + 16" for aad p
    using assms(7) by (simp add: gcm_exact_def)
  ultimately have "length pkt \<le> 350000"
    using length_bytesToBase64URL [OF e] assms(8) by simp
  then show ?thesis
    using isBase64URL_bytesToBase64URL [OF e] assms(8) by (auto simp: MAX_ENCRYPTED_PACKET_def)
qed

section \<open>Witnesses\<close>

definition demo_file :: local_file where
  "demo_file = \<lparr>file_name = js ''a.txt'', file_bytes = [1, 2, 3]\<rparr>"

definition demo_upload :: upload where
  "demo_upload = \<lparr>up_id = js ''u1'', up_file = demo_file, up_phase = Starting\<rparr>"

definition demo_reply :: upload_reply where
  "demo_reply = \<lparr>reply_type = [], reply_received = Fin 3, reply_total = Fin 3, reply_path = None\<rparr>"

definition demo_transfer :: transfer where
  "demo_transfer = \<lparr>upload_target = DraftTo, t_phase = NoTransfer, current = None, files_left = [], t_index = 0, t_count = 0,
     t_status = [], t_failed = False, attached = [], in_value = [], in_start = 0, in_end = 0\<rparr>"

lemma demo_accepted:
  "uploadFile (js ''u1'') demo_file = Inr (demo_upload, [Exchange ''file_upload_ready'' (start_message (js ''u1'') demo_file)])"
proof -
  have "text_encode (js ''a.txt'') = [97, 46, 116, 120, 116]"
    by (simp add: js_eval)
  then have "supported_name (js ''a.txt'')"
    by (simp add: supported_name_def js_eval)
  then show ?thesis
    by (simp add: uploadFile_def demo_file_def demo_upload_def file_size_def max_file_size_def)
qed

theorem upload_sends_whole_file_witness:
  "exchanged (Exchange ''file_upload_ready'' (start_message (js ''u1'') demo_file) #
     snd (run_steps upload_step demo_upload (map Replied [demo_reply, demo_reply, demo_reply]))) =
   [start_message (js ''u1'') demo_file, chunk_message (js ''u1'') 0 demo_file, finish_message (js ''u1'')] \<and>
   slice_file 0 demo_file = file_bytes demo_file"
proof -
  have n: "1 = (file_size demo_file + chunk_size - 1) div chunk_size"
    by (simp add: file_size_def demo_file_def chunk_size_def)
  have l: "length [demo_reply, demo_reply, demo_reply] = 1 + 2" by simp
  from upload_sends_whole_file [OF demo_accepted n l surjective_pairing [symmetric]]
  show ?thesis by (simp del: upload_step.simps run_steps_Cons)
qed

theorem failed_upload_cancels_once_witness:
  "snd (run_steps upload_step demo_upload (UFailed [] True # [Replied demo_reply, UFailed [] True])) = [CancelUpload]"
  using failed_upload_cancels_once [of demo_upload "[]" True "[Replied demo_reply, UFailed [] True]"]
  by (simp add: demo_upload_def del: upload_step.simps run_steps_Cons)

theorem attached_paths_are_words_witness:
  "sh_words (in_value (fold addPathToComposer [js ''/tmp/a b'', js ''/tmp/c''] demo_transfer)) = Some [js ''/tmp/a b'', js ''/tmp/c'']"
  by (rule attached_paths_are_words) (simp_all add: demo_transfer_def)

theorem files_sent_in_order_witness:
  "\<exists>rest. [name_json demo_file, name_json demo_file] =
     started_names (snd (run_steps (transfer_step demo_env) demo_transfer [ChooseFiles [demo_file, demo_file], BridgeGiven (Inr (js ''u1''))])) @
     pending_names (fst (run_steps (transfer_step demo_env) demo_transfer [ChooseFiles [demo_file, demo_file], BridgeGiven (Inr (js ''u1''))])) @ rest"
proof -
  have h: "t_phase demo_transfer = NoTransfer" "[demo_file, demo_file] \<noteq> []"
    "list_all (\<lambda>e. case e of ChooseFiles _ \<Rightarrow> False | _ \<Rightarrow> True) [BridgeGiven (Inr (js ''u1''))]"
    by (simp_all add: demo_transfer_def)
  from files_sent_in_order [OF h surjective_pairing [symmetric], of demo_env]
  show ?thesis by (simp del: transfer_step.simps run_steps_Cons)
qed

theorem chunk_fits_relay_witness:
  "\<exists>data pkt. bytesToBase64URL (slice_file 0 demo_file) = Some data \<and>
     encryptPacket (demo_platform\<lparr>json_text := (\<lambda>_. chunk_text (replicate 36 97) 0 data)\<rparr>) (replicate 12 7) () (js ''c'')
       Browser (fin_nat 5) (chunk_message (replicate 36 97) 0 demo_file) = Inr pkt \<and>
     isBase64URL pkt \<and> length pkt \<le> MAX_ENCRYPTED_PACKET"
proof -
  obtain data where d: "bytesToBase64URL (slice_file 0 demo_file) = Some data"
    using b64url.round_trip by blast
  let ?pl = "demo_platform\<lparr>json_text := (\<lambda>_. chunk_text (replicate 36 97) 0 data)\<rparr>"
  have e: "gcm_exact ?pl" "json_text ?pl (chunk_message (replicate 36 97) 0 demo_file) = chunk_text (replicate 36 97) 0 data"
    using demo_gcm_exact by (simp_all add: gcm_exact_def)
  obtain r where r: "uploadFile (replicate 36 97) demo_file = Inr r"
    using demo_accepted by (auto simp: uploadFile_def split: if_splits)
  obtain pkt where k: "encryptPacket ?pl (replicate 12 7) () (js ''c'') Browser (fin_nat 5) (chunk_message (replicate 36 97) 0 demo_file) = Inr pkt"
    using encryptPacket_succeeds [of 5 ?pl "replicate 12 7" "()" "js ''c''" Browser] by auto
  have "ascii (replicate 36 97)" "length (replicate 36 97 :: jsstring) = 36" "0 < file_size demo_file"
    "length (replicate 12 7 :: bytes) = 12"
    by (simp_all add: ascii_def list_all_iff demo_file_def file_size_def)
  from chunk_fits_relay [OF r this(1-3) d e(2,1) this(4) k] d k show ?thesis by auto
qed

end
