(* ===== verification/Dashboard.thy ===== *)
theory Dashboard
  imports Portal
begin

text \<open>
  What a user does to the sessions and to the terminal history, in \<open>main.ts\<close>: creating, opening,
  duplicating, renaming and stopping terminals, favourites and removal, and the viewer on the computer.

  Every action is an asynchronous function that waits for one request after another. A running action is
  a \<open>task\<close>: what its continuation captured. \<open>Answered\<close> gives it the answer of its request, \<open>Waited\<close> ends
  the pause of the viewer's polling. The answers are decoded as far as the code decodes them: a session is
  taken as it is, a saved terminal passes its decoder.
\<close>

section \<open>Paths of the API\<close>

definition uri_unreserved :: "u16 \<Rightarrow> bool" where
  [js_eval]: "uri_unreserved c \<longleftrightarrow> (let u = unat c in
     65 \<le> u \<and> u \<le> 90 \<or> 97 \<le> u \<and> u \<le> 122 \<or> 48 \<le> u \<and> u \<le> 57 \<or>
     u \<in> {45, 95, 46, 33, 126, 42, 39, 40, 41})"

definition hex_digit :: "nat \<Rightarrow> u16" where
  [js_eval]: "hex_digit n = (if n < 10 then of_nat (48 + n) else of_nat (55 + n))"

definition percent_byte :: "u8 \<Rightarrow> jsstring" where
  [js_eval]: "percent_byte b = [37, hex_digit (unat b div 16), hex_digit (unat b mod 16)]"

text \<open>\<open>encodeURIComponent\<close>: \<open>None\<close> is the \<open>URIError\<close> on an unpaired surrogate.\<close>

definition encodeURIComponent :: "jsstring \<Rightarrow> jsstring option" where
  "encodeURIComponent s =
     (if \<not> well_formed s then None
      else Some (concat (map (\<lambda>n. if n < 128 \<and> uri_unreserved (of_nat n) then [of_nat n]
             else concat (map percent_byte (text_encode (code_units n)))) (scalars s))))"

definition session_path :: "jsstring \<Rightarrow> string \<Rightarrow> jsstring option" where
  "session_path i rest = map_option (\<lambda>e. js ''/api/sessions/'' @ e @ js rest) (encodeURIComponent i)"

definition history_path :: "jsstring \<Rightarrow> string \<Rightarrow> jsstring option" where
  "history_path i rest = map_option (\<lambda>e. js ''/api/terminal-history/'' @ e @ js rest) (encodeURIComponent i)"

section \<open>Tasks\<close>

datatype viewer_action = ShowViewer | HideViewer

datatype task =
    Creating                                     \<comment> \<open>the form, or a duplicate\<close>
  | OpeningSaved | OpenedSaved jsstring
  | Renaming "nat option" | Renamed "nat option" jsstring \<comment> \<open>the object of the terminal page, if renamed there\<close>
  | UpdatingSaved | RemovingSaved saved_terminal | Favouriting
  | SettingViewer nat viewer_action | ViewerPause nat nat | ViewerAsked nat nat
  | Stopping jsstring bool                       \<comment> \<open>on the terminal page?\<close>

record dash =
  dp :: portal
  tasks :: "(nat \<times> task) list"
  next_task :: nat

datatype http_verb = GET | POST | PATCH | DELETE

datatype dout =
    DPage vout | DPortal pout | DRequest nat http_verb jsstring "json option" | Told nat jsstring | RefreshCards | ViewerButton jsstring bool | ShowName jsstring

type_synonym dash_result = "dash \<times> dout list"

datatype answer =
    GotSession session | GotSessions "session list" | GotViewer "viewer option" | GotJson json | GotNothing | GotError jsstring

definition find_task :: "nat \<Rightarrow> dash \<Rightarrow> task option" where
  "find_task n d = map_of (tasks d) n"

definition drop_task :: "nat \<Rightarrow> dash \<Rightarrow> dash" where
  "drop_task n d = d\<lparr>tasks := filter (\<lambda>(m, _). m \<noteq> n) (tasks d)\<rparr>"

definition on_view :: "(view \<Rightarrow> view) \<Rightarrow> dash \<Rightarrow> dash" where
  "on_view f d = d\<lparr>dp := (dp d)\<lparr>pv := f (pv (dp d))\<rparr>\<rparr>"

definition dash_page :: "(view \<Rightarrow> v_result) \<Rightarrow> dash \<Rightarrow> dash_result" where
  "dash_page f d =
     (let (v, outs) = f (pv (dp d)) in (d\<lparr>dp := fold shown_one outs ((dp d)\<lparr>pv := v\<rparr>)\<rparr>, map DPage outs))"

text \<open>A request of an action; it fails at once without a bridge or on a path that cannot be encoded.\<close>

definition start_task :: "task \<Rightarrow> http_verb \<Rightarrow> jsstring option \<Rightarrow> json option \<Rightarrow> dash \<Rightarrow> dash_result" where
  "start_task t m path body d =
     (case path of
        None \<Rightarrow> (d, [Told (next_task d) (js ''URI malformed'')])
      | Some pth \<Rightarrow>
          if \<not> can_request (dp d) then (d, [Told (next_task d) not_connected])
          else (d\<lparr>tasks := tasks d @ [(next_task d, t)], next_task := next_task d + 1\<rparr>, [DRequest (next_task d) m pth body]))"

section \<open>The list of sessions\<close>

definition sessions_of :: "dash \<Rightarrow> session list" where
  "sessions_of d = map (objects (pv (dp d))) (sessions (pv (dp d)))"

text \<open>\<open>state.sessions = [created, ...state.sessions.filter(...)]\<close>, with a new object.\<close>

definition add_session :: "session \<Rightarrow> dash \<Rightarrow> dash" where
  "add_session s d =
     (let p = dp d; r = next_object p; v = pv p in
      d\<lparr>dp := p\<lparr>next_object := r + 1,
          pv := v\<lparr>objects := (objects v)(r := s),
                  sessions := r # filter (\<lambda>x. ses_id (objects v x) \<noteq> ses_id s) (sessions v)\<rparr>\<rparr>\<rparr>)"

text \<open>\<open>map((item) => item.id === updated.id ? updated : item)\<close>.\<close>

definition replace_session :: "session \<Rightarrow> dash \<Rightarrow> dash" where
  "replace_session s d =
     (let p = dp d; r = next_object p; v = pv p in
      d\<lparr>dp := p\<lparr>next_object := r + 1,
          pv := v\<lparr>objects := (objects v)(r := s),
                  sessions := map (\<lambda>x. if ses_id (objects v x) = ses_id s then r else x) (sessions v)\<rparr>\<rparr>\<rparr>)"

text \<open>\<open>closedSessions.add(id)\<close> and the filter.\<close>

definition forget_session :: "jsstring \<Rightarrow> dash \<Rightarrow> dash" where
  "forget_session i = on_view (\<lambda>v. v\<lparr>closedSessions := insert i (closedSessions v),
     sessions := filter (\<lambda>x. ses_id (objects v x) \<noteq> i) (sessions v)\<rparr>)"

section \<open>Actions\<close>

record template =
  tpl_name :: jsstring
  tpl_cwd :: jsstring

definition createTerminalFromTemplate :: "template \<Rightarrow> dash \<Rightarrow> dash_result" where
  "createTerminalFromTemplate t =
     start_task Creating POST (Some (js ''/api/sessions''))
       (Some (jmsg [(''name'', JStr (tpl_name t)), (''cwd'', JStr (tpl_cwd t))]))"

text \<open>The form of the dashboard trims both fields.\<close>

definition create_submit :: "jsstring \<Rightarrow> jsstring \<Rightarrow> dash \<Rightarrow> dash_result" where
  "create_submit name cwd = createTerminalFromTemplate \<lparr>tpl_name = trim name, tpl_cwd = trim cwd\<rparr>"

definition duplicateTerminal :: "template \<Rightarrow> dash \<Rightarrow> dash_result" where
  "duplicateTerminal t = createTerminalFromTemplate (t\<lparr>tpl_name := duplicateTerminalName (tpl_name t)\<rparr>)"

definition openSavedTerminal :: "saved_terminal \<Rightarrow> dash \<Rightarrow> dash_result" where
  "openSavedTerminal saved d =
     (case runningSessionForSaved (sessions_of d) saved of
        Some s \<Rightarrow> dash_page (renderTerminal (ses_id s) None) d
      | None \<Rightarrow> start_task OpeningSaved POST (history_path (saved_id saved) ''/open'') None d)"

text \<open>\<open>typed\<close> is the answer of the prompt, or the name a caller insists on.\<close>

definition renameRunningSession :: "session \<Rightarrow> nat option \<Rightarrow> jsstring option \<Rightarrow> dash \<Rightarrow> dash_result" where
  "renameRunningSession s owner typed d =
     (case normalizeTerminalNameInput typed of
        Accepted name \<Rightarrow>
          if name = ses_name s then (d, [])
          else start_task (Renaming owner) PATCH (session_path (ses_id s) '''') (Some (jmsg [(''name'', JStr name)])) d
      | Refused msg \<Rightarrow> (d, [Told (next_task d) msg])
      | Cancelled \<Rightarrow> (d, []))"

definition updateSavedTerminal :: "saved_terminal \<Rightarrow> (string \<times> json) list \<Rightarrow> dash \<Rightarrow> dash_result" where
  "updateSavedTerminal saved changes = start_task UpdatingSaved PATCH (history_path (saved_id saved) '''') (Some (jmsg changes))"

definition removeSavedTerminal :: "saved_terminal \<Rightarrow> dash \<Rightarrow> dash_result" where
  "removeSavedTerminal saved = start_task (RemovingSaved saved) DELETE (history_path (saved_id saved) '''') None"

definition renameSavedTerminal :: "saved_terminal \<Rightarrow> jsstring option \<Rightarrow> dash \<Rightarrow> dash_result" where
  "renameSavedTerminal saved typed d =
     (case normalizeTerminalNameInput typed of
        Accepted name \<Rightarrow>
          if name = saved_name saved then (d, [])
          else
            (case runningSessionForSaved (sessions_of d) saved of
               Some s \<Rightarrow> renameRunningSession s None (Some name) d
             | None \<Rightarrow> updateSavedTerminal saved [(''name'', JStr name)] d)
      | Refused msg \<Rightarrow> (d, [Told (next_task d) msg])
      | Cancelled \<Rightarrow> (d, []))"

definition toggleFavoriteForSession :: "session \<Rightarrow> dash \<Rightarrow> dash_result" where
  "toggleFavoriteForSession s d =
     (case savedTerminalBySession (savedTerminals (dp d)) s of
        Some saved \<Rightarrow>
          if favorite saved then
            (if lastClosedAt saved \<noteq> None \<and> lastClosedAt saved \<noteq> Some []
             then updateSavedTerminal saved [(''favorite'', JBool False)] d
             else removeSavedTerminal saved d)
          else updateSavedTerminal saved [(''favorite'', JBool True)] d
      | None \<Rightarrow> start_task Favouriting POST (map_option (\<lambda>e. js ''/api/terminal-history/session/'' @ e @ js ''/favorite'') (encodeURIComponent (ses_id s))) None d)"

definition toggleFavoriteForSaved :: "saved_terminal \<Rightarrow> dash \<Rightarrow> dash_result" where
  "toggleFavoriteForSaved saved = updateSavedTerminal saved [(''favorite'', JBool (\<not> favorite saved))]"

definition viewer_action_for :: "session \<Rightarrow> viewer_action" where
  "viewer_action_for s =
     (if viewer s = Some ViewerVisible \<or> viewer s = Some ViewerOpening then HideViewer else ShowViewer)"

definition toggleNativeViewer :: "nat \<Rightarrow> dash \<Rightarrow> dash_result" where
  "toggleNativeViewer ref d =
     (let s = objects (pv (dp d)) ref; act = viewer_action_for s in
      and_then (d, [ViewerButton (if act = ShowViewer then js ''Opening'' @ ellipsis else js ''Hiding'' @ ellipsis) True])
        (start_task (SettingViewer ref act) POST
           (session_path (ses_id s) (if act = ShowViewer then ''/viewer/show'' else ''/viewer/hide'')) None))"

text \<open>The stop buttons, after the question was confirmed.\<close>

definition stop_session :: "session \<Rightarrow> bool \<Rightarrow> dash \<Rightarrow> dash_result" where
  "stop_session s on_terminal_page = start_task (Stopping (ses_id s) on_terminal_page) POST (session_path (ses_id s) ''/stop'') None"

section \<open>Continuations\<close>

definition max_viewer_polls :: nat where
  "max_viewer_polls = 15"

text \<open>The head of the loop of \<open>refreshNativeViewerStatus\<close>: pause, or leave.\<close>

definition viewer_loop :: "nat \<Rightarrow> nat \<Rightarrow> dash \<Rightarrow> dash_result" where
  "viewer_loop ref attempt d =
     (if attempt < max_viewer_polls \<and> viewer (objects (pv (dp d)) ref) = Some ViewerOpening
      then (d\<lparr>tasks := tasks d @ [(next_task d, ViewerPause ref attempt)], next_task := next_task d + 1\<rparr>, [])
      else (d, []))"

definition set_viewer :: "nat \<Rightarrow> viewer option \<Rightarrow> dash \<Rightarrow> dash" where
  "set_viewer ref x = on_view (\<lambda>v. v\<lparr>objects := (objects v)(ref := (objects v ref)\<lparr>viewer := x\<rparr>)\<rparr>)"

text \<open>What follows a rename: the page of the terminal puts the name into its own object and shows it, the
  dashboard builds its cards anew.\<close>

definition rename_done :: "nat option \<Rightarrow> jsstring \<Rightarrow> dash \<Rightarrow> dash_result" where
  "rename_done owner name d =
     (case owner of
        Some ref \<Rightarrow> (on_view (\<lambda>v. v\<lparr>objects := (objects v)(ref := (objects v ref)\<lparr>ses_name := name\<rparr>)\<rparr>) d, [ShowName name])
      | None \<Rightarrow> (d, [RefreshCards]))"

text \<open>\<open>map((item) => item.id === fresh.id ? { ...item, viewer: fresh.viewer } : item)\<close>: copies.\<close>

definition copy_with_viewer :: "jsstring \<Rightarrow> viewer option \<Rightarrow> dash \<Rightarrow> dash" where
  "copy_with_viewer i x d =
     (let p = dp d; v = pv p; n = next_object p; refs = sessions v;
          pick = (\<lambda>k. if ses_id (objects v (refs ! k)) = i then n + k else refs ! k)
      in d\<lparr>dp := p\<lparr>next_object := n + length refs,
             pv := v\<lparr>objects := (\<lambda>r. if n \<le> r \<and> r < n + length refs then (objects v (refs ! (r - n)))\<lparr>viewer := x\<rparr> else objects v r),
                     sessions := map pick [0 ..< length refs]\<rparr>\<rparr>\<rparr>)"

text \<open>The button, if its page still shows it. After the first answer only an unsupported viewer disables it,
  after an answer of the polling an unknown one does too.\<close>

definition viewer_button :: "bool \<Rightarrow> nat \<Rightarrow> dash \<Rightarrow> dout list" where
  "viewer_button polled ref d =
     (let s = objects (pv (dp d)) ref in
      [ViewerButton (nativeViewerButtonText s) (polled \<and> viewer s = None \<or> viewer s = Some ViewerUnsupported)])"

definition show_created :: "session \<Rightarrow> dash \<Rightarrow> dash_result" where
  "show_created s d = dash_page (renderTerminal (ses_id s) None) (add_session s d)"

definition history_loaded_then :: "date_parse \<Rightarrow> json + jsstring \<Rightarrow> (dash \<Rightarrow> dash_result) \<Rightarrow> nat \<Rightarrow> dash \<Rightarrow> dash_result" where
  "history_loaded_then date r f n d =
     (case loadTerminalHistory date r of
        Inl (saved, available) \<Rightarrow> f (d\<lparr>dp := history_answer saved available (dp d)\<rparr>)
      | Inr msg \<Rightarrow> (d, [Told n msg]))"

definition saved_answer :: "date_parse \<Rightarrow> json \<Rightarrow> nat \<Rightarrow> dash \<Rightarrow> dash_result" where
  "saved_answer date v n d =
     (case decodeSavedTerminal date v of
        Inr u \<Rightarrow> (d\<lparr>dp := (dp d)\<lparr>savedTerminals := replaceSavedTerminal u (savedTerminals (dp d))\<rparr>\<rparr>, [RefreshCards])
      | Inl _ \<Rightarrow> (d, [Told n invalid_history]))"

definition ask_history :: "task \<Rightarrow> dash \<Rightarrow> dash_result" where
  "ask_history t = start_task t GET (Some (js ''/api/terminal-history'')) None"

definition viewer_answer :: "session list \<Rightarrow> nat \<Rightarrow> nat \<Rightarrow> dash \<Rightarrow> dash_result" where
  "viewer_answer list ref attempt d =
     (case find (\<lambda>s. ses_id s = ses_id (objects (pv (dp d)) ref)) list of
        None \<Rightarrow> (d, [])
      | Some fresh \<Rightarrow>
          (let d1 = copy_with_viewer (ses_id fresh) (viewer fresh) (set_viewer ref (viewer fresh) d)
           in and_then (d1, viewer_button True ref d1 @ [RefreshCards]) (viewer_loop ref (attempt + 1))))"

definition continue_task :: "date_parse \<Rightarrow> nat \<Rightarrow> task \<Rightarrow> answer \<Rightarrow> dash \<Rightarrow> dash_result" where
  "continue_task date n t a d =
     (case (t, a) of
        (Creating, GotSession s) \<Rightarrow> show_created s d
      | (OpeningSaved, GotSession s) \<Rightarrow> ask_history (OpenedSaved (ses_id s)) (add_session s d)
      | (OpenedSaved i, GotJson v) \<Rightarrow> history_loaded_then date (Inl v) (dash_page (renderTerminal i None)) n d
      | (OpenedSaved i, GotError e) \<Rightarrow> history_loaded_then date (Inr e) (dash_page (renderTerminal i None)) n d
      | (Renaming owner, GotSession s) \<Rightarrow> ask_history (Renamed owner (ses_name s)) (replace_session s d)
      | (Renamed owner name, GotJson v) \<Rightarrow> history_loaded_then date (Inl v) (rename_done owner name) n d
      | (Renamed owner name, GotError e) \<Rightarrow> history_loaded_then date (Inr e) (rename_done owner name) n d
      | (UpdatingSaved, GotJson v) \<Rightarrow> saved_answer date v n d
      | (Favouriting, GotJson v) \<Rightarrow> saved_answer date v n d
      | (RemovingSaved s, GotError e) \<Rightarrow> (d, [Told n e])
      | (RemovingSaved s, _) \<Rightarrow> (d\<lparr>dp := (dp d)\<lparr>savedTerminals := drop_saved s (savedTerminals (dp d))\<rparr>\<rparr>, [RefreshCards])
      | (SettingViewer ref act, GotViewer x) \<Rightarrow>
          (let d1 = set_viewer ref x d in
           and_then (d1, viewer_button False ref d1 @ [RefreshCards]) (if act = ShowViewer then viewer_loop ref 0 else (\<lambda>d. (d, []))))
      | (SettingViewer ref act, GotError e) \<Rightarrow>
          (d, [ViewerButton (nativeViewerButtonText (objects (pv (dp d)) ref)) False, Told n e])
      | (ViewerAsked ref attempt, GotSessions list) \<Rightarrow> viewer_answer list ref attempt d
      | (ViewerAsked ref attempt, _) \<Rightarrow> (d, [])
      | (Stopping i here, GotError e) \<Rightarrow> (d, [Told n e])
      | (Stopping i here, _) \<Rightarrow>
          (if here then dash_page renderSessions (forget_session i d) else (forget_session i d, [RefreshCards]))
      | (_, GotError e) \<Rightarrow> (d, [Told n e])
      | _ \<Rightarrow> (d, []))"

definition answered :: "date_parse \<Rightarrow> nat \<Rightarrow> answer \<Rightarrow> dash \<Rightarrow> dash_result" where
  "answered date n a d =
     (case find_task n d of
        None \<Rightarrow> (d, [])
      | Some (ViewerPause _ _) \<Rightarrow> (d, [])
      | Some t \<Rightarrow> continue_task date n t a (drop_task n d))"

text \<open>The pause of 700 ms is over: the sessions are asked for; a failure ends the loop without a word.\<close>

definition waited :: "nat \<Rightarrow> dash \<Rightarrow> dash_result" where
  "waited n d =
     (case find_task n d of
        Some (ViewerPause ref attempt) \<Rightarrow>
          (let d1 = drop_task n d in
           if can_request (dp d1) then start_task (ViewerAsked ref attempt) GET (Some (js ''/api/sessions'')) None d1 else (d1, []))
      | _ \<Rightarrow> (d, []))"

datatype devent =
    CreateSubmit jsstring jsstring | Duplicate template | OpenSaved saved_terminal
  | Rename nat bool "jsstring option"           \<comment> \<open>on the terminal page?\<close>
  | RenameSaved saved_terminal "jsstring option"
  | Favourite nat | FavouriteSaved saved_terminal | RemoveSaved saved_terminal
  | ToggleViewer nat | Stop nat bool
  | Answered nat answer | Waited nat
  | PortalEvent pevent

fun dash_step :: "portal_env \<Rightarrow> dash \<Rightarrow> devent \<Rightarrow> dash_result" where
  "dash_step w d (CreateSubmit name cwd) = create_submit name cwd d"
| "dash_step w d (Duplicate t) = duplicateTerminal t d"
| "dash_step w d (OpenSaved s) = openSavedTerminal s d"
| "dash_step w d (Rename r here typed) = renameRunningSession (objects (pv (dp d)) r) (if here then Some r else None) typed d"
| "dash_step w d (RenameSaved s typed) = renameSavedTerminal s typed d"
| "dash_step w d (Favourite r) = toggleFavoriteForSession (objects (pv (dp d)) r) d"
| "dash_step w d (FavouriteSaved s) = toggleFavoriteForSaved s d"
| "dash_step w d (RemoveSaved s) = removeSavedTerminal s d"
| "dash_step w d (ToggleViewer r) = toggleNativeViewer r d"
| "dash_step w d (Stop r here) = stop_session (objects (pv (dp d)) r) here d"
| "dash_step w d (Answered n a) = answered (dates w) n a d"
| "dash_step w d (Waited n) = waited n d"
| "dash_step w d (PortalEvent e) =
     (let (p, outs) = portal_step w (dp d) e in (d\<lparr>dp := p\<rparr>, map DPortal outs))"

text \<open>The state before \<open>boot\<close> has run is the portal's; no action is under way.\<close>

definition initial_dash :: "portal \<Rightarrow> dash" where
  "initial_dash p = \<lparr>dp = p, tasks = [], next_task = 0\<rparr>"

abbreviation dash_run :: "portal_env \<Rightarrow> dash \<Rightarrow> devent list \<Rightarrow> dash_result" where
  "dash_run w \<equiv> run_steps (dash_step w)"

end
