(* ===== verification/DashboardSafety.thy ===== *)
theory DashboardSafety
  imports Dashboard PortalSafety
begin

text \<open>
  Properties of the actions on sessions and history: what they do to the list of sessions, that a
  stopped session stays away, that every action ends, and that an identifier cannot leave its place in a
  path.
\<close>

section \<open>The list of sessions\<close>


section \<open>Identifiers in paths\<close>

lemma hex_digit_range: "n < 16 \<Longrightarrow> unat (hex_digit n) \<in> {48..57} \<union> {65..70}"
proof -
  assume n: "n < 16"
  have "unat (of_nat (48 + n) :: u16) = 48 + n" "unat (of_nat (55 + n) :: u16) = 55 + n"
    using n by (auto intro!: unat_of_nat_u16 simp del: of_nat_add)
  then show ?thesis using n by (auto simp: hex_digit_def simp del: of_nat_add)
qed

definition path_char :: "u16 \<Rightarrow> bool" where
  "path_char c \<longleftrightarrow> uri_unreserved c \<or> c = 37"

lemma hex_digit_char: "n < 16 \<Longrightarrow> path_char (hex_digit n)"
  using hex_digit_range [of n] by (auto simp: path_char_def uri_unreserved_def Let_def)

lemma percent_byte_chars: "list_all path_char (percent_byte b)"
proof -
  have "unat b div 16 < 16" "unat b mod 16 < 16"
    using unat_u8_less [of b] by (auto simp: div_less_iff_less_mult)
  then have "path_char (hex_digit (unat b div 16))" "path_char (hex_digit (unat b mod 16))"
    by (auto intro: hex_digit_char)
  then show ?thesis by (simp add: percent_byte_def path_char_def)
qed

lemma list_all_concat: "(\<And>x. x \<in> set xs \<Longrightarrow> list_all P (f x)) \<Longrightarrow> list_all P (concat (map f xs))"
  by (auto simp: list_all_iff)

text \<open>An identifier stays in its segment: whatever text the computer sent as the identifier of a
  session or of a saved terminal, the path of a request consists of the fixed route and, between its
  slashes, characters that cannot end a segment, a path or a query.\<close>

theorem identifier_is_one_segment:
  assumes "session_path i rest = Some path"
  shows "\<exists>e. path = js ''/api/sessions/'' @ e @ js rest \<and> list_all path_char e \<and> 47 \<notin> set e \<and> 63 \<notin> set e \<and> 35 \<notin> set e"
proof -
  obtain e where e: "encodeURIComponent i = Some e" "path = js ''/api/sessions/'' @ e @ js rest"
    using assms by (auto simp: session_path_def)
  have "list_all path_char (if n < 128 \<and> uri_unreserved (of_nat n) then [of_nat n]
      else concat (map percent_byte (text_encode (code_units n))))" for n
    by (simp add: list_all_concat percent_byte_chars) (simp add: path_char_def)
  then have "list_all path_char e"
    using e(1) by (auto simp: encodeURIComponent_def intro!: list_all_concat split: if_splits)
  moreover have "\<not> path_char 47" "\<not> path_char 63" "\<not> path_char 35"
    by (simp_all add: path_char_def uri_unreserved_def)
  ultimately show ?thesis using e(2) by (auto simp: list_all_iff)
qed

section \<open>A stopped session\<close>

lemma dash_page_frame [simp]:
  "dp (fst (dash_page f d)) = fst (page f (dp d))" "tasks (fst (dash_page f d)) = tasks d"
  by (simp_all add: dash_page_def page_def Let_def case_prod_beta)

lemma start_task_dp [simp]: "dp (fst (start_task t m path body d)) = dp d"
  by (simp add: start_task_def split: option.split)

lemma drop_task_dp [simp]: "dp (drop_task n d) = dp d"
  by (simp add: drop_task_def)

lemma viewer_loop_dp [simp]: "dp (fst (viewer_loop ref k d)) = dp d"
  by (simp add: viewer_loop_def)

lemma ask_history_dp [simp]: "dp (fst (ask_history t d)) = dp d"
  by (simp add: ask_history_def)

lemma sound_list_edits:
  assumes "sound_for C (dp d)"
  shows "ses_id s \<notin> C \<Longrightarrow> sound_for C (dp (add_session s d))"
    and "sound_for C (dp (replace_session s d))"
    and "sound_for C (dp (set_viewer ref x d))"
    and "sound_for (insert i C) (dp (forget_session i d))"
    and "sound_for C (dp (fst (rename_done owner name d)))"
proof -
  show "ses_id s \<notin> C \<Longrightarrow> sound_for C (dp (add_session s d))"
    using assms by (auto simp: sound_for_def add_session_def list_ok_def Let_def)
  show "sound_for C (dp (replace_session s d))"
    using assms by (force simp: sound_for_def replace_session_def list_ok_def Let_def)
  show "sound_for C (dp (set_viewer ref x d))"
    using assms by (auto simp: sound_for_def set_viewer_def on_view_def list_ok_def)
  show "sound_for C (dp (fst (rename_done owner name d)))"
    using assms by (auto simp: sound_for_def rename_done_def on_view_def list_ok_def split: option.split)
  show "sound_for (insert i C) (dp (forget_session i d))"
    using assms by (auto simp: sound_for_def forget_session_def on_view_def list_ok_def)
qed

lemma sound_copy: "sound_for C (dp d) \<Longrightarrow> sound_for C (dp (copy_with_viewer i x d))"
proof -
  assume d: "sound_for C (dp d)"
  have "list_ok (pv (dp (copy_with_viewer i x d))) (next_object (dp (copy_with_viewer i x d)))"
    unfolding list_ok_def
  proof
    fix r assume "r \<in> set (sessions (pv (dp (copy_with_viewer i x d))))"
    then obtain k where k: "k < length (sessions (pv (dp d)))"
      "r = (if ses_id (objects (pv (dp d)) (sessions (pv (dp d)) ! k)) = i then next_object (dp d) + k
            else sessions (pv (dp d)) ! k)"
      by (auto simp: copy_with_viewer_def Let_def)
    then have "sessions (pv (dp d)) ! k < next_object (dp d)"
      "ses_id (objects (pv (dp d)) (sessions (pv (dp d)) ! k)) \<notin> closedSessions (pv (dp d))"
      using d by (auto simp: sound_for_def list_ok_def)
    then show "r < next_object (dp (copy_with_viewer i x d)) \<and>
        ses_id (objects (pv (dp (copy_with_viewer i x d))) r) \<notin> closedSessions (pv (dp (copy_with_viewer i x d)))"
      using k by (auto simp: copy_with_viewer_def Let_def)
  qed
  then show ?thesis
    using d by (simp add: sound_for_def copy_with_viewer_def Let_def)
qed

lemma sound_dash_page:
  assumes "sound_for C (dp d)"
  shows "sound_for C (dp (fst (dash_page renderSessions d)))" "sound_for C (dp (fst (dash_page (renderTerminal i f) d)))"
  using assms by (auto intro: sound_listing)

lemma sound_history_then:
  assumes "sound_for C (dp d)" "\<And>x. sound_for C (dp x) \<Longrightarrow> sound_for C (dp (fst (f x)))"
  shows "sound_for C (dp (fst (history_loaded_then date r f n d)))"
proof -
  have "sound_for C (history_answer saved av (dp d))" for saved av
    using assms(1) by (rule sound_unseen)
  then show ?thesis
    using assms by (auto simp: history_loaded_then_def split: sum.split)
qed

lemma sound_saved_answer: "sound_for C (dp d) \<Longrightarrow> sound_for C (dp (fst (saved_answer date v n d)))"
  by (auto simp: saved_answer_def sound_for_def split: sum.split)

lemma sound_viewer_answer: "sound_for C (dp d) \<Longrightarrow> sound_for C (dp (fst (viewer_answer list ref k d)))"
  by (auto simp: viewer_answer_def Let_def sound_list_edits sound_copy split: option.split)

text \<open>The computer gives a new session an identifier that no closed session has had.\<close>

fun fresh_id :: "dash \<Rightarrow> devent \<Rightarrow> bool" where
  "fresh_id d (Answered n (GotSession s)) =
     (find_task n d \<in> {Some Creating, Some OpeningSaved} \<longrightarrow> ses_id s \<notin> closedSessions (pv (dp d)))"
| "fresh_id d e = True"

fun fresh_ids :: "portal_env \<Rightarrow> dash \<Rightarrow> devent list \<Rightarrow> bool" where
  "fresh_ids w d [] = True"
| "fresh_ids w d (e # es) = (fresh_id d e \<and> fresh_ids w (fst (dash_step w d e)) es)"

lemma sound_continue:
  assumes d: "sound_for C (dp d)" and new: "\<And>s. a = GotSession s \<Longrightarrow> t \<in> {Creating, OpeningSaved} \<Longrightarrow> ses_id s \<notin> C"
  shows "\<exists>C'. C \<subseteq> C' \<and> sound_for C' (dp (fst (continue_task date n t a d)))"
proof (cases t)
  case (Stopping i here)
  have "sound_for (insert i C) (dp (fst (dash_page renderSessions (forget_session i d))))"
    by (rule sound_dash_page(1)) (rule sound_list_edits(4) [OF d])
  then show ?thesis
    using Stopping d sound_list_edits(4) [OF d, of i]
    by (cases a) (auto simp: continue_task_def simp del: dash_page_frame intro: exI [of _ "insert i C"])
next
  case Creating
  then show ?thesis
    using new d by (cases a) (auto simp: continue_task_def show_created_def simp del: dash_page_frame intro!: exI [of _ C] sound_dash_page sound_list_edits)
next
  case OpeningSaved
  then show ?thesis
    using new d by (cases a) (auto simp: continue_task_def intro!: exI [of _ C] sound_list_edits)
next
  case (OpenedSaved i)
  then show ?thesis
    using d by (cases a) (auto simp: continue_task_def simp del: dash_page_frame intro!: exI [of _ C] sound_history_then sound_dash_page)
next
  case (RemovingSaved s)
  have "sound_for C ((dp d)\<lparr>savedTerminals := x\<rparr>)" for x
    using d by (simp add: sound_for_def)
  then show ?thesis
    using RemovingSaved d by (cases a) (auto simp: continue_task_def)
next
  case (SettingViewer ref act)
  then show ?thesis
    using d by (cases a) (auto simp: continue_task_def Let_def intro!: exI [of _ C] sound_list_edits)
qed (use d in \<open>cases a; auto simp: continue_task_def intro!: exI [of _ C] sound_list_edits sound_history_then
       sound_saved_answer sound_viewer_answer\<close>)+

lemma start_action_dp [simp]:
  "dp (fst (createTerminalFromTemplate t d)) = dp d" "dp (fst (create_submit name cwd d)) = dp d"
  "dp (fst (duplicateTerminal t d)) = dp d" "dp (fst (renameRunningSession s owner typed d)) = dp d"
  "dp (fst (updateSavedTerminal saved changes d)) = dp d" "dp (fst (removeSavedTerminal saved d)) = dp d"
  "dp (fst (renameSavedTerminal saved typed d)) = dp d" "dp (fst (toggleFavoriteForSession s d)) = dp d"
  "dp (fst (toggleFavoriteForSaved saved d)) = dp d" "dp (fst (toggleNativeViewer ref d)) = dp d"
  "dp (fst (stop_session s here d)) = dp d" "dp (fst (waited n d)) = dp d"
  by (simp_all add: createTerminalFromTemplate_def create_submit_def duplicateTerminal_def renameRunningSession_def
      updateSavedTerminal_def removeSavedTerminal_def renameSavedTerminal_def toggleFavoriteForSession_def
      toggleFavoriteForSaved_def toggleNativeViewer_def stop_session_def waited_def Let_def
      split: option.split name_input.split task.split)

lemma sound_dash_step:
  assumes d: "sound_for C (dp d)" and new: "fresh_id d e"
  shows "\<exists>C'. C \<subseteq> C' \<and> sound_for C' (dp (fst (dash_step w d e)))"
proof -
  have c: "closedSessions (pv (dp d)) = C" using d by (simp add: sound_for_def)
  show ?thesis
  proof (cases e)
    case (Answered n a)
    show ?thesis
    proof (cases "find_task n d")
      case (Some t)
      have "\<exists>C'. C \<subseteq> C' \<and> sound_for C' (dp (fst (continue_task (dates w) n t a (drop_task n d))))"
        using d new Answered Some c by (intro sound_continue) auto
      then show ?thesis
        using d Some Answered by (auto simp: answered_def split: task.split)
    qed (use d Answered in \<open>auto simp: answered_def\<close>)
  next
    case (OpenSaved s)
    then show ?thesis
      using d sound_dash_page(2) [OF d]
      by (auto simp: openSavedTerminal_def simp del: dash_page_frame split: option.split)
  next
    case (PortalEvent ev)
    then show ?thesis
      using sound_step [OF d, of w ev] by (auto simp: case_prod_beta simp del: portal_step.simps)
  qed (use d in auto)
qed

lemma sound_dash_run:
  "sound_for C (dp d) \<Longrightarrow> fresh_ids w d es \<Longrightarrow> \<exists>C'. C \<subseteq> C' \<and> sound_for C' (dp (fst (dash_run w d es)))"
proof (induction es arbitrary: d C)
  case (Cons e es)
  then obtain C1 where c1: "C \<subseteq> C1" "sound_for C1 (dp (fst (dash_step w d e)))"
    using sound_dash_step [of C d e w] by auto
  with Cons obtain C2 where "C1 \<subseteq> C2" "sound_for C2 (dp (fst (dash_run w (fst (dash_step w d e)) es)))"
    by (metis fresh_ids.simps(2))
  then show ?case using c1(1) by (auto simp del: dash_step.simps)
qed auto

lemma sound_absent: "sound_for C (dp d) \<Longrightarrow> i \<in> C \<Longrightarrow> i \<notin> set (map ses_id (sessions_of d))"
  by (auto simp: sound_for_def list_ok_def sessions_of_def)

text \<open>C22. A stopped terminal stays away: once the computer has confirmed the stop, the session is in no
  later list, whatever the user does and whatever the portal receives, a list that was on its way and still
  contains it included. All it needs is that the computer does not give its identifier to a new session.\<close>

theorem stopped_session_stays_closed:
  assumes "portal_sound (dp d)" "find_task n d = Some (Stopping i here)" "\<forall>e. a \<noteq> GotError e"
    and "fresh_ids w (fst (dash_step w d (Answered n a))) es"
  shows "i \<notin> set (map ses_id (sessions_of (fst (dash_run w d (Answered n a # es)))))"
proof -
  let ?C = "insert i (closedSessions (pv (dp d)))"
  let ?d1 = "fst (dash_step w d (Answered n a))"
  have f: "sound_for ?C (dp (forget_session i (drop_task n d)))"
    by (rule sound_list_edits(4)) (simp add: assms(1))
  then have "sound_for ?C (dp (fst (dash_page renderSessions (forget_session i (drop_task n d)))))"
    by (rule sound_dash_page(1))
  with f have "sound_for ?C (dp ?d1)"
    using assms(2,3) by (cases a) (simp_all add: answered_def continue_task_def)
  from sound_dash_run [OF this assms(4)] show ?thesis
    using sound_absent by (auto simp del: dash_step.simps)
qed

section \<open>Every action ends\<close>

text \<open>How many answers and pauses a task can still go through.\<close>

fun work :: "task \<Rightarrow> nat" where
  "work (ViewerAsked ref k) = 1 + 2 * (14 - k)"
| "work (ViewerPause ref k) = 2 + 2 * (14 - k)"
| "work (SettingViewer ref ShowViewer) = 31"
| "work OpeningSaved = 2"
| "work (Renaming owner) = 2"
| "work t = 1"

definition total_work :: "dash \<Rightarrow> nat" where
  "total_work d = sum_list (map (\<lambda>(n, t). work t) (tasks d))"

text \<open>The event is the answer of a running request, or the end of a running pause.\<close>

fun carries_on :: "dash \<Rightarrow> devent \<Rightarrow> bool" where
  "carries_on d (Answered n a) = (case find_task n d of Some (ViewerPause _ _) \<Rightarrow> False | Some t \<Rightarrow> True | None \<Rightarrow> False)"
| "carries_on d (Waited n) = (case find_task n d of Some (ViewerPause _ _) \<Rightarrow> True | _ \<Rightarrow> False)"
| "carries_on d e = False"

fun all_continue :: "portal_env \<Rightarrow> dash \<Rightarrow> devent list \<Rightarrow> bool" where
  "all_continue w d [] = True"
| "all_continue w d (e # es) = (carries_on d e \<and> all_continue w (fst (dash_step w d e)) es)"

lemma work_pos: "0 < work t"
  by (cases t rule: work.cases) simp_all

lemma work_drop: "find_task n d = Some t \<Longrightarrow> total_work (drop_task n d) + work t \<le> total_work d"
proof -
  have shrink: "sum_list (map (\<lambda>(n, t). work t) (filter P xs)) \<le> sum_list (map (\<lambda>(n, t). work t) xs)" for P xs
    by (induction xs) auto
  have "map_of xs n = Some t \<Longrightarrow>
      sum_list (map (\<lambda>(n, t). work t) (filter (\<lambda>(m, _). m \<noteq> n) xs)) + work t \<le> sum_list (map (\<lambda>(n, t). work t) xs)" for xs
  proof (induction xs)
    case (Cons x xs)
    then show ?case
      using shrink [of "\<lambda>(m, _). m \<noteq> n" xs] by (cases x) (auto split: if_splits)
  qed simp
  then show "find_task n d = Some t \<Longrightarrow> total_work (drop_task n d) + work t \<le> total_work d"
    by (simp add: find_task_def drop_task_def total_work_def)
qed

lemma work_frame [simp]:
  "total_work (fst (dash_page f d)) = total_work d" "total_work (add_session s d) = total_work d"
  "total_work (replace_session s d) = total_work d" "total_work (forget_session i d) = total_work d"
  "total_work (set_viewer ref x d) = total_work d" "total_work (copy_with_viewer i x d) = total_work d"
  "total_work (fst (rename_done owner name d)) = total_work d"
  "total_work (d\<lparr>dp := p\<rparr>) = total_work d" "total_work (fst (saved_answer date v n d)) = total_work d"
  by (simp_all add: total_work_def add_session_def replace_session_def forget_session_def on_view_def set_viewer_def
      copy_with_viewer_def saved_answer_def rename_done_def Let_def split: sum.split option.split)

lemma work_start: "total_work (fst (start_task t m path body d)) \<le> total_work d + work t"
  by (simp add: start_task_def total_work_def split: option.split)

lemma work_loop: "total_work (fst (viewer_loop ref k d)) \<le> total_work d + (if k < 15 then 2 + 2 * (14 - k) else 0)"
  by (simp add: viewer_loop_def max_viewer_polls_def total_work_def)

lemma work_history:
  "(\<And>x. total_work (fst (f x)) = total_work x) \<Longrightarrow> total_work (fst (history_loaded_then date r f n d)) = total_work d"
  by (simp add: history_loaded_then_def split: sum.split)

lemma work_viewer_answer: "total_work (fst (viewer_answer list ref k d)) \<le> total_work d + 2 * (14 - k)"
proof -
  have "total_work (fst (viewer_loop ref (k + 1) x)) \<le> total_work x + 2 * (14 - k)" for x
    using work_loop [of ref "k + 1" x] by (auto split: if_splits)
  then show ?thesis
    by (simp add: viewer_answer_def Let_def split: option.split) (metis work_frame(5,6))
qed

lemma work_continue: "total_work (fst (continue_task date n t a d)) < total_work d + work t"
proof (cases t)
  case (SettingViewer ref act)
  have "total_work (fst (viewer_loop ref 0 (set_viewer ref x d))) < total_work d + 31" for x
    using work_loop [of ref 0 "set_viewer ref x d"] by simp
  then show ?thesis
    using SettingViewer work_frame(5) by (cases a; cases act) (auto simp: continue_task_def Let_def le_less_trans)
next
  case (ViewerAsked ref k)
  then show ?thesis
    using work_viewer_answer [of _ ref k d] by (cases a) (auto simp: continue_task_def le_imp_less_Suc)
next
  case OpeningSaved
  have "total_work (fst (ask_history (OpenedSaved i) (add_session s d))) < total_work d + 2" for i s
    using work_start [of "OpenedSaved i" _ _ _ "add_session s d"] by (simp add: ask_history_def less_Suc_eq_le)
  then show ?thesis
    using OpeningSaved by (cases a) (auto simp: continue_task_def le_imp_less_Suc)
next
  case (Renaming owner)
  have "total_work (fst (ask_history (Renamed owner name) (replace_session s d))) < total_work d + 2" for s name
    using work_start [of "Renamed owner name" _ _ _ "replace_session s d"] by (simp add: ask_history_def less_Suc_eq_le)
  then show ?thesis
    using Renaming by (cases a) (auto simp: continue_task_def le_imp_less_Suc)
qed (cases a; simp add: continue_task_def show_created_def work_history)+

lemma work_step: "carries_on d e \<Longrightarrow> total_work (fst (dash_step w d e)) < total_work d"
proof (cases e)
  case (Answered n a)
  moreover assume "carries_on d e"
  ultimately obtain t where t: "find_task n d = Some t" "\<And>r k. t \<noteq> ViewerPause r k"
    by (auto split: option.splits task.splits)
  then have "fst (dash_step w d e) = fst (continue_task (dates w) n t a (drop_task n d))"
    by (simp add: Answered answered_def split: task.split)
  then show ?thesis
    using work_continue [of "dates w" n t a "drop_task n d"] work_drop [OF t(1)] by simp
next
  case (Waited n)
  moreover assume "carries_on d e"
  ultimately obtain r k where t: "find_task n d = Some (ViewerPause r k)"
    by (auto split: option.splits task.splits)
  have "total_work (fst (waited n d)) \<le> total_work (drop_task n d) + work (ViewerAsked r k)"
    using t work_start [of "ViewerAsked r k"] by (simp add: waited_def Let_def)
  then show ?thesis
    using work_drop [OF t] Waited by simp
qed simp_all

text \<open>C29. Every action ends: the answers and pauses that carry the running actions on are at most their work,
  one or two for each and thirty-one for opening the viewer (fifteen polls), and when that many have
  happened no action is left.\<close>

theorem actions_end:
  assumes "all_continue w d es"
  shows "length es \<le> total_work d \<and> (length es = total_work d \<longrightarrow> tasks (fst (dash_run w d es)) = [])"
proof -
  have "length es + total_work (fst (dash_run w d es)) \<le> total_work d"
    using assms
  proof (induction es arbitrary: d)
    case (Cons e es)
    then have "length es + total_work (fst (dash_run w (fst (dash_step w d e)) es)) \<le> total_work (fst (dash_step w d e))"
      "total_work (fst (dash_step w d e)) < total_work d"
      by (simp_all add: work_step del: dash_step.simps)
    then show ?case by (simp del: dash_step.simps)
  qed simp
  moreover have "total_work x = 0 \<Longrightarrow> tasks x = []" for x
    using work_pos less_not_refl3 by (cases "tasks x") (auto simp: total_work_def, metis less_irrefl)
  ultimately show ?thesis by simp
qed

section \<open>Where an action meets the page\<close>

text \<open>The stop button of a terminal page throws the user out of wherever he is: if he has opened another
  terminal before the computer confirms the stop, the answer closes that terminal's connection and shows
  the list of sessions.\<close>

theorem stop_answer_leaves_page:
  assumes "find_task n d = Some (Stopping i True)" "\<forall>e. a \<noteq> GotError e"
    and "selected (pv (dp d)) = Some j" "j \<noteq> i" "on_page (pv (dp d))" "conn (pv (dp d)) = Some k"
  shows "let v = pv (dp (fst (dash_step w d (Answered n a)))) in
    conn v = None \<and> \<not> on_page v \<and> selected v = None \<and> view_name v = ViewSessions"
proof -
  have "fst (dash_step w d (Answered n a)) = fst (dash_page renderSessions (forget_session i (drop_task n d)))"
    using assms(1,2) by (cases a) (simp_all add: answered_def continue_task_def)
  then show ?thesis
    by (simp add: Let_def renderSessions_def closeConnection_def rememberPortalView_def startPolling_def stopPolling_def)
qed

text \<open>A rename takes effect in two steps: the computer's answer puts a new object into the list, and only when the
  history has been read again does the page of the terminal put the name into its own object. In between, asking for
  the old name is taken for no change and sends nothing, although the list shows the new one; afterwards the page's
  object has the new name.\<close>

theorem rename_back_is_ignored:
  assumes "find_task n d = Some (Renaming (Some r))" "r \<in> set (sessions (pv (dp d)))" "r < next_object (dp d)"
    and "ses_id s = ses_id (objects (pv (dp d)) r)" "ses_name s \<noteq> ses_name (objects (pv (dp d)) r)"
    and "normalizeTerminalNameInput (Some (ses_name (objects (pv (dp d)) r))) = Accepted (ses_name (objects (pv (dp d)) r))"
  shows "let d1 = fst (dash_step w d (Answered n (GotSession s))) in
    s \<in> set (sessions_of d1) \<and>
    dash_step w d1 (Rename r True (Some (ses_name (objects (pv (dp d)) r)))) = (d1, []) \<and>
    ses_name (objects (pv (dp (fst (rename_done (Some r) (ses_name s) d1)))) r) = ses_name s"
proof -
  let ?d1 = "fst (dash_step w d (Answered n (GotSession s)))"
  have d1: "dp ?d1 = dp (replace_session s (drop_task n d))"
    using assms(1) by (simp add: answered_def continue_task_def)
  have "s \<in> set (sessions_of ?d1)"
    using assms(2-4) d1 by (force simp: sessions_of_def replace_session_def Let_def)
  moreover have "objects (pv (dp ?d1)) r = objects (pv (dp d)) r"
    unfolding d1 using assms(3) by (simp add: replace_session_def Let_def)
  moreover have "ses_name (objects (pv (dp (fst (rename_done (Some r) (ses_name s) ?d1)))) r) = ses_name s"
    by (simp add: rename_done_def on_view_def)
  ultimately show ?thesis
    using assms(6) by (simp add: Let_def renameRunningSession_def del: dash_step.simps(11))
qed

section \<open>Examples\<close>

definition demo_board :: "(nat \<times> task) list \<Rightarrow> dash" where
  "demo_board ts =
     \<lparr>dp = demo_portal\<lparr>pv := demo_page\<lparr>sessions := [0, 1],
          objects := (\<lambda>r. if r = 1 then demo_session\<lparr>ses_id := js ''s2''\<rparr> else demo_session)\<rparr>, next_object := 2\<rparr>,
      tasks = ts, next_task = length ts\<rparr>"

lemma demo_board_facts [simp]:
  "sessions (pv (dp (demo_board ts))) = [0, 1]" "next_object (dp (demo_board ts)) = 2" "tasks (demo_board ts) = ts"
  "objects (pv (dp (demo_board ts))) r = (if r = 1 then demo_session\<lparr>ses_id := js ''s2''\<rparr> else demo_session)"
  "selected (pv (dp (demo_board ts))) = Some (js ''s1'')" "on_page (pv (dp (demo_board ts)))"
  "conn (pv (dp (demo_board ts))) \<noteq> None"
  by (simp_all add: demo_board_def demo_page_def initial_view_def)

lemma demo_board_sound: "portal_sound (dp (demo_board ts))"
  by (simp add: demo_board_def demo_portal_def initial_portal_def demo_page_def initial_view_def sound_for_def
      attempts_ok_def list_ok_def)

lemma demo_board_task: "find_task 0 (demo_board [(0, t)]) = Some t"
  by (simp add: find_task_def)


lemma demo_path: "session_path (js ''a/b'') ''/stop'' = Some (js ''/api/sessions/a%2Fb/stop'')"
  by (simp add: session_path_def encodeURIComponent_def js_eval)

theorem identifier_is_one_segment_witness:
  "\<exists>e. js ''/api/sessions/a%2Fb/stop'' = js ''/api/sessions/'' @ e @ js ''/stop'' \<and> list_all path_char e \<and> 47 \<notin> set e \<and>
     63 \<notin> set e \<and> 35 \<notin> set e"
  using identifier_is_one_segment [OF demo_path] .

theorem stopped_session_stays_closed_witness:
  "js ''s1'' \<notin> set (map ses_id (sessions_of (fst (dash_run demo_portal_env
     (demo_board [(0, Stopping (js ''s1'') False)])
     [Answered 0 GotNothing, PortalEvent Wake, PortalEvent (PageSessions [demo_session] False)]))))"
  by (rule stopped_session_stays_closed [OF demo_board_sound demo_board_task]) simp_all

theorem actions_end_witness:
  "tasks (fst (dash_run demo_portal_env (demo_board [(0, Stopping (js ''s1'') False)]) [Answered 0 GotNothing])) = []"
proof -
  have "all_continue demo_portal_env (demo_board [(0, Stopping (js ''s1'') False)]) [Answered 0 GotNothing]"
    by (simp add: demo_board_task)
  from actions_end [OF this] show ?thesis by (simp add: total_work_def)
qed

theorem stop_answer_leaves_page_witness:
  "let v = pv (dp (fst (dash_step demo_portal_env (demo_board [(0, Stopping (js ''s2'') True)]) (Answered 0 GotNothing)))) in
     conn v = None \<and> \<not> on_page v \<and> selected v = None \<and> view_name v = ViewSessions"
proof -
  obtain k where k: "conn (pv (dp (demo_board [(0, Stopping (js ''s2'') True)]))) = Some k"
    using demo_board_facts(7) by blast
  show ?thesis
    by (rule stop_answer_leaves_page [OF demo_board_task _ demo_board_facts(5) _ demo_board_facts(6) k]) simp_all
qed

theorem rename_back_is_ignored_witness:
  "let d1 = fst (dash_step demo_portal_env (demo_board [(0, Renaming (Some 0))]) (Answered 0 (GotSession (demo_session\<lparr>ses_name := js ''build''\<rparr>)))) in
     demo_session\<lparr>ses_name := js ''build''\<rparr> \<in> set (sessions_of d1) \<and>
     dash_step demo_portal_env d1 (Rename 0 True (Some (js ''shell''))) = (d1, []) \<and>
     ses_name (objects (pv (dp (fst (rename_done (Some 0) (js ''build'') d1)))) 0) = js ''build''"
proof -
  have n: "normalizeTerminalNameInput (Some (js ''shell'')) = Accepted (js ''shell'')"
    by code_simp
  have o: "ses_name (objects (pv (dp (demo_board ts))) 0) = js ''shell''" for ts
    by (simp add: demo_session_def)
  from rename_back_is_ignored [OF demo_board_task, of 0 "demo_session\<lparr>ses_name := js ''build''\<rparr>" demo_portal_env]
  show ?thesis unfolding o using n by (simp add: demo_session_def del: dash_step.simps)
qed

end
