(* ===== verification/DashboardCards.thy ===== *)
theory DashboardCards
  imports DashboardSafety
begin

text \<open>
  What the list of terminals shows: \<open>renderSessionCards\<close> and the cards of \<open>main.ts\<close>, as data, with the headings
  and the summary.
\<close>

section \<open>Cards\<close>

record run_card =
  rc_session :: session
  rc_folder :: jsstring
  rc_badge :: jsstring
  rc_command :: jsstring
  rc_path :: jsstring
  rc_age :: jsstring
  rc_viewer :: "jsstring \<times> bool"           \<comment> \<open>the text of the button, and whether it is disabled\<close>
  rc_favorite :: jsstring

definition viewer_badge :: "viewer option \<Rightarrow> jsstring" where
  "viewer_badge x =
     (case x of
        Some ViewerVisible \<Rightarrow> js ''ON COMPUTER''
      | Some ViewerOpening \<Rightarrow> js ''OPENING''
      | Some ViewerHidden \<Rightarrow> js ''HEADLESS''
      | _ \<Rightarrow> js ''RUNNING'')"

definition favorite_text :: "bool \<Rightarrow> jsstring" where
  "favorite_text fav = (if fav then js ''Unfavorite'' else js ''Favorite'')"

definition renderRunningSessionCard :: "date_parse \<Rightarrow> int \<Rightarrow> saved_terminal list \<Rightarrow> session \<Rightarrow> run_card" where
  "renderRunningSessionCard date now saved s =
     \<lparr>rc_session = s, rc_folder = projectLabel (ses_cwd s), rc_badge = viewer_badge (viewer s),
       rc_command = js ''$ '' @ join (js '' '') (command s), rc_path = compactPath (ses_cwd s), rc_age = ageLabel date now s,
       rc_viewer = (nativeViewerButtonText s, viewer_button_disabled s),
       rc_favorite = favorite_text (case savedTerminalBySession saved s of Some t \<Rightarrow> favorite t | None \<Rightarrow> False)\<rparr>"

record saved_card =
  sc_saved :: saved_terminal
  sc_label :: jsstring
  sc_live :: bool
  sc_folder :: jsstring
  sc_badge :: jsstring
  sc_command :: jsstring
  sc_path :: jsstring
  sc_age :: jsstring
  sc_open :: jsstring
  sc_favorite :: jsstring

text \<open>\<open>control\<close> is \<open>state.viewerControlAvailable\<close>.\<close>

definition renderSavedTerminalCard ::
  "date_parse \<Rightarrow> (int \<Rightarrow> jsstring) \<Rightarrow> int \<Rightarrow> bool \<Rightarrow> session list \<Rightarrow> saved_terminal \<Rightarrow> saved_card" where
  "renderSavedTerminalCard date local_date now control ss t =
     (let live = runningSessionForSaved ss t in
      \<lparr>sc_saved = t,
        sc_label = (if live \<noteq> None then js ''Open'' else js ''Open a new shell for'') @ js '' '' @ saved_name t,
        sc_live = (live \<noteq> None), sc_folder = projectLabel (saved_cwd t),
        sc_badge = (if live \<noteq> None then js ''RUNNING'' else if favorite t then js ''FAVORITE'' else js ''RECENT''),
        sc_command = (case live of Some s \<Rightarrow> js ''$ '' @ join (js '' '') (command s) | None \<Rightarrow> js ''$ new interactive shell''),
        sc_path = compactPath (saved_cwd t), sc_age = savedAgeLabel date local_date now t,
        sc_open = (if live \<noteq> None then js ''Open here'' else if control then js ''Open new shell'' else js ''Open new shell + computer''),
        sc_favorite = favorite_text (favorite t)\<rparr>)"

section \<open>The list\<close>

record board =
  running_cards :: "run_card list"
  favorite_cards :: "saved_card list"
  recent_cards :: "saved_card list"

definition renderSessionCards ::
  "date_parse \<Rightarrow> (int \<Rightarrow> jsstring) \<Rightarrow> int \<Rightarrow> bool \<Rightarrow> session list \<Rightarrow> saved_terminal list \<Rightarrow> board" where
  "renderSessionCards date local_date now control ss saved =
     (let groups = visibleSavedGroups date saved (set (map ses_id ss)); card = renderSavedTerminalCard date local_date now control ss
      in \<lparr>running_cards = map (renderRunningSessionCard date now saved) ss,
           favorite_cards = map card (favorites groups), recent_cards = map card (recent groups)\<rparr>)"

definition section_count :: "'a list \<Rightarrow> jsstring" where
  "section_count cards = nat_text (length cards)"

definition updateSessionSummary :: "date_parse \<Rightarrow> bool \<Rightarrow> session list \<Rightarrow> saved_terminal list \<Rightarrow> jsstring \<times> jsstring" where
  "updateSessionSummary date encrypted ss saved =
     (session_summary (length ss) (length (favoriteSavedTerminals date saved)) (length (recentSavedTerminals date saved ss)),
      (if encrypted then js ''E2E'' @ mid_dot else []) @ js ''Computer online'' @ mid_dot @ nat_text (length ss) @ js '' running'')"

section \<open>Each terminal once\<close>

lemma no_live_card: "savedSessionID t \<notin> set (map ses_id ss) \<Longrightarrow> runningSessionForSaved ss t = None"
  by (simp add: runningSessionForSaved_def find_None_iff) (metis image_eqI)

lemma card_saved [simp]: "sc_saved (renderSavedTerminalCard date ld now control ss t) = t"
  by (simp add: renderSavedTerminalCard_def Let_def)

lemma run_card_session [simp]: "rc_session (renderRunningSessionCard date now saved s) = s"
  by (simp add: renderRunningSessionCard_def)

lemma group_members:
  "t \<in> set (favorites (visibleSavedGroups date saved ids)) \<longleftrightarrow> t \<in> set saved \<and> savedSessionID t \<notin> ids \<and> favorite t"
  "t \<in> set (recent (visibleSavedGroups date saved ids)) \<longleftrightarrow> t \<in> set saved \<and> savedSessionID t \<notin> ids \<and> \<not> favorite t"
  by (auto simp: visibleSavedGroups_def Let_def)

text \<open>The list shows every terminal once: each running session in one card, in the order of the list, and each saved
  terminal whose session is not listed in one card, among the favourites exactly if it is one; no card of a saved
  terminal says that it runs, and all of them offer a new shell.\<close>

theorem board_shows_each_terminal_once:
  fixes date :: date_parse and ld :: "int \<Rightarrow> jsstring" and ss :: "session list" and saved :: "saved_terminal list"
    and now :: int and control :: bool
  defines "b \<equiv> renderSessionCards date ld now control ss saved"
  shows "map rc_session (running_cards b) = ss \<and>
    mset (map sc_saved (favorite_cards b @ recent_cards b)) = mset (filter (\<lambda>t. savedSessionID t \<notin> set (map ses_id ss)) saved) \<and>
    list_all (\<lambda>c. favorite (sc_saved c) \<and> sc_badge c = js ''FAVORITE'') (favorite_cards b) \<and>
    list_all (\<lambda>c. \<not> favorite (sc_saved c) \<and> sc_badge c = js ''RECENT'') (recent_cards b) \<and>
    list_all (\<lambda>c. \<not> sc_live c \<and> sc_open c \<in> {js ''Open new shell'', js ''Open new shell + computer''}) (favorite_cards b @ recent_cards b)"
proof (intro conjI)
  let ?g = "visibleSavedGroups date saved (set (map ses_id ss))"
  have split: "mset (filter favorite vs) + mset (filter (\<lambda>s. \<not> favorite s) vs) = mset vs" for vs :: "saved_terminal list"
    by (induction vs) simp_all
  show "map rc_session (running_cards b) = ss"
    by (simp add: b_def renderSessionCards_def Let_def comp_def)
  have "map sc_saved (favorite_cards b @ recent_cards b) = favorites ?g @ recent ?g"
    by (simp add: b_def renderSessionCards_def Let_def comp_def)
  then show "mset (map sc_saved (favorite_cards b @ recent_cards b)) = mset (filter (\<lambda>t. savedSessionID t \<notin> set (map ses_id ss)) saved)"
    using split [of "filter (\<lambda>t. savedSessionID t \<notin> set (map ses_id ss)) saved"]
    by (simp only: mset_append visibleSavedGroups_def Let_def saved_groups.simps mset_by_activity)
  define F R where "F = favorites ?g" and "R = recent ?g"
  have fr: "favorite_cards b = map (renderSavedTerminalCard date ld now control ss) F"
    "recent_cards b = map (renderSavedTerminalCard date ld now control ss) R"
    by (simp_all add: b_def F_def R_def renderSessionCards_def Let_def)
  have f: "favorite t \<and> runningSessionForSaved ss t = None" if "t \<in> set F" for t
    using that no_live_card [of t ss] by (simp add: F_def group_members del: set_map)
  have r: "\<not> favorite t \<and> runningSessionForSaved ss t = None" if "t \<in> set R" for t
    using that no_live_card [of t ss] by (simp add: R_def group_members del: set_map)
  show "list_all (\<lambda>c. favorite (sc_saved c) \<and> sc_badge c = js ''FAVORITE'') (favorite_cards b)"
    "list_all (\<lambda>c. \<not> favorite (sc_saved c) \<and> sc_badge c = js ''RECENT'') (recent_cards b)"
    "list_all (\<lambda>c. \<not> sc_live c \<and> sc_open c \<in> {js ''Open new shell'', js ''Open new shell + computer''}) (favorite_cards b @ recent_cards b)"
    using f r by (auto simp: fr list_all_iff renderSavedTerminalCard_def Let_def)
qed

text \<open>The summary counts a running favourite twice: the number of favourites it names is that of the cards under
  Favorites and the favourites whose session is listed as running, which have no card there; the numbers of
  running and recent terminals are those of the cards.\<close>

theorem summary_counts_running_favorites:
  fixes date :: date_parse and ld :: "int \<Rightarrow> jsstring" and ss :: "session list" and saved :: "saved_terminal list"
    and now :: int and control :: bool
  defines "b \<equiv> renderSessionCards date ld now control ss saved"
  shows "fst (updateSessionSummary date encrypted ss saved) =
    session_summary (length (running_cards b))
      (length (favorite_cards b) + length (filter (\<lambda>t. favorite t \<and> savedSessionID t \<in> set (map ses_id ss)) saved))
      (length (recent_cards b))"
proof -
  have len: "length (by_activity date ts) = length ts" for ts
    by (metis mset_by_activity size_mset)
  have "length (filter favorite ts) =
      length (filter favorite (filter (\<lambda>t. \<not> P t) ts)) + length (filter (\<lambda>t. favorite t \<and> P t) ts)"
    for P and ts :: "saved_terminal list"
    by (induction ts) simp_all
  from this [of saved "\<lambda>t. savedSessionID t \<in> set (map ses_id ss)"] show ?thesis
    by (simp add: b_def renderSessionCards_def updateSessionSummary_def favoriteSavedTerminals_def recentSavedTerminals_def
        visibleSavedGroups_def Let_def len del: set_map)
qed

end
