(* ===== verification/TeamRoom.thy ===== *)
theory TeamRoom
  imports Dashboard Runs
begin

text \<open>
  AI Work in \<open>main.ts\<close>: the labels of team rooms, the form that reviews and starts a room, the cards of
  participants and the feed of messages, the composer of messages, and the intervals with which the pages
  poll.

  Each of them is a state machine of its own. A promise under way is a \<open>pending_form\<close>, a message being sent,
  or a numbered fetch; its answer is an event.
\<close>

section \<open>Workflows\<close>

record stage =
  stg_id :: jsstring
  stg_agent :: jsstring
  stg_prompt :: jsstring
  stg_status :: jsstring
  stg_session :: "jsstring option"

datatype sender_type = FromHuman | FromAgent | FromSystem

datatype message_kind = TaskKind | PlainKind | HandoffKind | QuestionKind | StatusKind

record room_message =
  msg_id :: nat
  msg_stage :: "jsstring option"
  msg_sender :: jsstring
  msg_sender_type :: sender_type
  msg_recipient :: jsstring
  msg_kind :: message_kind
  msg_body :: jsstring
  msg_reply :: "nat option"
  msg_created :: jsstring

record workflow =
  wf_request :: jsstring
  wf_cwd :: jsstring
  wf_status :: jsstring
  wf_stages :: "stage list"
  wf_messages :: "room_message list option"
  wf_count :: nat
  wf_last :: "room_message option"

text \<open>\<open>new Set\<close> keeps the first of equal elements.\<close>

definition js_set :: "'a list \<Rightarrow> 'a list" where
  "js_set xs = rev (remdups (rev xs))"

definition workflowAgentIDs :: "workflow \<Rightarrow> jsstring list" where
  "workflowAgentIDs w = js_set (map stg_agent (wf_stages w))"

definition latestAgentStage :: "workflow \<Rightarrow> jsstring \<Rightarrow> stage option" where
  "latestAgentStage w a = find (\<lambda>s. stg_agent s = a) (rev (wf_stages w))"

definition agentPresence :: "stage option \<Rightarrow> jsstring" where
  "agentPresence s =
     (case map_option stg_status s of
        None \<Rightarrow> js ''Available''
      | Some st \<Rightarrow>
          if st = js ''running'' then js ''Working now''
          else if st = js ''queued'' then js ''Waiting for turn''
          else if st = js ''completed'' then js ''Turn complete''
          else if st = js ''failed'' then js ''Needs attention''
          else if st = js ''cancelled'' then js ''Stopped''
          else if st = js ''interrupted'' then js ''Disconnected''
          else js ''Available'')"

definition room_messages :: "workflow \<Rightarrow> room_message list" where
  "room_messages w =
     (case wf_messages w of Some ms \<Rightarrow> ms | None \<Rightarrow> (case wf_last w of Some m \<Rightarrow> [m] | None \<Rightarrow> []))"

definition latest_id :: "(room_message \<Rightarrow> bool) \<Rightarrow> room_message list \<Rightarrow> nat" where
  "latest_id P ms = (case find P (rev ms) of Some m \<Rightarrow> msg_id m | None \<Rightarrow> 0)"

definition asks_human :: "room_message \<Rightarrow> bool" where
  "asks_human m \<longleftrightarrow>
     msg_kind m = QuestionKind \<and> msg_recipient m = js ''human'' \<and> has_substring (js ''?'') (msg_body m)"

definition from_human :: "room_message \<Rightarrow> bool" where
  "from_human m \<longleftrightarrow> msg_sender_type m = FromHuman"

text \<open>\<open>upper\<close> is \<open>toUpperCase\<close>.\<close>

definition roomStatusLabel :: "(jsstring \<Rightarrow> jsstring) \<Rightarrow> workflow \<Rightarrow> jsstring" where
  "roomStatusLabel upper w =
     (let ms = room_messages w; st = wf_status w in
      if latest_id from_human ms < latest_id asks_human ms then js ''NEEDS YOU''
      else if st = js ''running'' then js ''LIVE''
      else if st = js ''queued'' then js ''QUEUED''
      else if st = js ''completed'' then js ''DONE''
      else if st = js ''failed'' then js ''BLOCKED''
      else if st = js ''cancelled'' then js ''STOPPED''
      else if st = js ''interrupted'' then js ''INTERRUPTED''
      else upper st)"

section \<open>Texts\<close>

text \<open>\<open>replace(/\s+/g, " ")\<close>.\<close>

function collapse_space :: "jsstring \<Rightarrow> jsstring" where
  "collapse_space [] = []"
| "collapse_space (c # s) =
     (if is_space c then 32 # collapse_space (dropWhile is_space s) else c # collapse_space s)"
  by pat_completeness auto
termination
  by (relation "measure length") (auto simp: length_dropWhile_le le_imp_less_Suc)

definition singleLine :: "jsstring \<Rightarrow> jsstring" where
  "singleLine v =
     (let line = trim (collapse_space v) in if 110 < length line then slice line 0 107 @ ellipsis else line)"

text \<open>\<open>replace(/@[a-z][a-z0-9_-]*/gi, "")\<close>.\<close>

definition is_ascii_letter :: "u16 \<Rightarrow> bool" where
  [js_eval]: "is_ascii_letter c \<longleftrightarrow> (let u = unat c in 97 \<le> u \<and> u \<le> 122 \<or> 65 \<le> u \<and> u \<le> 90)"

definition is_mention_char :: "u16 \<Rightarrow> bool" where
  [js_eval]: "is_mention_char c \<longleftrightarrow> (let u = unat c in is_ascii_letter c \<or> 48 \<le> u \<and> u \<le> 57 \<or> u = 95 \<or> u = 45)"

function strip_mentions :: "jsstring \<Rightarrow> jsstring" where
  "strip_mentions [] = []"
| "strip_mentions (c # s) =
     (if c = 64 \<and> s \<noteq> [] \<and> is_ascii_letter (hd s) then strip_mentions (dropWhile is_mention_char s)
      else c # strip_mentions s)"
  by pat_completeness auto
termination
  by (relation "measure length") (auto simp: length_dropWhile_le le_imp_less_Suc)

definition roomTitle :: "jsstring \<Rightarrow> jsstring" where
  "roomTitle request =
     (let v = singleLine (trim (strip_mentions request)) in
      if 54 < length v then slice v 0 51 @ ellipsis else if v = [] then js ''AI team room'' else v)"

definition agentInitials :: "(jsstring \<Rightarrow> jsstring) \<Rightarrow> jsstring \<Rightarrow> jsstring" where
  "agentInitials upper a = upper (slice a 0 2)"

definition messageSenderLabel :: "room_message \<Rightarrow> jsstring" where
  "messageSenderLabel m = (if from_human m then js ''You'' else js ''@'' @ msg_sender m)"

definition relativeTime :: "date_parse \<Rightarrow> int \<Rightarrow> jsstring \<Rightarrow> jsstring" where
  "relativeTime date now v =
     (case date v of
        None \<Rightarrow> js ''now''
      | Some time \<Rightarrow>
          let seconds = seconds_between time now; minutes = seconds div 60; hours = minutes div 60 in
          if seconds < 60 then js ''now''
          else if minutes < 60 then nat_text minutes @ js ''m''
          else if hours < 24 then nat_text hours @ js ''h''
          else nat_text (hours div 24) @ js ''d'')"

section \<open>The chips of the agents\<close>

record local_agent =
  agent_id :: jsstring
  available :: bool
  runnable :: bool
  auth_status :: jsstring

definition agent_ready :: "local_agent \<Rightarrow> bool" where
  "agent_ready a \<longleftrightarrow> available a \<and> runnable a \<and> auth_status a \<noteq> js ''needs-login''"

definition agent_label :: "local_agent \<Rightarrow> jsstring" where
  "agent_label a =
     js ''@'' @ agent_id a @ mid_dot @
       (if \<not> available a then js ''not installed'' else if \<not> runnable a then js ''adapter pending'' else auth_status a)"

section \<open>The form that starts a room\<close>

text \<open>The texts are those of the request and of the directory, as sent: trimmed.\<close>

type_synonym texts = "jsstring \<times> jsstring"

datatype pending_form = Compiling texts | CreatingRoom texts

text \<open>The button behind the chips; there is none until the agents are known.\<close>

datatype refresh_button = NoRefresh | RefreshReady | RefreshChecking | RefreshFailed

record room_form =
  request_text :: jsstring
  cwd_text :: jsstring
  reviewed :: bool
  preview :: "(texts \<times> stage list) option"
  form_pending :: "pending_form option"
  submit_enabled :: bool
  submit_label :: jsstring
  form_error :: jsstring
  inputs_enabled :: bool
  chips :: "local_agent list"
  known_projects :: "jsstring list"           \<comment> \<open>the paths suggested, in the closures of the buttons\<close>
  project_options :: "jsstring list"          \<comment> \<open>the list below the input of the directory\<close>
  refresh_button :: refresh_button
  list_loading :: bool

datatype form_out = CompileRequest texts | CreateRequest texts | OpenRoom jsstring | RefreshRequest | ForgetView

type_synonym form_result = "room_form \<times> form_out list"

definition new_form :: room_form where
  "new_form = \<lparr>request_text = [], cwd_text = [], reviewed = False, preview = None, form_pending = None,
     submit_enabled = True, submit_label = js ''Create room '' @ [0x2192], form_error = [], inputs_enabled = True, chips = [], known_projects = [],
     project_options = [], refresh_button = NoRefresh, list_loading = True\<rparr>"

definition resetPreview :: "room_form \<Rightarrow> room_form" where
  "resetPreview f = f\<lparr>reviewed := False, preview := None, submit_label := js ''Review team '' @ [0x2192]\<rparr>"

definition sent_texts :: "room_form \<Rightarrow> texts" where
  "sent_texts f = (trim (request_text f), trim (cwd_text f))"

text \<open>A disabled button keeps the browser from submitting the form.\<close>

definition form_submit :: "room_form \<Rightarrow> form_result" where
  "form_submit f =
     (if \<not> submit_enabled f then (f, [])
      else
        let f1 = f\<lparr>form_error := [], submit_enabled := False,
                   submit_label := (if reviewed f then js ''Starting'' else js ''Reviewing'') @ ellipsis\<rparr>
        in if \<not> reviewed f then (f1\<lparr>form_pending := Some (Compiling (sent_texts f))\<rparr>, [CompileRequest (sent_texts f)])
           else (f1\<lparr>form_pending := Some (CreatingRoom (sent_texts f))\<rparr>, [CreateRequest (sent_texts f)]))"

definition form_compiled :: "stage list \<Rightarrow> room_form \<Rightarrow> form_result" where
  "form_compiled stages f =
     (case form_pending f of
        Some (Compiling t) \<Rightarrow>
          (f\<lparr>form_pending := None, preview := Some (t, stages), reviewed := True, submit_enabled := True,
             submit_label := js ''Open room '' @ [0x2192]\<rparr>, [])
      | _ \<Rightarrow> (f, []))"

definition form_created :: "jsstring \<Rightarrow> room_form \<Rightarrow> form_result" where
  "form_created i f =
     (case form_pending f of
        Some (CreatingRoom t) \<Rightarrow> (f\<lparr>form_pending := None\<rparr>, [OpenRoom i])
      | _ \<Rightarrow> (f, []))"

definition form_failed :: "jsstring \<Rightarrow> room_form \<Rightarrow> form_result" where
  "form_failed msg f =
     (if form_pending f = None then (f, [])
      else (f\<lparr>form_pending := None, form_error := msg, submit_enabled := True,
              submit_label := js ''Create room '' @ [0x2192]\<rparr>, []))"

text \<open>The chip of an agent adds its mention on a line of its own. The chip of an agent that is not ready is
  disabled.\<close>

definition agent_chip :: "jsstring \<Rightarrow> room_form \<Rightarrow> room_form" where
  "agent_chip a f =
     (if \<not> list_ex (\<lambda>g. agent_id g = a \<and> agent_ready g) (chips f) then f
      else let t = request_text f; break = (if t \<noteq> [] \<and> last t \<noteq> 10 then [10] else []) in
      resetPreview (f\<lparr>request_text := t @ break @ js ''@'' @ a @ js '' ''\<rparr>))"

text \<open>\<open>populateWorkflowComposer\<close>: the chips are built anew with a button behind them, the projects are appended
  to the options, and the first project becomes the directory; no \<open>input\<close> event tells the form.\<close>

definition populateWorkflowComposer :: "local_agent list \<Rightarrow> jsstring list \<Rightarrow> room_form \<Rightarrow> room_form" where
  "populateWorkflowComposer agents projects f =
     f\<lparr>chips := agents, refresh_button := RefreshReady, known_projects := projects,
       project_options := project_options f @ projects,
       cwd_text := (case projects of [] \<Rightarrow> cwd_text f | p # _ \<Rightarrow> p)\<rparr>"

definition refresh_press :: "room_form \<Rightarrow> form_result" where
  "refresh_press f =
     (if refresh_button f \<in> {RefreshReady, RefreshFailed} then (f\<lparr>refresh_button := RefreshChecking\<rparr>, [RefreshRequest])
      else (f, []))"

definition agents_refreshed :: "local_agent list option \<Rightarrow> room_form \<Rightarrow> room_form" where
  "agents_refreshed answer f =
     (if refresh_button f \<noteq> RefreshChecking then f
      else case answer of
             Some agents \<Rightarrow> populateWorkflowComposer agents (known_projects f) f
           | None \<Rightarrow> f\<lparr>refresh_button := RefreshFailed\<rparr>)"

text \<open>The answers of the page's first three requests, together. A failure disables every control of the form;
  one that looks like an old service also makes the next visit start with the sessions.\<close>

definition compatibility_failure :: "jsstring \<Rightarrow> bool" where
  "compatibility_failure msg \<longleftrightarrow>
     msg = js ''API route is not allowed'' \<or> has_substring (js ''updated local Termlinks service'') msg \<or>
     has_substring (js ''invalid response'') msg"

definition list_failed :: "jsstring \<Rightarrow> room_form \<Rightarrow> form_result" where
  "list_failed msg f =
     (if \<not> list_loading f then (f, [])
      else (f\<lparr>list_loading := False, chips := [], inputs_enabled := False, submit_enabled := False\<rparr>,
            if compatibility_failure msg then [ForgetView] else []))"

definition list_loaded :: "local_agent list \<Rightarrow> jsstring list \<Rightarrow> room_form \<Rightarrow> room_form" where
  "list_loaded agents projects f =
     (if \<not> list_loading f then f else (populateWorkflowComposer agents projects f)\<lparr>list_loading := False\<rparr>)"

text \<open>The title, the text and the detail shown in place of the rooms.\<close>

definition list_error :: "jsstring \<Rightarrow> jsstring \<times> jsstring \<times> jsstring option" where
  "list_error msg =
     (if compatibility_failure msg then
        (js ''AI Work needs a local restart'',
         js ''Your terminals are safe. The website is newer than the Termlinks service currently running on this computer. Return to terminals now; restart Termlinks only after you have finished or stopped the active sessions.'',
         Some (js ''Technical detail: '' @ msg))
      else (js ''Could not load AI Work'', msg, None))"

datatype form_event =
    TypeRequest jsstring | TypeDirectory jsstring | AgentChip jsstring | SubmitRoom
  | Compiled "stage list" | RoomCreated jsstring | FormFails jsstring
  | ListLoaded "local_agent list" "jsstring list" | ListFails jsstring
  | RefreshPress | AgentsRefreshed "local_agent list option"

fun form_step :: "room_form \<Rightarrow> form_event \<Rightarrow> form_result" where
  "form_step f (TypeRequest t) = (if inputs_enabled f then resetPreview (f\<lparr>request_text := t\<rparr>) else f, [])"
| "form_step f (TypeDirectory t) = (if inputs_enabled f then resetPreview (f\<lparr>cwd_text := t\<rparr>) else f, [])"
| "form_step f (AgentChip a) = (agent_chip a f, [])"
| "form_step f SubmitRoom = form_submit f"
| "form_step f (Compiled stages) = form_compiled stages f"
| "form_step f (RoomCreated i) = form_created i f"
| "form_step f (FormFails msg) = form_failed msg f"
| "form_step f (ListLoaded agents projects) = (list_loaded agents projects f, [])"
| "form_step f (ListFails msg) = list_failed msg f"
| "form_step f RefreshPress = refresh_press f"
| "form_step f (AgentsRefreshed answer) = (agents_refreshed answer f, [])"

section \<open>Participants and messages\<close>

definition stage_viewer :: "session list \<Rightarrow> stage \<Rightarrow> session option" where
  "stage_viewer ss s = (case stg_session s of None \<Rightarrow> None | Some i \<Rightarrow> find (\<lambda>x. ses_id x = i) ss)"

text \<open>The button that shows or hides the terminal on the computer.\<close>

record desktop_button =
  db_session :: jsstring
  db_hides :: bool
  db_text :: jsstring
  db_disabled :: bool

record participant =
  pt_agent :: jsstring
  pt_presence :: jsstring
  pt_terminal :: "jsstring option"            \<comment> \<open>the terminal button, if it is enabled\<close>
  pt_desktop :: "desktop_button option"

definition viewer_shown :: "session option \<Rightarrow> bool" where
  "viewer_shown s \<longleftrightarrow> map_option viewer s \<in> {Some (Some ViewerVisible), Some (Some ViewerOpening)}"

definition is_enabled_session :: "jsstring option \<Rightarrow> jsstring option" where
  "is_enabled_session i = (if i = Some [] then None else i)"

definition participant_card :: "session list \<Rightarrow> workflow \<Rightarrow> jsstring \<Rightarrow> participant" where
  "participant_card ss w a =
     (let s = latestAgentStage w a; i = (case s of Some x \<Rightarrow> is_enabled_session (stg_session x) | None \<Rightarrow> None);
          live = (case s of Some x \<Rightarrow> stage_viewer ss x | None \<Rightarrow> None)
      in \<lparr>pt_agent = a, pt_presence = agentPresence s, pt_terminal = i,
          pt_desktop = (if i = None then None
             else Some \<lparr>db_session = the i, db_hides = viewer_shown live,
                         db_text = (if viewer_shown live then js ''Hide'' else js ''Show''),
                         db_disabled = (case live of None \<Rightarrow> True
                           | Some x \<Rightarrow> \<not> running x \<or> viewer x = Some ViewerUnsupported)\<rparr>)\<rparr>)"

definition viewer_text :: "viewer option \<Rightarrow> jsstring" where
  "viewer_text v =
     (case v of
        None \<Rightarrow> []
      | Some ViewerHidden \<Rightarrow> js ''hidden''
      | Some ViewerOpening \<Rightarrow> js ''opening''
      | Some ViewerVisible \<Rightarrow> js ''visible''
      | Some ViewerUnsupported \<Rightarrow> js ''unsupported'')"

definition session_text :: "stage \<Rightarrow> jsstring" where
  "session_text s = (case stg_session s of Some i \<Rightarrow> i | None \<Rightarrow> [])"

definition participants_signature :: "session list \<Rightarrow> workflow \<Rightarrow> jsstring" where
  "participants_signature ss w =
     join (js ''|'') (map (\<lambda>s. stg_id s @ js '':'' @ stg_status s @ js '':'' @ session_text s @ js '':'' @
       viewer_text (case stage_viewer ss s of Some x \<Rightarrow> viewer x | None \<Rightarrow> None)) (wf_stages w))"

text \<open>\<open>panel_generation\<close> tells the buttons of one build from those of the next.\<close>

record panel =
  panel_sig :: "jsstring option"
  panel_cards :: "participant list"
  panel_generation :: nat

definition renderTeamParticipants :: "session list \<Rightarrow> workflow \<Rightarrow> panel \<Rightarrow> panel" where
  "renderTeamParticipants ss w p =
     (if panel_sig p = Some (participants_signature ss w) then p
      else \<lparr>panel_sig = Some (participants_signature ss w),
             panel_cards = map (participant_card ss w) (workflowAgentIDs w), panel_generation = panel_generation p + 1\<rparr>)"

definition new_panel :: panel where
  "new_panel = \<lparr>panel_sig = None, panel_cards = [], panel_generation = 0\<rparr>"

definition desktop_of :: "jsstring \<Rightarrow> panel \<Rightarrow> desktop_button option" where
  "desktop_of a p = (case find (\<lambda>c. pt_agent c = a) (panel_cards p) of Some c \<Rightarrow> pt_desktop c | None \<Rightarrow> None)"

definition change_desktop :: "jsstring \<Rightarrow> (desktop_button \<Rightarrow> desktop_button) \<Rightarrow> panel \<Rightarrow> panel" where
  "change_desktop a f p =
     p\<lparr>panel_cards := map (\<lambda>c. if pt_agent c = a then c\<lparr>pt_desktop := map_option f (pt_desktop c)\<rparr> else c) (panel_cards p)\<rparr>"

text \<open>A card in the list of rooms; without messages the room counts one.\<close>

record room_card =
  card_title :: jsstring
  card_status :: jsstring
  card_avatars :: "(jsstring \<times> jsstring) list"
  card_preview :: jsstring
  card_meta :: jsstring

definition workflow_card :: "(jsstring \<Rightarrow> jsstring) \<Rightarrow> workflow \<Rightarrow> room_card" where
  "workflow_card upper w =
     \<lparr>card_title = wf_request w, card_status = roomStatusLabel upper w,
       card_avatars = map (\<lambda>a. (case latestAgentStage w a of
           Some s \<Rightarrow> if stg_status s = [] then js ''queued'' else stg_status s
         | None \<Rightarrow> js ''queued'', agentInitials upper a)) (workflowAgentIDs w),
       card_preview = (case wf_last w of
           Some m \<Rightarrow> messageSenderLabel m @ js '': '' @ singleLine (msg_body m) | None \<Rightarrow> js ''Room created''),
       card_meta = nat_text (if wf_count w = 0 then 1 else wf_count w) @ js '' messages'' @ mid_dot @ compactPath (wf_cwd w)\<rparr>"

text \<open>The rooms, or the texts of an empty list.\<close>

definition renderWorkflowCards :: "(jsstring \<Rightarrow> jsstring) \<Rightarrow> workflow list \<Rightarrow> (jsstring \<times> jsstring) + room_card list" where
  "renderWorkflowCards upper ws =
     (if ws = [] then
        Inl (js ''No team rooms yet'',
          js ''Start a private room above. Agent terminals stay headless until you choose to open one.'')
      else Inr (map (workflow_card upper) ws))"

datatype feed_item =
    SystemLine jsstring
  | Bubble room_message jsstring "jsstring option" "jsstring option"
      \<comment> \<open>sender, the line about the message replied to, the terminal to view\<close>

definition reply_line :: "room_message list \<Rightarrow> room_message \<Rightarrow> jsstring option" where
  "reply_line ms m =
     (case msg_reply m of
        None \<Rightarrow> None
      | Some i \<Rightarrow>
          if i = 0 then None
          else map_option (\<lambda>parent. js ''Replying to '' @ messageSenderLabel parent @ mid_dot @ singleLine (msg_body parent))
                 (find (\<lambda>x. msg_id x = i) (rev ms)))"

definition feed_item_of :: "workflow \<Rightarrow> room_message list \<Rightarrow> room_message \<Rightarrow> feed_item" where
  "feed_item_of w ms m =
     (if msg_sender_type m = FromSystem then SystemLine (msg_body m)
      else Bubble m (messageSenderLabel m) (reply_line ms m)
        (case find (\<lambda>s. Some (stg_id s) = msg_stage m) (wf_stages w) of
           Some s \<Rightarrow> is_enabled_session (stg_session s)
         | None \<Rightarrow> None))"

definition feed_signature :: "workflow \<Rightarrow> jsstring" where
  "feed_signature w =
     (let ms = (case wf_messages w of Some ms \<Rightarrow> ms | None \<Rightarrow> []) in
      nat_text (length ms) @ js '':'' @ nat_text (if ms = [] then 0 else msg_id (last ms)) @ js '':'' @
      join (js ''|'') (map (\<lambda>s. stg_id s @ js '':'' @ session_text s) (wf_stages w)))"

text \<open>The feed shows a note, or the messages.\<close>

record feed =
  feed_sig :: "jsstring option"
  feed_note :: "jsstring option"
  feed_items :: "feed_item list"

definition new_feed :: feed where
  "new_feed = \<lparr>feed_sig = None, feed_note = Some (js ''Loading the local team room'' @ ellipsis), feed_items = []\<rparr>"

fun is_bubble :: "feed_item \<Rightarrow> bool" where
  "is_bubble (Bubble _ _ _ _) = True"
| "is_bubble (SystemLine _) = False"

text \<open>The feed is built anew only when the signature has changed; the page follows the end if the feed had no
  message yet, or the end was in sight.\<close>

definition renderTeamMessages :: "bool \<Rightarrow> workflow \<Rightarrow> feed \<Rightarrow> feed \<times> bool" where
  "renderTeamMessages nearBottom w f =
     (let ms = (case wf_messages w of Some ms \<Rightarrow> ms | None \<Rightarrow> []) in
      if feed_sig f = Some (feed_signature w) then (f, False)
      else if ms = [] then
        (\<lparr>feed_sig = Some (feed_signature w), feed_note = Some (js ''The room is ready. Messages will appear here.''),
          feed_items = []\<rparr>, False)
      else
        (\<lparr>feed_sig = Some (feed_signature w), feed_note = None, feed_items = map (feed_item_of w ms) ms\<rparr>,
         \<not> list_ex is_bubble (feed_items f) \<or> nearBottom))"

definition feed_failed :: "jsstring \<Rightarrow> feed \<Rightarrow> feed" where
  "feed_failed msg f = f\<lparr>feed_note := Some msg, feed_items := []\<rparr>"

section \<open>The page of a room\<close>

text \<open>What \<open>refresh\<close> of \<open>renderWorkflowDetail\<close> keeps up to date. The button of a participant that shows or hides
  its terminal disables itself and asks the daemon; after the answer the room is refreshed, after a failure
  the button shows the message.\<close>

record team_room =
  tr_title :: "jsstring \<times> jsstring"
  tr_status :: jsstring
  tr_panel :: panel
  tr_feed :: feed
  tr_targets :: "jsstring list option"         \<comment> \<open>the chips of the composer, once there is one\<close>

text \<open>The composer is made once, for the agents the room has then.\<close>

definition team_targets :: "workflow \<Rightarrow> jsstring list" where
  "team_targets w = js ''team'' # workflowAgentIDs w"

datatype room_out = ViewerRequest nat jsstring jsstring bool | RefreshAfterViewer | FollowEnd

type_synonym room_result = "team_room \<times> room_out list"

definition new_room :: team_room where
  "new_room = \<lparr>tr_title = (js ''Team room'', js ''Loading local conversation'' @ ellipsis), tr_status = js ''CONNECTING'',
     tr_panel = new_panel, tr_feed = new_feed, tr_targets = None\<rparr>"

definition room_loaded :: "(jsstring \<Rightarrow> jsstring) \<Rightarrow> bool \<Rightarrow> session list \<Rightarrow> workflow \<Rightarrow> team_room \<Rightarrow> room_result" where
  "room_loaded upper nearBottom ss w r =
     (let (f, follow) = renderTeamMessages nearBottom w (tr_feed r) in
      (\<lparr>tr_title = (roomTitle (wf_request w), compactPath (wf_cwd w)), tr_status = roomStatusLabel upper w,
        tr_panel = renderTeamParticipants ss w (tr_panel r), tr_feed = f,
        tr_targets = Some (case tr_targets r of Some ts \<Rightarrow> ts | None \<Rightarrow> team_targets w)\<rparr>,
       if follow then [FollowEnd] else []))"

definition desktop_press :: "jsstring \<Rightarrow> team_room \<Rightarrow> room_result" where
  "desktop_press a r =
     (case desktop_of a (tr_panel r) of
        None \<Rightarrow> (r, [])
      | Some b \<Rightarrow>
          if db_disabled b then (r, [])
          else (r\<lparr>tr_panel := change_desktop a (\<lambda>b. b\<lparr>db_disabled := True\<rparr>) (tr_panel r)\<rparr>,
                [ViewerRequest (panel_generation (tr_panel r)) a (db_session b) (db_hides b)]))"

definition desktop_fails :: "nat \<Rightarrow> jsstring \<Rightarrow> jsstring \<Rightarrow> team_room \<Rightarrow> team_room" where
  "desktop_fails g a msg r =
     (if g \<noteq> panel_generation (tr_panel r) then r
      else r\<lparr>tr_panel := change_desktop a (\<lambda>b. b\<lparr>db_text := msg\<rparr>) (tr_panel r)\<rparr>)"

datatype room_event =
    RoomLoaded bool "session list" workflow | RoomFails jsstring
  | DesktopPress jsstring | DesktopAnswered | DesktopFails nat jsstring jsstring

fun room_step :: "(jsstring \<Rightarrow> jsstring) \<Rightarrow> team_room \<Rightarrow> room_event \<Rightarrow> room_result" where
  "room_step upper r (RoomLoaded nearBottom ss w) = room_loaded upper nearBottom ss w r"
| "room_step upper r (RoomFails msg) = (r\<lparr>tr_feed := feed_failed msg (tr_feed r)\<rparr>, [])"
| "room_step upper r (DesktopPress a) = desktop_press a r"
| "room_step upper r DesktopAnswered = (r, [RefreshAfterViewer])"
| "room_step upper r (DesktopFails g a msg) = (desktop_fails g a msg r, [])"

section \<open>The composer of a room\<close>

record team_composer =
  send_to :: jsstring
  reply_to :: nat                              \<comment> \<open>0 for none\<close>
  reply_shown :: "(jsstring \<times> jsstring) option"
  message_text :: jsstring
  send_enabled :: bool
  in_flight :: nat                             \<comment> \<open>requests under way\<close>
  composer_error :: jsstring

datatype team_out = PostMessage jsstring jsstring "nat option" | RefreshRoom

type_synonym team_result = "team_composer \<times> team_out list"

definition new_composer :: team_composer where
  "new_composer = \<lparr>send_to = js ''team'', reply_to = 0, reply_shown = None, message_text = [], send_enabled = True,
     in_flight = 0, composer_error = []\<rparr>"

definition selectTeamTarget :: "jsstring \<Rightarrow> team_composer \<Rightarrow> team_composer" where
  "selectTeamTarget r c = c\<lparr>send_to := r\<rparr>"

definition setTeamComposerReply :: "room_message \<Rightarrow> team_composer \<Rightarrow> team_composer" where
  "setTeamComposerReply m c =
     (let r = (if msg_sender_type m = FromAgent then msg_sender m else msg_recipient m) in
      (selectTeamTarget (if r = js ''human'' then js ''team'' else r) (c\<lparr>reply_to := msg_id m\<rparr>))
        \<lparr>reply_shown := Some (messageSenderLabel m, singleLine (msg_body m))\<rparr>)"

definition cancel_reply :: "team_composer \<Rightarrow> team_composer" where
  "cancel_reply c = (selectTeamTarget (js ''team'') (c\<lparr>reply_to := 0\<rparr>))\<lparr>reply_shown := None\<rparr>"

text \<open>The \<open>submit\<close> handler. \<open>requestSubmit\<close> of the keyboard shortcut calls it whatever the button says.\<close>

definition message_submit :: "team_composer \<Rightarrow> team_result" where
  "message_submit c =
     (let body = trim (message_text c) in
      if body = [] then (c, [])
      else
        (c\<lparr>send_enabled := False, composer_error := [], in_flight := in_flight c + 1\<rparr>,
         [PostMessage body (if send_to c = [] then js ''team'' else send_to c) (if reply_to c = 0 then None else Some (reply_to c))]))"

definition message_sent :: "team_composer \<Rightarrow> team_result" where
  "message_sent c =
     (if in_flight c = 0 then (c, [])
      else (c\<lparr>in_flight := in_flight c - 1, message_text := [], reply_to := 0, reply_shown := None\<rparr>, [RefreshRoom]))"

definition message_failed :: "jsstring \<Rightarrow> team_composer \<Rightarrow> team_result" where
  "message_failed msg c =
     (if in_flight c = 0 then (c, [])
      else (c\<lparr>in_flight := in_flight c - 1, composer_error := msg, send_enabled := True\<rparr>, []))"

datatype team_event =
    ChooseTarget jsstring | ReplyTo room_message | CancelReply | TypeMessage jsstring
  | SendButton | SendKeys | MessageSent | MessageFails jsstring | RoomRefreshed

fun team_step :: "team_composer \<Rightarrow> team_event \<Rightarrow> team_result" where
  "team_step c (ChooseTarget r) = (selectTeamTarget r c, [])"
| "team_step c (ReplyTo m) = (setTeamComposerReply m c, [])"
| "team_step c CancelReply = (cancel_reply c, [])"
| "team_step c (TypeMessage t) = (c\<lparr>message_text := t\<rparr>, [])"
| "team_step c SendButton = (if send_enabled c then message_submit c else (c, []))"
| "team_step c SendKeys = message_submit c"
| "team_step c MessageSent = message_sent c"
| "team_step c (MessageFails msg) = message_failed msg c"
| "team_step c RoomRefreshed = (c\<lparr>send_enabled := True\<rparr>, [])"

section \<open>Polling\<close>

text \<open>The interval of the page is \<open>state.polling\<close>; an interval runs until its handle is cleared. A page of
  the list or of a room is known by its number, so that \<open>document.body.contains\<close> can be asked.\<close>

datatype job = PollSessions | PollCards nat | PollRoom nat

datatype shown_page = HomePage | ListPage nat | RoomPage nat | BarePage

datatype fetch = LoadCards nat | RefreshCardsOf nat | RefreshRoomOf nat

record pollers =
  open_page :: shown_page
  handle :: "nat option"
  intervals :: "(nat \<times> job) list"
  next_handle :: nat
  next_page :: nat
  fetches :: "(nat \<times> fetch) list"
  next_fetch :: nat

datatype poll_out = Fetch nat fetch | RefreshSessionList

type_synonym poll_result = "pollers \<times> poll_out list"

definition clear_polling :: "pollers \<Rightarrow> pollers" where
  "clear_polling s =
     (case handle s of
        Some h \<Rightarrow> s\<lparr>intervals := filter (\<lambda>(k, _). k \<noteq> h) (intervals s), handle := None\<rparr>
      | None \<Rightarrow> s)"

text \<open>\<open>state.polling = window.setInterval(...)\<close>.\<close>

definition set_polling :: "job \<Rightarrow> pollers \<Rightarrow> pollers" where
  "set_polling j s =
     s\<lparr>intervals := intervals s @ [(next_handle s, j)], handle := Some (next_handle s), next_handle := next_handle s + 1\<rparr>"

definition start_fetch :: "fetch \<Rightarrow> pollers \<Rightarrow> poll_result" where
  "start_fetch f s =
     (s\<lparr>fetches := fetches s @ [(next_fetch s, f)], next_fetch := next_fetch s + 1\<rparr>, [Fetch (next_fetch s) f])"

definition go_home :: "pollers \<Rightarrow> poll_result" where
  "go_home s = (set_polling PollSessions (clear_polling (s\<lparr>open_page := HomePage\<rparr>)), [])"

definition go_bare :: "pollers \<Rightarrow> poll_result" where
  "go_bare s = ((clear_polling s)\<lparr>open_page := BarePage\<rparr>, [])"

definition go_list :: "pollers \<Rightarrow> poll_result" where
  "go_list s =
     (let n = next_page s in
      start_fetch (LoadCards n) ((clear_polling s)\<lparr>open_page := ListPage n, next_page := n + 1\<rparr>))"

definition go_room :: "pollers \<Rightarrow> poll_result" where
  "go_room s =
     (let n = next_page s in
      start_fetch (RefreshRoomOf n) ((clear_polling s)\<lparr>open_page := RoomPage n, next_page := n + 1\<rparr>))"

text \<open>One turn of an interval. The two pages of AI Work look first whether they are still shown.\<close>

definition interval_fires :: "nat \<Rightarrow> pollers \<Rightarrow> poll_result" where
  "interval_fires h s =
     (case map_of (intervals s) h of
        None \<Rightarrow> (s, [])
      | Some PollSessions \<Rightarrow> (s, [RefreshSessionList])
      | Some (PollCards n) \<Rightarrow> if open_page s = ListPage n then start_fetch (RefreshCardsOf n) s else (clear_polling s, [])
      | Some (PollRoom n) \<Rightarrow> if open_page s = RoomPage n then start_fetch (RefreshRoomOf n) s else (clear_polling s, []))"

text \<open>The answers: \<open>Some active\<close> says whether a workflow is queued or running, \<open>None\<close> is a failure.\<close>

definition fetch_answered :: "nat \<Rightarrow> bool option \<Rightarrow> pollers \<Rightarrow> poll_result" where
  "fetch_answered k r s =
     (let s1 = s\<lparr>fetches := filter (\<lambda>(i, _). i \<noteq> k) (fetches s)\<rparr> in
      case (map_of (fetches s) k, r) of
        (None, _) \<Rightarrow> (s, [])
      | (Some (LoadCards n), Some active) \<Rightarrow> (if active then set_polling (PollCards n) s1 else s1, [])
      | (Some (LoadCards n), None) \<Rightarrow> (s1, [])
      | (Some (RefreshCardsOf n), Some active) \<Rightarrow> (if active then s1 else clear_polling s1, [])
      | (Some (RefreshCardsOf n), None) \<Rightarrow> (s1, [])
      | (Some (RefreshRoomOf n), Some active) \<Rightarrow>
          (if active \<and> handle s1 = None then set_polling (PollRoom n) s1
           else if \<not> active then clear_polling s1 else s1, [])
      | (Some (RefreshRoomOf n), None) \<Rightarrow> (clear_polling s1, []))"

text \<open>The composer and the buttons of a room refresh it as the interval does.\<close>

definition room_refresh :: "nat \<Rightarrow> pollers \<Rightarrow> poll_result" where
  "room_refresh n s =
     (if open_page s = RoomPage n then start_fetch (RefreshRoomOf n) s else (clear_polling s, []))"

datatype poll_event = GoHome | GoList | GoRoom | GoBare | IntervalFires nat | FetchAnswered nat "bool option" | RoomRefresh nat

fun poll_step :: "pollers \<Rightarrow> poll_event \<Rightarrow> poll_result" where
  "poll_step s GoHome = go_home s"
| "poll_step s GoList = go_list s"
| "poll_step s GoRoom = go_room s"
| "poll_step s GoBare = go_bare s"
| "poll_step s (IntervalFires h) = interval_fires h s"
| "poll_step s (FetchAnswered k r) = fetch_answered k r s"
| "poll_step s (RoomRefresh n) = room_refresh n s"

definition no_pollers :: pollers where
  "no_pollers = \<lparr>open_page = BarePage, handle = None, intervals = [], next_handle = 1, next_page = 0, fetches = [], next_fetch = 0\<rparr>"

end
