(* ===== verification/TeamRoomSafety.thy ===== *)
theory TeamRoomSafety
  imports TeamRoom PortalSafety
begin

text \<open>
  Properties of AI Work: the bounds of the labels, when a room asks for its user, what the review of a room
  is worth, what is lost or sent twice while a message is on its way, and the intervals of the pages.
\<close>

section \<open>Labels\<close>

lemma length_collapse_space: "length (collapse_space s) \<le> length s"
  by (induction s rule: collapse_space.induct) (auto intro: le_trans [OF _ length_dropWhile_le])

lemma collapse_space_spaces: "c \<in> set (collapse_space s) \<Longrightarrow> is_space c \<Longrightarrow> c = 32"
  by (induction s rule: collapse_space.induct) (auto split: if_splits)

lemma set_trim: "set (trim s) \<subseteq> set s"
  unfolding trim_def trim_end_def trim_start_def by (auto dest!: set_dropWhileD)

lemma ellipsis_facts [simp]: "length ellipsis = 1" "c \<in> set ellipsis \<Longrightarrow> \<not> is_space c"
  by (auto simp: ellipsis_def is_space_def)

lemma singleLine_spaces: "c \<in> set (singleLine v) \<Longrightarrow> is_space c \<Longrightarrow> c = 32"
  using set_trim [of "collapse_space v"] set_slice_subset [of "trim (collapse_space v)" 0 107] collapse_space_spaces
  by (auto simp: singleLine_def Let_def split: if_splits)

text \<open>The labels of a room are short single lines: whatever a request or a message contains, the line shown
  has at most 110 code units and no white space but blanks, and the title of a room has at most 54 and is
  never empty.\<close>

theorem room_labels_bounded:
  "length (singleLine v) \<le> 110 \<and> set (singleLine v) \<inter> Collect is_space \<subseteq> {32} \<and>
   length (roomTitle r) \<le> 54 \<and> roomTitle r \<noteq> [] \<and> set (roomTitle r) \<inter> Collect is_space \<subseteq> {32}"
proof (intro conjI)
  show "length (singleLine v) \<le> 110"
    by (simp add: singleLine_def Let_def)
  show "set (singleLine v) \<inter> Collect is_space \<subseteq> {32}"
    using singleLine_spaces by auto
  show "length (roomTitle r) \<le> 54" "roomTitle r \<noteq> []"
    by (simp_all add: roomTitle_def Let_def ellipsis_def)
  have "c = 32" if "c \<in> set (js ''AI team room'')" "is_space c" for c
    using that by (auto simp: js_def is_space_def)
  then show "set (roomTitle r) \<inter> Collect is_space \<subseteq> {32}"
    using singleLine_spaces set_slice_subset [of "singleLine (trim (strip_mentions r))" 0 51]
    by (auto simp: roomTitle_def Let_def split: if_splits)
qed

section \<open>When a room needs its user\<close>

lemma latest_id_snoc: "latest_id P (ms @ [m]) = (if P m then msg_id m else latest_id P ms)"
  by (simp add: latest_id_def)

lemma latest_id_bound: "(\<And>x. x \<in> set ms \<Longrightarrow> msg_id x < n) \<Longrightarrow> 0 < n \<Longrightarrow> latest_id P ms < n"
  by (auto simp: latest_id_def find_Some_iff split: option.split) (metis nth_mem set_rev length_rev)

text \<open>A question is open if no message of the user follows it.\<close>

definition open_question :: "room_message list \<Rightarrow> bool" where
  "open_question ms \<longleftrightarrow>
     (\<exists>pre m post. ms = pre @ m # post \<and> asks_human m \<and> \<not> from_human m \<and> (\<forall>x\<in>set post. \<not> from_human x))"

lemma open_question_snoc:
  "open_question (ms @ [m]) \<longleftrightarrow> \<not> from_human m \<and> (asks_human m \<or> open_question ms)"
proof
  assume "open_question (ms @ [m])"
  then obtain pre q post where q: "ms @ [m] = pre @ q # post" "asks_human q" "\<not> from_human q" "\<forall>x\<in>set post. \<not> from_human x"
    unfolding open_question_def by blast
  show "\<not> from_human m \<and> (asks_human m \<or> open_question ms)"
  proof (cases post rule: rev_cases)
    case (snoc post' x)
    then have "ms = pre @ q # post'" "x = m" using q(1) by auto
    then show ?thesis using q snoc by (auto simp: open_question_def)
  qed (use q in auto)
next
  assume a: "\<not> from_human m \<and> (asks_human m \<or> open_question ms)"
  show "open_question (ms @ [m])"
  proof (cases "open_question ms")
    case True
    then obtain pre q post where q: "ms = pre @ q # post" "asks_human q" "\<not> from_human q" "\<forall>x\<in>set post. \<not> from_human x"
      unfolding open_question_def by blast
    then have "ms @ [m] = pre @ q # (post @ [m])" "\<forall>x\<in>set (post @ [m]). \<not> from_human x" using a by auto
    then show ?thesis unfolding open_question_def using q by blast
  next
    case False
    then show ?thesis using a unfolding open_question_def by (metis empty_iff list.set(1))
  qed
qed

lemma latest_ids:
  "sorted_wrt (\<lambda>x y. msg_id x < msg_id y) ms \<Longrightarrow> (\<And>x. x \<in> set ms \<Longrightarrow> 0 < msg_id x) \<Longrightarrow>
   latest_id from_human ms < latest_id asks_human ms \<longleftrightarrow> open_question ms"
proof (induction ms rule: rev_induct)
  case (snoc m ms)
  have b: "latest_id P ms < msg_id m" for P
    using snoc.prems by (intro latest_id_bound) (auto simp: sorted_wrt_append)
  have "latest_id from_human ms < latest_id asks_human ms \<longleftrightarrow> open_question ms"
    using snoc by (auto simp: sorted_wrt_append)
  then show ?case
    using b [of from_human] b [of asks_human]
    by (auto simp: latest_id_snoc open_question_snoc)
qed (simp add: latest_id_def open_question_def)

text \<open>A room says that it needs its user exactly when it does: when an agent has put a question to the human,
  with a question mark, and no message of the human follows it.\<close>

theorem needs_you_exactly:
  assumes "sorted_wrt (\<lambda>x y. msg_id x < msg_id y) (room_messages w)" "\<forall>m\<in>set (room_messages w). 0 < msg_id m"
    and "upper (wf_status w) \<noteq> js ''NEEDS YOU''"
  shows "roomStatusLabel upper w = js ''NEEDS YOU'' \<longleftrightarrow> open_question (room_messages w)"
  using latest_ids [OF assms(1)] assms(2,3) by (auto simp: roomStatusLabel_def Let_def)

section \<open>The review of a room\<close>

text \<open>The events that change the texts: those of the user, which the form notices, and the answers that write the
  first project into the directory, which it does not. A run is quiet if none of them happens while a review
  is on its way, and none of the unnoticed ones while a review is shown.\<close>

fun edits :: "form_event \<Rightarrow> bool" where
  "edits (TypeRequest _) = True"
| "edits (TypeDirectory _) = True"
| "edits (AgentChip _) = True"
| "edits _ = False"

fun overwrites :: "form_event \<Rightarrow> bool" where
  "overwrites (ListLoaded _ _) = True"
| "overwrites (AgentsRefreshed (Some _)) = True"
| "overwrites _ = False"

definition is_compiling :: "room_form \<Rightarrow> bool" where
  "is_compiling f \<longleftrightarrow> (case form_pending f of Some (Compiling _) \<Rightarrow> True | _ \<Rightarrow> False)"

definition quiet_form :: "room_form \<Rightarrow> form_event \<Rightarrow> bool" where
  "quiet_form f e \<longleftrightarrow> \<not> (edits e \<and> is_compiling f) \<and> \<not> (overwrites e \<and> (is_compiling f \<or> reviewed f))"

definition form_sound :: "room_form \<Rightarrow> bool" where
  "form_sound f \<longleftrightarrow>
     (reviewed f \<longrightarrow> (\<exists>st. preview f = Some (sent_texts f, st))) \<and>
     (\<forall>t. form_pending f = Some (Compiling t) \<longrightarrow> t = sent_texts f)"

definition as_shown :: "room_form \<Rightarrow> form_out \<Rightarrow> bool" where
  "as_shown f out \<longleftrightarrow> (case out of CreateRequest t \<Rightarrow> \<exists>stages. preview f = Some (t, stages) | _ \<Rightarrow> True)"

lemmas form_defs = form_sound_def quiet_form_def is_compiling_def sent_texts_def resetPreview_def agent_chip_def form_submit_def
  form_compiled_def form_created_def form_failed_def list_loaded_def list_failed_def refresh_press_def agents_refreshed_def
  populateWorkflowComposer_def Let_def

lemma form_sound_step: "form_sound f \<Longrightarrow> quiet_form f e \<Longrightarrow> form_sound (fst (form_step f e))"
  by (cases e) (auto simp: form_defs split: option.splits pending_form.splits)

lemma form_starts_as_shown: "form_sound f \<Longrightarrow> out \<in> set (snd (form_step f e)) \<Longrightarrow> as_shown f out"
  by (cases e) (auto simp: form_defs as_shown_def split: option.splits pending_form.splits if_splits)

interpretation review: guarded_outputs form_step form_sound quiet_form as_shown
  by unfold_locales (auto intro: form_sound_step form_starts_as_shown simp del: form_step.simps)

text \<open>C31. A room is started as it was reviewed: if the texts are left alone while a review is on its way, and no answer
  writes a directory into a reviewed form, every request to create a room carries the very texts whose stages
  the form shows at that moment.\<close>

theorem reviewed_room_is_started:
  assumes "guarded form_step quiet_form new_form es" "CreateRequest t \<in> set (snd (run_steps form_step new_form es))"
  shows "\<exists>pre post stages. es = pre @ SubmitRoom # post \<and> preview (fst (run_steps form_step new_form pre)) = Some (t, stages)"
proof -
  have "form_sound new_form" by (simp add: form_sound_def new_form_def)
  then obtain pre e post where r: "es = pre @ e # post"
    "CreateRequest t \<in> set (snd (form_step (fst (run_steps form_step new_form pre)) e))"
    "as_shown (fst (run_steps form_step new_form pre)) (CreateRequest t)"
    using review.run_good [OF _ assms] by blast
  have "e = SubmitRoom" using r(2) by (cases e) (auto simp: form_defs split: option.splits pending_form.splits if_splits)
  then show ?thesis using r by (auto simp: as_shown_def)
qed

text \<open>C32. The refresh of the agents changes a reviewed form behind its back: its answer puts the first project in place
  of the directory, the form stays reviewed and goes on showing the stages of the old directory, and the next
  submission creates the room in the new one.\<close>

theorem refresh_changes_reviewed_directory:
  assumes "reviewed f" "submit_enabled f" "refresh_button f = RefreshReady" "known_projects f = p # ps"
    and "preview f = Some (sent_texts f, stages)"
  shows "let r = run_steps form_step f [RefreshPress, AgentsRefreshed (Some agents), SubmitRoom] in
    snd r = [RefreshRequest, CreateRequest (trim (request_text f), trim p)] \<and>
    preview (fst r) = Some ((trim (request_text f), trim (cwd_text f)), stages)"
  using assms by (simp add: form_defs)

text \<open>A directory typed before the page's first answers have come is overwritten by them.\<close>

theorem late_answer_overwrites_directory:
  assumes "list_loading f" "inputs_enabled f"
  shows "cwd_text (fst (run_steps form_step f [TypeDirectory d, ListLoaded agents (p # ps)])) = p"
  using assms by (simp add: form_defs)

text \<open>Every refresh appends the same projects to the list of options again.\<close>

theorem refresh_repeats_options:
  assumes "refresh_button f = RefreshReady"
  shows "project_options (fst (run_steps form_step f (concat (replicate n [RefreshPress, AgentsRefreshed (Some agents)])))) =
    project_options f @ concat (replicate n (known_projects f))"
  using assms
proof (induction n arbitrary: f)
  case (Suc n)
  show ?case
    using Suc.prems Suc.IH [of "fst (run_steps form_step f [RefreshPress, AgentsRefreshed (Some agents)])"]
    by (simp add: form_defs)
qed simp

text \<open>A text typed while its review is on its way is started unseen: the answer marks the form as reviewed and
  shows the stages of the old text, and the next submission creates the room from the new one.\<close>

theorem edit_during_review_is_unseen:
  assumes "submit_enabled f" "inputs_enabled f" "\<not> reviewed f" "request_text f = old"
  shows "snd (run_steps form_step f [SubmitRoom, TypeRequest new, Compiled stages, SubmitRoom]) =
      [CompileRequest (trim old, trim (cwd_text f)), CreateRequest (trim new, trim (cwd_text f))] \<and>
    preview (fst (run_steps form_step f [SubmitRoom, TypeRequest new, Compiled stages, SubmitRoom])) =
      Some ((trim old, trim (cwd_text f)), stages)"
  using assms by (simp add: form_submit_def resetPreview_def form_compiled_def sent_texts_def Let_def)

section \<open>The page of a room\<close>

lemma find_agent_map:
  "(\<And>c. pt_agent (g c) = pt_agent c) \<Longrightarrow>
   find (\<lambda>c. pt_agent c = a) (map g cs) = map_option g (find (\<lambda>c. pt_agent c = a) cs)"
  by (induction cs) auto

lemma desktop_of_change:
  "desktop_of a (change_desktop c f p) = (if a = c then map_option f (desktop_of a p) else desktop_of a p)"
proof -
  define g where "g x = (if pt_agent x = c then x\<lparr>pt_desktop := map_option f (pt_desktop x)\<rparr> else x)" for x :: participant
  define found where "found = find (\<lambda>x. pt_agent x = a) (panel_cards p)"
  have "find (\<lambda>x. pt_agent x = a) (map g (panel_cards p)) = map_option g found"
    unfolding found_def by (rule find_agent_map) (simp add: g_def)
  then have left: "desktop_of a (change_desktop c f p) = (case map_option g found of Some x \<Rightarrow> pt_desktop x | None \<Rightarrow> None)"
    by (simp add: desktop_of_def change_desktop_def g_def [abs_def])
  have right: "desktop_of a p = (case found of Some x \<Rightarrow> pt_desktop x | None \<Rightarrow> None)"
    by (simp add: desktop_of_def found_def)
  show ?thesis
  proof (cases found)
    case (Some x)
    then have "pt_agent x = a" by (auto simp: found_def find_Some_iff)
    moreover have "desktop_of a p = pt_desktop x" using Some right by simp
    ultimately show ?thesis using Some by (auto simp: left g_def)
  qed (use left right in auto)
qed

lemma panel_sig_change [simp]: "panel_sig (change_desktop a f p) = panel_sig p"
  by (simp add: change_desktop_def)

lemma room_loaded_parts [simp]:
  "tr_panel (fst (room_loaded upper near ss w r)) = renderTeamParticipants ss w (tr_panel r)"
  "tr_feed (fst (room_loaded upper near ss w r)) = fst (renderTeamMessages near w (tr_feed r))"
  by (simp_all add: room_loaded_def split: prod.split)

definition dead_button :: "jsstring \<Rightarrow> jsstring \<Rightarrow> team_room \<Rightarrow> bool" where
  "dead_button sig a r \<longleftrightarrow>
     panel_sig (tr_panel r) = Some sig \<and> (\<exists>b. desktop_of a (tr_panel r) = Some b \<and> db_disabled b)"

fun same_panel :: "jsstring \<Rightarrow> room_event \<Rightarrow> bool" where
  "same_panel sig (RoomLoaded _ ss w) = (participants_signature ss w = sig)"
| "same_panel sig _ = True"

interpretation panel_button: guarded_machine "room_step upper" "dead_button sig a" "\<lambda>_. same_panel sig" for upper sig a
proof
  show "dead_button sig a (fst (room_step upper r e))" if "dead_button sig a r" "same_panel sig e" for r e
    using that by (cases e) (auto simp: dead_button_def renderTeamParticipants_def desktop_press_def
        desktop_fails_def desktop_of_change split: option.split)
qed

text \<open>The button that shows a terminal on the computer dies with its first press: whether the daemon obeys or fails,
  as long as the refreshes of the room find the same stages, states and viewers the button stays disabled, and
  after a failure nothing can be tried again.\<close>

theorem viewer_button_stays_dead:
  assumes "panel_sig (tr_panel r) = Some sig" "desktop_of a (tr_panel r) = Some b" "\<forall>e\<in>set es. same_panel sig e"
  shows "let r' = fst (run_steps (room_step upper) r (DesktopPress a # es)) in
    (\<exists>b'. desktop_of a (tr_panel r') = Some b' \<and> db_disabled b') \<and> room_step upper r' (DesktopPress a) = (r', [])"
proof -
  have "dead_button sig a (fst (room_step upper r (DesktopPress a)))"
    using assms(1,2) by (auto simp: dead_button_def desktop_press_def desktop_of_change)
  then have "dead_button sig a (fst (run_steps (room_step upper) (fst (room_step upper r (DesktopPress a))) es))"
    using assms(3) by (intro panel_button.run_inv guarded_all) auto
  then show ?thesis by (auto simp: dead_button_def Let_def desktop_press_def simp del: room_step.simps split: option.splits)
     (auto simp: desktop_press_def)
qed

definition stuck_feed :: "jsstring \<Rightarrow> jsstring \<Rightarrow> team_room \<Rightarrow> bool" where
  "stuck_feed sig msg r \<longleftrightarrow> tr_feed r = \<lparr>feed_sig = Some sig, feed_note = Some msg, feed_items = []\<rparr>"

fun same_feed :: "jsstring \<Rightarrow> room_event \<Rightarrow> bool" where
  "same_feed sig (RoomLoaded _ _ w) = (feed_signature w = sig)"
| "same_feed sig (RoomFails _) = False"
| "same_feed sig _ = True"

interpretation error_feed: guarded_machine "room_step upper" "stuck_feed sig msg" "\<lambda>_. same_feed sig" for upper sig msg
proof
  show "stuck_feed sig msg (fst (room_step upper r e))" if "stuck_feed sig msg r" "same_feed sig e" for r e
    using that by (cases e) (auto simp: stuck_feed_def renderTeamMessages_def desktop_press_def
        desktop_fails_def Let_def split: option.split)
qed

text \<open>An error of one refresh outlives it: the message takes the place of the feed, and the refreshes that succeed
  afterwards leave it there until a message or a terminal is added, because the signature was kept.\<close>

theorem feed_error_sticks:
  assumes "feed_sig (tr_feed r) = Some sig" "\<forall>e\<in>set es. same_feed sig e"
  shows "let f = tr_feed (fst (run_steps (room_step upper) r (RoomFails msg # es))) in
    feed_note f = Some msg \<and> feed_items f = []"
proof -
  have "stuck_feed sig msg (fst (room_step upper r (RoomFails msg)))"
    using assms(1) by (simp add: stuck_feed_def feed_failed_def)
  then have "stuck_feed sig msg (fst (run_steps (room_step upper) (fst (room_step upper r (RoomFails msg))) es))"
    using assms(2) by (intro error_feed.run_inv guarded_all) auto
  then show ?thesis by (simp add: stuck_feed_def Let_def del: room_step.simps)
qed

text \<open>A rendered feed is a faithful list of the room: one item for each message, in the order of the daemon, each
  with the text of its message.\<close>

fun item_body :: "feed_item \<Rightarrow> jsstring" where
  "item_body (SystemLine t) = t"
| "item_body (Bubble m _ _ _) = msg_body m"

theorem feed_shows_every_message:
  assumes "wf_messages w = Some ms" "feed_sig (tr_feed r) \<noteq> Some (feed_signature w)"
  shows "map item_body (feed_items (tr_feed (fst (room_step upper r (RoomLoaded nearBottom ss w))))) = map msg_body ms"
  using assms by (auto simp: renderTeamMessages_def feed_item_of_def Let_def)

section \<open>Messages\<close>

text \<open>While a message is on its way the composer is open: the keyboard shortcut sends it a second time, and what
  is typed after it is wiped by the first answer.\<close>

theorem message_in_flight_is_exposed:
  assumes "trim (message_text c) \<noteq> []"
  shows "\<exists>m. snd (run_steps team_step c [SendKeys, SendKeys]) = [m, m] \<and>
    snd (run_steps team_step c [SendKeys, TypeMessage later, MessageSent]) = [m, RefreshRoom] \<and>
    message_text (fst (run_steps team_step c [SendKeys, TypeMessage later, MessageSent])) = []"
  using assms by (simp add: message_submit_def message_sent_def Let_def)

text \<open>An answer reaches the one it replies to: after choosing a message to reply to, the next message goes to the
  agent who wrote it, or to whom a human's message was addressed, with the number of that message; a
  message to the human himself goes to the team.\<close>

theorem reply_goes_to_author:
  assumes "0 < msg_id m" "trim text \<noteq> []" "send_enabled c"
    and "msg_sender m \<noteq> []" "msg_recipient m \<noteq> []"
  shows "snd (run_steps team_step c [ReplyTo m, TypeMessage text, SendButton]) =
    [PostMessage (trim text)
       (if msg_sender_type m = FromAgent \<and> msg_sender m \<noteq> js ''human'' then msg_sender m
        else if msg_sender_type m \<noteq> FromAgent \<and> msg_recipient m \<noteq> js ''human'' then msg_recipient m
        else js ''team'') (Some (msg_id m))]"
  using assms by (simp add: setTeamComposerReply_def selectTeamTarget_def message_submit_def Let_def)

section \<open>Intervals\<close>

text \<open>The interval of a page belongs to it.\<close>

fun job_of_page :: "shown_page \<Rightarrow> job \<Rightarrow> bool" where
  "job_of_page HomePage PollSessions = True"
| "job_of_page (ListPage n) (PollCards m) = (n = m)"
| "job_of_page (RoomPage n) (PollRoom m) = (n = m)"
| "job_of_page _ _ = False"

definition one_interval :: "pollers \<Rightarrow> bool" where
  "one_interval s \<longleftrightarrow>
     (case handle s of None \<Rightarrow> intervals s = [] | Some h \<Rightarrow> \<exists>j. intervals s = [(h, j)] \<and> job_of_page (open_page s) j)"

fun fetch_shown :: "shown_page \<Rightarrow> fetch \<Rightarrow> bool" where
  "fetch_shown p (LoadCards n) = (p = ListPage n)"
| "fetch_shown p (RefreshCardsOf n) = (p = ListPage n)"
| "fetch_shown p (RefreshRoomOf n) = (p = RoomPage n)"

definition fetches_sound :: "pollers \<Rightarrow> bool" where
  "fetches_sound s \<longleftrightarrow>
     (\<forall>k n. (k, LoadCards n) \<in> set (fetches s) \<longrightarrow> n < next_page s) \<and>
     (\<forall>k k' n. (k, LoadCards n) \<in> set (fetches s) \<longrightarrow> (k', LoadCards n) \<in> set (fetches s) \<longrightarrow> k = k')"

definition polls_sound :: "pollers \<Rightarrow> bool" where
  "polls_sound s \<longleftrightarrow>
     one_interval s \<and> fetches_sound s \<and>
     (\<forall>k n. (k, LoadCards n) \<in> set (fetches s) \<longrightarrow> open_page s = ListPage n \<longrightarrow> handle s = None)"

text \<open>Every answer finds its page.\<close>

fun prompt :: "pollers \<Rightarrow> poll_event list \<Rightarrow> bool" where
  "prompt s [] = True"
| "prompt s (e # es) =
     ((case e of FetchAnswered k r \<Rightarrow> (case map_of (fetches s) k of Some f \<Rightarrow> fetch_shown (open_page s) f | None \<Rightarrow> True)
       | RoomRefresh n \<Rightarrow> open_page s = RoomPage n | _ \<Rightarrow> True) \<and> prompt (fst (poll_step s e)) es)"

lemma clear_polling_frame [simp]:
  "fetches (clear_polling s) = fetches s" "next_fetch (clear_polling s) = next_fetch s"
  "next_page (clear_polling s) = next_page s" "open_page (clear_polling s) = open_page s" "handle (clear_polling s) = None"
  by (simp_all add: clear_polling_def split: option.split)

lemma set_polling_frame [simp]:
  "fetches (set_polling j s) = fetches s" "next_fetch (set_polling j s) = next_fetch s"
  "next_page (set_polling j s) = next_page s" "open_page (set_polling j s) = open_page s"
  "handle (set_polling j s) = Some (next_handle s)" "intervals (set_polling j s) = intervals s @ [(next_handle s, j)]"
  by (simp_all add: set_polling_def)

lemma one_interval_clear: "one_interval s \<Longrightarrow> intervals (clear_polling (s\<lparr>open_page := p\<rparr>)) = []"
  by (auto simp: one_interval_def clear_polling_def split: option.splits)

lemma one_interval_clear': "one_interval s \<Longrightarrow> intervals (clear_polling (s\<lparr>fetches := fs\<rparr>)) = []"
  by (auto simp: one_interval_def clear_polling_def split: option.splits)

lemma one_interval_none: "intervals s = [] \<Longrightarrow> handle s = None \<Longrightarrow> one_interval s"
  by (simp add: one_interval_def)

lemma polls_sound_filter: "fetches_sound s \<Longrightarrow> fetches_sound (s\<lparr>fetches := filter P (fetches s)\<rparr>)"
  by (auto simp: fetches_sound_def)

lemma fetches_sound_cong:
  "fetches s' = fetches s \<Longrightarrow> next_page s' = next_page s \<Longrightarrow> fetches_sound s' = fetches_sound s"
  by (simp add: fetches_sound_def)

lemma polls_step_nav:
  assumes "polls_sound s" "e \<in> {GoHome, GoBare, GoList, GoRoom}"
  shows "polls_sound (fst (poll_step s e))"
proof -
  have o: "one_interval s" and f: "fetches_sound s" using assms(1) by (simp_all add: polls_sound_def)
  have c: "intervals (clear_polling (s\<lparr>open_page := p\<rparr>)) = []" "intervals (clear_polling s) = []" for p
    using one_interval_clear [OF o, of p] one_interval_clear [OF o, of "open_page s"] by simp_all
  have old: "(k, LoadCards (next_page s)) \<notin> set (fetches s)" for k
    using f by (auto simp: fetches_sound_def)
  then show ?thesis
    using assms(2) f c
    by (auto simp: polls_sound_def one_interval_def go_home_def go_bare_def go_list_def go_room_def start_fetch_def
        fetches_sound_def Let_def less_SucI)
qed

lemma polls_step_turn:
  assumes "polls_sound s"
  shows "polls_sound (fst (poll_step s (IntervalFires h)))"
    and "open_page s = RoomPage n \<Longrightarrow> polls_sound (fst (poll_step s (RoomRefresh n)))"
proof -
  have s: "one_interval s" "fetches_sound s"
    "\<And>k n. (k, LoadCards n) \<in> set (fetches s) \<Longrightarrow> open_page s = ListPage n \<Longrightarrow> handle s = None"
    using assms by (auto simp: polls_sound_def)
  show "open_page s = RoomPage n \<Longrightarrow> polls_sound (fst (poll_step s (RoomRefresh n)))"
    using s by (auto simp: polls_sound_def room_refresh_def start_fetch_def fetches_sound_def one_interval_def
        split: option.splits)
  show "polls_sound (fst (poll_step s (IntervalFires h)))"
    using s one_interval_clear [OF s(1), of "open_page s"]
    by (auto simp: polls_sound_def interval_fires_def start_fetch_def fetches_sound_def one_interval_def
        split: option.splits job.splits)
qed

lemma polls_step_answer:
  assumes "polls_sound s" "\<And>f. map_of (fetches s) k = Some f \<Longrightarrow> fetch_shown (open_page s) f"
  shows "polls_sound (fst (poll_step s (FetchAnswered k r)))"
proof (cases "map_of (fetches s) k")
  case (Some f)
  define s1 where "s1 = s\<lparr>fetches := filter (\<lambda>(i, _). i \<noteq> k) (fetches s)\<rparr>"
  have s: "one_interval s" "fetches_sound s"
    "\<And>k n. (k, LoadCards n) \<in> set (fetches s) \<Longrightarrow> open_page s = ListPage n \<Longrightarrow> handle s = None"
    using assms(1) by (auto simp: polls_sound_def)
  have m: "(k, f) \<in> set (fetches s)" using Some by (rule map_of_SomeD)
  have turn: "fst (poll_step s (FetchAnswered k r)) =
      (case (f, r) of
         (LoadCards n, Some True) \<Rightarrow> set_polling (PollCards n) s1
       | (RefreshCardsOf n, Some False) \<Rightarrow> clear_polling s1
       | (RefreshRoomOf n, Some True) \<Rightarrow> if handle s1 = None then set_polling (PollRoom n) s1 else s1
       | (RefreshRoomOf n, _) \<Rightarrow> clear_polling s1
       | _ \<Rightarrow> s1)"
    by (simp add: fetch_answered_def Some s1_def Let_def split: fetch.split option.split bool.split)
  have o1: "one_interval s1" using s(1) unfolding s1_def one_interval_def by (simp split: option.splits)
  have f1: "fetches_sound s1" unfolding s1_def using s(2) by (rule polls_sound_filter)
  have p1: "handle s1 = None" if "(i, LoadCards n) \<in> set (fetches s1)" "open_page s1 = ListPage n" for i n
    using s(3) that by (auto simp: s1_def)
  have c: "polls_sound (clear_polling s1)"
    using one_interval_clear [OF o1, of "open_page s1"] f1 fetches_sound_cong [of "clear_polling s1" s1]
    by (auto simp: polls_sound_def intro: one_interval_none)
  have ok: "polls_sound s1" using o1 f1 p1 by (auto simp: polls_sound_def)
  have start: "polls_sound (set_polling j s1)"
    if "handle s1 = None" "job_of_page (open_page s1) j" "\<And>i n. (i, LoadCards n) \<in> set (fetches s1) \<Longrightarrow> open_page s1 \<noteq> ListPage n" for j
    using that o1 f1 fetches_sound_cong [of "set_polling j s1" s1] by (auto simp: polls_sound_def one_interval_def)
  have shown: "fetch_shown (open_page s1) f" using assms(2) [OF Some] by (simp add: s1_def)
  show ?thesis
  proof (cases f)
    case (LoadCards n)
    then have here: "open_page s1 = ListPage n" using shown by simp
    have "(i, LoadCards n) \<notin> set (fetches s1)" for i
      using m LoadCards s(2) by (auto simp: s1_def fetches_sound_def)
    moreover have "handle s1 = None"
      using s(3) [of k n] m LoadCards here by (simp add: s1_def)
    ultimately have "polls_sound (set_polling (PollCards n) s1)"
      using here by (intro start) auto
    then show ?thesis
      unfolding turn using LoadCards ok by (simp split: option.split bool.split)
  next
    case (RefreshCardsOf n)
    then show ?thesis
      unfolding turn using ok c by (simp split: option.split bool.split)
  next
    case (RefreshRoomOf n)
    then have "handle s1 = None \<Longrightarrow> polls_sound (set_polling (PollRoom n) s1)"
      using shown by (intro start) auto
    then show ?thesis
      unfolding turn using RefreshRoomOf ok c by (simp split: option.split bool.split)
  qed
qed (use assms(1) in \<open>simp add: fetch_answered_def Let_def\<close>)

text \<open>A page polls with one interval and only while it is shown: as long as every answer arrives while the page
  that asked for it is still shown, at most one interval runs, its handle is the one the next page will
  clear, and it belongs to the page shown.\<close>

theorem one_interval_per_page:
  assumes "prompt no_pollers es"
  shows "one_interval (fst (run_steps poll_step no_pollers es))"
proof -
  have "polls_sound s \<Longrightarrow> prompt s es \<Longrightarrow> polls_sound (fst (run_steps poll_step s es))" for s
  proof (induction es arbitrary: s)
    case (Cons e es)
    have "polls_sound (fst (poll_step s e))"
    proof (cases e)
      case (FetchAnswered k r)
      then show ?thesis using Cons.prems by (auto intro!: polls_step_answer simp del: poll_step.simps)
    next
      case (RoomRefresh n)
      then show ?thesis using Cons.prems by (auto intro!: polls_step_turn(2) simp del: poll_step.simps)
    next
      case (IntervalFires h)
      then show ?thesis using polls_step_turn(1) [OF Cons.prems(1)] by simp
    qed (use polls_step_nav [OF Cons.prems(1), of e] in simp_all)
    then show ?case using Cons by (simp del: poll_step.simps)
  qed simp
  moreover have "polls_sound no_pollers"
    by (simp add: polls_sound_def no_pollers_def one_interval_def fetches_sound_def)
  ultimately show ?thesis using assms by (simp add: polls_sound_def)
qed

text \<open>An interval whose handle is lost runs for ever: when the list of rooms is answered after the user has gone
  to another page with an interval of its own, the new handle overwrites that one, and whatever the user
  does from then on, the old interval is never cleared.\<close>

theorem late_list_leaks_interval:
  assumes "handle s = Some h" "h < next_handle s" "(h, j) \<in> set (intervals s)" "map_of (fetches s) k = Some (LoadCards n)"
  shows "(h, j) \<in> set (intervals (fst (run_steps poll_step s (FetchAnswered k (Some True) # es))))"
proof -
  define lost where "lost x \<longleftrightarrow> (h, j) \<in> set (intervals x) \<and> handle x \<noteq> Some h \<and> h < next_handle x" for x :: pollers
  have prim: "lost (clear_polling x)" "lost (set_polling j' x)" "lost (x\<lparr>open_page := p\<rparr>)" "lost (x\<lparr>fetches := fs\<rparr>)"
    "lost (x\<lparr>open_page := p, next_page := m\<rparr>)" "lost (fst (start_fetch f x))" if "lost x" for x j' p fs m f
    using that by (auto simp: lost_def clear_polling_def set_polling_def start_fetch_def split: option.split)
  have step: "lost (fst (poll_step x e))" if "lost x" for x e
    using that prim
    by (cases e) (auto simp: go_home_def go_bare_def go_list_def go_room_def interval_fires_def room_refresh_def
        fetch_answered_def Let_def split: option.split job.split fetch.split)
  have "lost (fst (poll_step s (FetchAnswered k (Some True))))"
    using assms by (auto simp: lost_def fetch_answered_def set_polling_def)
  then have "lost (fst (run_steps poll_step (fst (poll_step s (FetchAnswered k (Some True)))) es))"
    by (rule run_steps_invariant) (rule step)
  then show ?thesis by (simp add: lost_def del: poll_step.simps)
qed

text \<open>A late answer of a room stops the polling of the page shown: when the refresh of a room that the user has left
  fails, or says that nothing runs any more, the interval of the list of sessions is cleared and the list is
  not brought up to date again.\<close>

theorem late_room_stops_polling:
  assumes "open_page s = HomePage" "one_interval s" "map_of (fetches s) k = Some (RefreshRoomOf n)" "r \<noteq> Some True"
  shows "let s' = fst (poll_step s (FetchAnswered k r)) in open_page s' = HomePage \<and> handle s' = None \<and> intervals s' = []"
proof -
  have "intervals (clear_polling (s\<lparr>fetches := fs\<rparr>)) = []" for fs
    using assms(2) by (rule one_interval_clear')
  moreover have "fst (poll_step s (FetchAnswered k r)) = clear_polling (s\<lparr>fetches := filter (\<lambda>(i, _). i \<noteq> k) (fetches s)\<rparr>)"
    using assms(3,4) by (cases r) (simp_all add: fetch_answered_def Let_def)
  ultimately show ?thesis using assms(1) by (simp add: Let_def)
qed

section \<open>Examples\<close>

definition demo_message :: "nat \<Rightarrow> sender_type \<Rightarrow> room_message" where
  "demo_message n who =
     \<lparr>msg_id = n, msg_stage = None, msg_sender = (if who = FromHuman then js ''human'' else js ''codex''), msg_sender_type = who,
      msg_recipient = (if who = FromHuman then js ''codex'' else js ''human''),
      msg_kind = (if who = FromHuman then PlainKind else QuestionKind), msg_body = js ''ok?'', msg_reply = None, msg_created = []\<rparr>"

definition demo_workflow :: workflow where
  "demo_workflow = \<lparr>wf_request = js ''@codex plan'', wf_cwd = js ''/tmp'', wf_status = js ''running'', wf_stages = [],
     wf_messages = Some [demo_message 1 FromHuman, demo_message 2 FromAgent], wf_count = 2, wf_last = None\<rparr>"

theorem needs_you_exactly_witness: "roomStatusLabel (\<lambda>s. s) demo_workflow = js ''NEEDS YOU''"
proof -
  have q: "has_substring (js ''?'') (js ''ok?'')" by (simp add: js_def starts_with_def)
  have "open_question (room_messages demo_workflow)"
    unfolding open_question_def
    by (rule exI [of _ "[demo_message 1 FromHuman]"], rule exI [of _ "demo_message 2 FromAgent"], rule exI [of _ "[]"])
       (simp add: demo_workflow_def room_messages_def demo_message_def asks_human_def from_human_def q)
  moreover have "sorted_wrt (\<lambda>x y. msg_id x < msg_id y) (room_messages demo_workflow)"
    "\<forall>m\<in>set (room_messages demo_workflow). 0 < msg_id m" "wf_status demo_workflow \<noteq> js ''NEEDS YOU''"
    by (simp_all add: demo_workflow_def room_messages_def demo_message_def)
  ultimately show ?thesis using needs_you_exactly [of demo_workflow "\<lambda>s. s"] by simp
qed

definition demo_form_run :: "form_event list" where
  "demo_form_run = [ListLoaded [] [js ''/p''], TypeRequest (js ''plan''), SubmitRoom, Compiled [], SubmitRoom]"

theorem reviewed_room_is_started_witness:
  "\<exists>pre post stages. demo_form_run = pre @ SubmitRoom # post \<and>
     preview (fst (run_steps form_step new_form pre)) = Some ((trim (js ''plan''), trim (js ''/p'')), stages)"
proof -
  have "guarded form_step quiet_form new_form demo_form_run"
    "CreateRequest (trim (js ''plan''), trim (js ''/p'')) \<in> set (snd (run_steps form_step new_form demo_form_run))"
    by (simp_all add: demo_form_run_def new_form_def form_defs)
  then show ?thesis by (rule reviewed_room_is_started)
qed

definition demo_reviewed :: room_form where
  "demo_reviewed = fst (run_steps form_step new_form
     [ListLoaded [] [js ''/p''], TypeRequest (js ''plan''), TypeDirectory (js ''/q''), SubmitRoom, Compiled []])"

theorem refresh_changes_reviewed_directory_witness:
  "snd (run_steps form_step demo_reviewed [RefreshPress, AgentsRefreshed (Some []), SubmitRoom]) =
     [RefreshRequest, CreateRequest (trim (js ''plan''), trim (js ''/p''))]"
proof -
  have "reviewed demo_reviewed" "submit_enabled demo_reviewed" "refresh_button demo_reviewed = RefreshReady"
    "known_projects demo_reviewed = [js ''/p'']" "preview demo_reviewed = Some (sent_texts demo_reviewed, [])"
    "request_text demo_reviewed = js ''plan''"
    by (simp_all add: demo_reviewed_def new_form_def form_defs)
  then show ?thesis using refresh_changes_reviewed_directory [of demo_reviewed "js ''/p''" "[]" "[]" "[]"] by (simp add: Let_def)
qed

theorem late_answer_overwrites_directory_witness:
  "cwd_text (fst (run_steps form_step new_form [TypeDirectory (js ''/q''), ListLoaded [] [js ''/p'']])) = js ''/p''"
  by (rule late_answer_overwrites_directory) (simp_all add: new_form_def)

theorem edit_during_review_is_unseen_witness:
  "snd (run_steps form_step new_form [SubmitRoom, TypeRequest (js ''new''), Compiled [], SubmitRoom]) =
     [CompileRequest (trim [], trim []), CreateRequest (trim (js ''new''), trim [])]"
  using edit_during_review_is_unseen [of new_form "[]" "js ''new''" "[]"] by (simp add: new_form_def)

lemma trim_ok [simp]: "trim (js ''ok'') = js ''ok''"
  by (simp add: js_def trim_def trim_start_def trim_end_def is_space_def)

theorem message_in_flight_is_exposed_witness:
  "\<exists>m. snd (run_steps team_step (new_composer\<lparr>message_text := js ''ok''\<rparr>) [SendKeys, SendKeys]) = [m, m]"
  using message_in_flight_is_exposed [of "new_composer\<lparr>message_text := js ''ok''\<rparr>"] by (auto simp del: team_step.simps)

theorem reply_goes_to_author_witness:
  "snd (run_steps team_step new_composer [ReplyTo (demo_message 2 FromAgent), TypeMessage (js ''ok''), SendButton]) =
     [PostMessage (js ''ok'') (js ''codex'') (Some 2)]"
proof -
  have "0 < msg_id (demo_message 2 FromAgent)" "trim (js ''ok'') \<noteq> []" "send_enabled new_composer"
    "msg_sender (demo_message 2 FromAgent) \<noteq> []" "msg_recipient (demo_message 2 FromAgent) \<noteq> []"
    by (simp_all add: demo_message_def new_composer_def)
  from reply_goes_to_author [OF this] show ?thesis by (simp add: demo_message_def del: team_step.simps)
qed

definition demo_visit :: "poll_event list" where
  "demo_visit = [GoHome, GoList, FetchAnswered 0 (Some True)]"

theorem one_interval_per_page_witness: "one_interval (fst (run_steps poll_step no_pollers demo_visit))"
  by (rule one_interval_per_page)
     (simp add: demo_visit_def no_pollers_def go_home_def go_list_def clear_polling_def set_polling_def start_fetch_def Let_def)

text \<open>The user has looked at the list of rooms and is back at the sessions before it was answered.\<close>

definition demo_back_home :: pollers where
  "demo_back_home = \<lparr>open_page = HomePage, handle = Some 1, intervals = [(1, PollSessions)], next_handle = 2, next_page = 2,
     fetches = [(0, LoadCards 0), (1, RefreshRoomOf 1)], next_fetch = 2\<rparr>"

theorem late_list_leaks_interval_witness:
  "(1, PollSessions) \<in> set (intervals (fst (run_steps poll_step demo_back_home [FetchAnswered 0 (Some True), IntervalFires 2, GoBare])))"
  by (rule late_list_leaks_interval) (simp_all add: demo_back_home_def)

theorem late_room_stops_polling_witness:
  "let s' = fst (poll_step demo_back_home (FetchAnswered 1 None)) in open_page s' = HomePage \<and> handle s' = None \<and> intervals s' = []"
  by (rule late_room_stops_polling) (simp_all add: demo_back_home_def one_interval_def)

definition demo_stage :: stage where
  "demo_stage = \<lparr>stg_id = js ''s'', stg_agent = js ''codex'', stg_prompt = [], stg_status = js ''running'', stg_session = Some (js ''t'')\<rparr>"

definition demo_button :: desktop_button where
  "demo_button = \<lparr>db_session = js ''t'', db_hides = False, db_text = js ''Show'', db_disabled = False\<rparr>"

definition demo_room :: team_room where
  "demo_room = new_room\<lparr>tr_panel := \<lparr>panel_sig = Some (participants_signature [] (demo_workflow\<lparr>wf_stages := [demo_stage]\<rparr>)),
     panel_cards = [\<lparr>pt_agent = js ''codex'', pt_presence = [], pt_terminal = Some (js ''t''), pt_desktop = Some demo_button\<rparr>],
     panel_generation = 1\<rparr>, tr_feed := new_feed\<lparr>feed_sig := Some (feed_signature demo_workflow)\<rparr>\<rparr>"

theorem viewer_button_stays_dead_witness:
  "let r' = fst (run_steps (room_step (\<lambda>s. s)) demo_room [DesktopPress (js ''codex''), DesktopFails 1 (js ''codex'') (js ''Failed''),
       RoomLoaded False [] (demo_workflow\<lparr>wf_stages := [demo_stage]\<rparr>)])
   in (\<exists>b'. desktop_of (js ''codex'') (tr_panel r') = Some b' \<and> db_disabled b') \<and>
      room_step (\<lambda>s. s) r' (DesktopPress (js ''codex'')) = (r', [])"
  by (rule viewer_button_stays_dead [of _ "participants_signature [] (demo_workflow\<lparr>wf_stages := [demo_stage]\<rparr>)" _ demo_button])
     (simp_all add: demo_room_def desktop_of_def)

theorem feed_error_sticks_witness:
  "let f = tr_feed (fst (run_steps (room_step (\<lambda>s. s)) demo_room [RoomFails (js ''offline''), RoomLoaded True [] demo_workflow]))
   in feed_note f = Some (js ''offline'') \<and> feed_items f = []"
  by (rule feed_error_sticks [of _ "feed_signature demo_workflow"]) (simp_all add: demo_room_def)

end
