(* ===== verification/RemoteDesktop.thy ===== *)
theory RemoteDesktop
  imports TerminalConn
begin

text \<open>
  The remote desktop of \<open>main.ts\<close>: the page with its two kinds of source (\<open>renderDesktop\<close>), the input on a
  selected window (\<open>installWindowInput\<close>), the bridge from touches to the mouse of the VNC client
  (\<open>installDesktopTouchBridge\<close>), the renderer of the frames (\<open>createWindowRenderer\<close>) and the typing of
  text (\<open>sendDesktopText\<close>).

  Coordinates are exact rationals. An event of an input comes with the rectangle of the canvas and whether
  control is enabled at that moment; animation frames are events that happen only when one is requested.
  The VNC client and the decoder of images are parameters: their callbacks are events.
\<close>

unbundle bit_operations_syntax

section \<open>Typing\<close>

text \<open>Iterating over a string gives its code points; an unpaired surrogate stands for itself.\<close>

fun code_points :: "jsstring \<Rightarrow> nat list" where
  "code_points [] = []"
| "code_points [c] = [unat c]"
| "code_points (c # d # s) =
     (if is_high c \<and> is_low d
      then (0x10000 + (unat c - 0xD800) * 0x400 + (unat d - 0xDC00)) # code_points s
      else unat c # code_points (d # s))"

definition keysym_of :: "nat \<Rightarrow> nat" where
  "keysym_of n = (if n \<le> 0xFF then n else 0x01000000 OR n)"

definition sendDesktopText :: "jsstring \<Rightarrow> nat list" where
  "sendDesktopText text = map keysym_of (code_points text)"

section \<open>Frames of a window\<close>

record window_frame =
  wf_data :: bytes
  wf_size :: "jsnum \<times> jsnum"

record renderer =
  decoding :: "window_frame option"
  pending_frame :: "window_frame option"
  canvas_size :: "jsnum \<times> jsnum"

datatype render_out = Decode window_frame | Drawn window_frame | DecodeWarning

definition renderNext :: "renderer \<Rightarrow> renderer \<times> render_out list" where
  "renderNext r =
     (case (decoding r, pending_frame r) of
        (None, Some f) \<Rightarrow> (r\<lparr>decoding := Some f, pending_frame := None\<rparr>, [Decode f])
      | _ \<Rightarrow> (r, []))"

definition draw_frame :: "window_frame \<Rightarrow> renderer \<Rightarrow> renderer \<times> render_out list" where
  "draw_frame f r = renderNext (r\<lparr>pending_frame := Some f\<rparr>)"

definition frame_decoded :: "bool \<Rightarrow> renderer \<Rightarrow> renderer \<times> render_out list" where
  "frame_decoded ok r =
     (case decoding r of
        None \<Rightarrow> (r, [])
      | Some f \<Rightarrow>
          and_then (if ok then (r\<lparr>canvas_size := wf_size f, decoding := None\<rparr>, [Drawn f])
                    else (r\<lparr>decoding := None\<rparr>, [DecodeWarning])) renderNext)"

datatype render_event = DrawFrame window_frame | FrameDecoded bool

fun render_step :: "renderer \<Rightarrow> render_event \<Rightarrow> renderer \<times> render_out list" where
  "render_step r (DrawFrame f) = draw_frame f r"
| "render_step r (FrameDecoded ok) = frame_decoded ok r"

section \<open>Input on a window\<close>

record rect =
  r_left :: rat
  r_top :: rat
  r_width :: rat
  r_height :: rat

type_synonym point = "rat \<times> rat"

definition clamp :: "rat \<Rightarrow> rat \<Rightarrow> rat \<Rightarrow> rat" where
  "clamp lo hi v = max lo (min hi v)"

definition normalized :: "rect \<Rightarrow> point \<Rightarrow> point" where
  "normalized r p =
     (clamp 0 1 ((fst p - r_left r) / max 1 (r_width r)), clamp 0 1 ((snd p - r_top r) / max 1 (r_height r)))"

record ptr =
  is_touch :: bool
  ptr_at :: point
  ptr_button :: nat
  ptr_buttons :: nat

record finger =
  ident :: nat
  finger_at :: point

record key_press =
  key_code :: jsstring
  composing :: bool
  modifiers :: "bool \<times> bool \<times> bool \<times> bool"

datatype window_msg =
    PointerMsg string point nat
  | ScrollMsg point rat rat
  | KeyMsg jsstring bool "bool \<times> bool \<times> bool \<times> bool"

text \<open>The message as it is sent.\<close>

fun window_json :: "window_msg \<Rightarrow> json" where
  "window_json (PointerMsg action p b) =
     jmsg [(''kind'', jstr ''pointer''), (''action'', jstr action), (''x'', JNum (Fin (fst p))), (''y'', JNum (Fin (snd p))),
           (''button'', JNum (fin_nat b))]"
| "window_json (ScrollMsg p dx dy) =
     jmsg [(''kind'', jstr ''pointer''), (''action'', jstr ''scroll''), (''x'', JNum (Fin (fst p))), (''y'', JNum (Fin (snd p))),
           (''button'', jint 0), (''deltaX'', JNum (Fin dx)), (''deltaY'', JNum (Fin dy))]"
| "window_json (KeyMsg c down (sh, ct, al, me)) =
     jmsg [(''kind'', jstr ''key''), (''code'', JStr c), (''down'', JBool down), (''shift'', JBool sh), (''ctrl'', JBool ct),
           (''alt'', JBool al), (''meta'', JBool me)]"

record win_input =
  pendingMove :: "ptr option"
  move_frame :: bool
  touchId :: "nat option"
  touchPoint :: point
  pendingTouchPoint :: "point option"
  touch_frame :: bool

type_synonym input_result = "win_input \<times> window_msg list"

definition new_win_input :: win_input where
  "new_win_input = \<lparr>pendingMove = None, move_frame = False, touchId = None, touchPoint = (0, 0), pendingTouchPoint = None,
     touch_frame = False\<rparr>"

definition pointerButton :: "ptr \<Rightarrow> nat" where
  "pointerButton e = (if ptr_button e = 2 then 2 else if ptr_button e = 1 then 1 else 0)"

definition flushMove :: "bool \<Rightarrow> rect \<Rightarrow> win_input \<Rightarrow> input_result" where
  "flushMove control r s =
     (if \<not> move_frame s then (s, [])
      else
        let s1 = s\<lparr>move_frame := False, pendingMove := None\<rparr> in
        case pendingMove s of
          None \<Rightarrow> (s1, [])
        | Some e \<Rightarrow>
            if \<not> control then (s1, [])
            else (s1, [PointerMsg (if ptr_buttons e \<noteq> 0 then ''drag'' else ''move'') (normalized r (ptr_at e))
                        (if bit (ptr_buttons e) 1 then 2 else if bit (ptr_buttons e) 2 then 1 else 0)]))"

definition onPointerDown_w :: "bool \<Rightarrow> rect \<Rightarrow> ptr \<Rightarrow> win_input \<Rightarrow> input_result" where
  "onPointerDown_w control r e s =
     (if \<not> control \<or> is_touch e then (s, [])
      else (s, [PointerMsg ''down'' (normalized r (ptr_at e)) (pointerButton e)]))"

definition onPointerMove_w :: "bool \<Rightarrow> ptr \<Rightarrow> win_input \<Rightarrow> input_result" where
  "onPointerMove_w control e s =
     (if \<not> control \<or> is_touch e then (s, []) else (s\<lparr>pendingMove := Some e, move_frame := True\<rparr>, []))"

definition onPointerUp_w :: "bool \<Rightarrow> rect \<Rightarrow> ptr \<Rightarrow> win_input \<Rightarrow> input_result" where
  "onPointerUp_w control r e s =
     (if \<not> control \<or> is_touch e then (s, [])
      else (s, [PointerMsg ''up'' (normalized r (ptr_at e)) (pointerButton e)]))"

definition onWheel :: "bool \<Rightarrow> rect \<Rightarrow> point \<Rightarrow> rat \<Rightarrow> rat \<Rightarrow> win_input \<Rightarrow> input_result" where
  "onWheel control r p dx dy s =
     (if \<not> control then (s, [])
      else (s, [ScrollMsg (normalized r p) (clamp (-4000) 4000 dx) (clamp (-4000) 4000 dy)]))"

definition onKey :: "bool \<Rightarrow> key_press \<Rightarrow> bool \<Rightarrow> win_input \<Rightarrow> input_result" where
  "onKey control k down s =
     (if \<not> control \<or> composing k \<or> key_code k = [] then (s, [])
      else (s, [KeyMsg (key_code k) down (modifiers k)]))"

definition findTouch :: "nat option \<Rightarrow> finger list \<Rightarrow> finger option" where
  "findTouch i fs = find (\<lambda>f. Some (ident f) = i) fs"

definition flushTouchMove :: "bool \<Rightarrow> win_input \<Rightarrow> input_result" where
  "flushTouchMove control s =
     (if \<not> touch_frame s then (s, [])
      else
        let s1 = s\<lparr>touch_frame := False\<rparr> in
        case pendingTouchPoint s of
          None \<Rightarrow> (s1, [])
        | Some p \<Rightarrow>
            if \<not> control \<or> touchId s = None then (s1, [])
            else (s1\<lparr>touchPoint := p, pendingTouchPoint := None\<rparr>, [PointerMsg ''drag'' p 0]))"

definition onTouchStart :: "bool \<Rightarrow> rect \<Rightarrow> finger list \<Rightarrow> win_input \<Rightarrow> input_result" where
  "onTouchStart control r touches s =
     (case touches of
        [f] \<Rightarrow>
          if \<not> control \<or> touchId s \<noteq> None then (s, [])
          else (s\<lparr>touchId := Some (ident f), touchPoint := normalized r (finger_at f)\<rparr>,
                [PointerMsg ''down'' (normalized r (finger_at f)) 0])
      | _ \<Rightarrow> (s, []))"

definition onTouchMove :: "bool \<Rightarrow> rect \<Rightarrow> finger list \<Rightarrow> win_input \<Rightarrow> input_result" where
  "onTouchMove control r touches s =
     (if \<not> control \<or> touchId s = None then (s, [])
      else
        case findTouch (touchId s) touches of
          None \<Rightarrow> (s, [])
        | Some f \<Rightarrow> (s\<lparr>pendingTouchPoint := Some (normalized r (finger_at f)), touch_frame := True\<rparr>, []))"

text \<open>The end or the cancellation of touches; control is not asked for.\<close>

definition onTouchEnd :: "rect \<Rightarrow> finger list \<Rightarrow> finger list \<Rightarrow> win_input \<Rightarrow> input_result" where
  "onTouchEnd r changed touches s =
     (if touchId s = None then (s, [])
      else
        let ended = findTouch (touchId s) changed in
        if ended = None \<and> findTouch (touchId s) touches \<noteq> None then (s, [])
        else
          let p = (case ended of Some f \<Rightarrow> normalized r (finger_at f) | None \<Rightarrow> touchPoint s) in
          (s\<lparr>touch_frame := False, pendingTouchPoint := None, touchPoint := p, touchId := None\<rparr>, [PointerMsg ''up'' p 0]))"

text \<open>The function that takes the handlers away cancels the requested frames; no event comes after it.\<close>

definition input_cleanup :: "win_input \<Rightarrow> win_input" where
  "input_cleanup s = s\<lparr>move_frame := False, touch_frame := False\<rparr>"

datatype input_event =
    PtrDown ptr | PtrMove ptr | PtrUp ptr | WheelTurn point rat rat | KeyTurn key_press bool
  | MoveFrame | TouchStart "finger list" | TouchMove "finger list" | TouchEnd "finger list" "finger list" | TouchFrame | CleanUp

type_synonym input_at = "bool \<times> rect \<times> input_event"

fun input_step :: "win_input \<Rightarrow> input_at \<Rightarrow> input_result" where
  "input_step s (c, r, PtrDown e) = onPointerDown_w c r e s"
| "input_step s (c, r, PtrMove e) = onPointerMove_w c e s"
| "input_step s (c, r, PtrUp e) = onPointerUp_w c r e s"
| "input_step s (c, r, WheelTurn p dx dy) = onWheel c r p dx dy s"
| "input_step s (c, r, KeyTurn k down) = onKey c k down s"
| "input_step s (c, r, MoveFrame) = flushMove c r s"
| "input_step s (c, r, TouchStart fs) = onTouchStart c r fs s"
| "input_step s (c, r, TouchMove fs) = onTouchMove c r fs s"
| "input_step s (c, r, TouchEnd ch fs) = onTouchEnd r ch fs s"
| "input_step s (c, r, TouchFrame) = flushTouchMove c s"
| "input_step s (c, r, CleanUp) = (input_cleanup s, [])"

section \<open>Touches as a mouse\<close>

record touch_bridge =
  tb_touch :: "nat option"
  tb_last :: point

datatype mouse = MouseDown point | MouseMove point | MouseUp point

type_synonym bridge_result = "touch_bridge \<times> mouse list"

text \<open>An event is lost while there is no canvas or no client (\<open>target\<close>).\<close>

definition dispatchMouse :: "bool \<Rightarrow> mouse \<Rightarrow> mouse list" where
  "dispatchMouse there m = (if there then [m] else [])"

definition tb_start :: "bool \<Rightarrow> bool \<Rightarrow> finger list \<Rightarrow> touch_bridge \<Rightarrow> bridge_result" where
  "tb_start control there touches s =
     (case touches of
        [f] \<Rightarrow>
          if \<not> control \<or> tb_touch s \<noteq> None then (s, [])
          else (\<lparr>tb_touch = Some (ident f), tb_last = finger_at f\<rparr>, dispatchMouse there (MouseDown (finger_at f)))
      | _ \<Rightarrow> (s, []))"

definition tb_move :: "bool \<Rightarrow> bool \<Rightarrow> finger list \<Rightarrow> touch_bridge \<Rightarrow> bridge_result" where
  "tb_move control there touches s =
     (if \<not> control \<or> tb_touch s = None then (s, [])
      else
        case findTouch (tb_touch s) touches of
          None \<Rightarrow> (s, [])
        | Some f \<Rightarrow> (s\<lparr>tb_last := finger_at f\<rparr>, dispatchMouse there (MouseMove (finger_at f))))"

definition tb_end :: "bool \<Rightarrow> finger list \<Rightarrow> finger list \<Rightarrow> touch_bridge \<Rightarrow> bridge_result" where
  "tb_end there changed touches s =
     (if tb_touch s = None then (s, [])
      else
        let ended = findTouch (tb_touch s) changed in
        if ended = None \<and> findTouch (tb_touch s) touches \<noteq> None then (s, [])
        else
          let p = (case ended of Some f \<Rightarrow> finger_at f | None \<Rightarrow> tb_last s) in
          (\<lparr>tb_touch = None, tb_last = p\<rparr>, dispatchMouse there (MouseUp p)))"

fun tb_step :: "touch_bridge \<Rightarrow> bool \<times> bool \<times> input_event \<Rightarrow> bridge_result" where
  "tb_step s (c, there, TouchStart fs) = tb_start c there fs s"
| "tb_step s (c, there, TouchMove fs) = tb_move c there fs s"
| "tb_step s (c, there, TouchEnd ch fs) = tb_end there ch fs s"
| "tb_step s (c, there, _) = (s, [])"

section \<open>The list of windows\<close>

text \<open>What the picker says, and the windows it offers; \<open>Inr\<close> is a failure.\<close>

definition windows_note :: "nat \<Rightarrow> jsstring option \<Rightarrow> bool \<Rightarrow> bool \<Rightarrow> bool \<Rightarrow> jsstring" where
  "windows_note n error supported recording accessibility =
     (if \<not> supported then js ''Selected-window mode requires macOS 14 or newer.''
      else if \<not> recording then
        js ''Screen Recording is not allowed. Run '' @ [0x201C] @ js ''termlinks desktop permissions'' @ [0x201D] @
        js '' on the Mac, approve it, then restart the connector.''
      else if error \<noteq> None \<and> error \<noteq> Some [] then the error
      else if n = 0 then js ''No shareable on-screen windows found.''
      else nat_text n @ js '' windows available '' @ [0xB7] @
        (if accessibility then js '' viewing and control allowed''
         else js '' viewing allowed; Accessibility permission is required for control''))"

record desk_window =
  wsrc_id :: int
  wsrc_name :: "jsstring \<times> jsstring"             \<comment> \<open>application and title\<close>

record window_listing =
  wl_sources :: "desk_window list"
  wl_supported :: bool
  wl_recording :: bool
  wl_accessibility :: bool
  wl_error :: "jsstring option"

definition offers :: "window_listing \<Rightarrow> desk_window list" where
  "offers l = (if wl_supported l \<and> wl_recording l then wl_sources l else [])"

definition listing_note :: "window_listing \<Rightarrow> jsstring" where
  "listing_note l = windows_note (length (wl_sources l)) (wl_error l) (wl_supported l) (wl_recording l) (wl_accessibility l)"

section \<open>The page\<close>

datatype desk_mode = NoSource | FullDesktop | OneWindow

text \<open>The input field and the keys are enabled exactly while control is. \<open>viewOnly\<close> is the property of the VNC
  client, if there is one.\<close>

record desk =
  d_mode :: desk_mode
  controlEnabled :: bool
  viewOnly :: "bool option"
  gate_shown :: bool
  picker_shown :: bool
  credentials_shown :: bool
  typed :: jsstring
  d_label :: "jsstring \<times> conn_kind"
  typing_shown :: bool
  subtitle :: jsstring
  list_note :: jsstring
  offered :: "desk_window list"
  list_asked :: "nat option"                    \<comment> \<open>a list is under way; the refresh button is disabled\<close>
  next_list :: nat

datatype desk_out =
    OpenDesktop | OpenWindow int nat nat | CloseDesktopLink
  | RfbKey nat "jsstring option" | RfbPaste jsstring | RfbCredentials jsstring jsstring
  | WindowSend json
  | ListWindows nat | DisconnectRfb | CloseWindowLink

type_synonym desk_result = "desk \<times> desk_out list"

text \<open>The page as \<open>renderDesktop\<close> leaves it: it has just asked for the list of windows.\<close>

definition new_desk :: desk where
  "new_desk = \<lparr>d_mode = NoSource, controlEnabled = False, viewOnly = None, gate_shown = False, picker_shown = True,
     credentials_shown = False, typed = [], d_label = (js ''Opening encrypted desktop tunnel'' @ [0x2026], Connecting),
     typing_shown = False, subtitle = js ''Choose a desktop or window'' @ [32, 0xB7] @ js '' E2E'',
     list_note = js ''Reading encrypted window list'' @ [0x2026], offered = [], list_asked = Some 0, next_list = 1\<rparr>"

definition live_label :: "bool \<Rightarrow> jsstring" where
  "live_label enabled =
     js ''E2E '' @ [0xB7] @ js '' Live '' @ [0xB7] @ (if enabled then js '' touch and keyboard control enabled'' else js '' view only'')"

definition setControls :: "bool \<Rightarrow> desk \<Rightarrow> desk" where
  "setControls enabled s =
     s\<lparr>controlEnabled := enabled, viewOnly := map_option (\<lambda>_. \<not> enabled) (viewOnly s),
       gate_shown := (\<not> enabled \<and> d_mode s \<noteq> NoSource), d_label := (live_label enabled, Online)\<rparr>"

definition control_click :: "desk \<Rightarrow> desk" where
  "control_click s = (if d_mode s = NoSource then s else setControls (\<not> controlEnabled s) s)"

definition special_key :: "nat \<Rightarrow> string \<Rightarrow> desk \<Rightarrow> desk_result" where
  "special_key keysym code s =
     (if \<not> controlEnabled s then (s, [])
      else if d_mode s = FullDesktop then (s, if viewOnly s = None then [] else [RfbKey keysym (Some (js code))])
      else (s, [WindowSend (jmsg [(''kind'', jstr ''key''), (''code'', jstr code), (''down'', JBool True)]),
                WindowSend (jmsg [(''kind'', jstr ''key''), (''code'', jstr code), (''down'', JBool False)])]))"

definition clipboard_click :: "jsstring option \<Rightarrow> desk \<Rightarrow> desk_result" where
  "clipboard_click answer s =
     (if \<not> controlEnabled s \<or> d_mode s = NoSource then
        (s\<lparr>d_label := (js ''Enable control before sending clipboard text'', Warning)\<rparr>, [])
      else
        case answer of
          None \<Rightarrow> (s, [])
        | Some t \<Rightarrow>
            if d_mode s = FullDesktop then (s, if viewOnly s = None then [] else [RfbPaste t])
            else (s, [WindowSend (jmsg [(''kind'', jstr ''clipboard''), (''text'', JStr t)])]))"

definition typing_submit :: "desk \<Rightarrow> desk_result" where
  "typing_submit s =
     (if \<not> controlEnabled s \<or> d_mode s = NoSource \<or> typed s = [] then (s, [])
      else (s\<lparr>typed := []\<rparr>,
            if d_mode s = FullDesktop
            then (if viewOnly s = None then [] else map (\<lambda>k. RfbKey k None) (sendDesktopText (typed s)))
            else [WindowSend (jmsg [(''kind'', jstr ''text''), (''text'', JStr (typed s))])]))"

text \<open>\<open>rfb\<close>: whether the VNC client could be made.\<close>

definition startFullDesktop :: "bool \<Rightarrow> jsstring \<Rightarrow> desk \<Rightarrow> desk_result" where
  "startFullDesktop rfb msg s =
     (if \<not> picker_shown s then (s, [])
      else
        let s1 = s\<lparr>d_mode := FullDesktop, picker_shown := False, subtitle := js ''Full Mac desktop '' @ [0xB7] @ js '' E2E VNC'',
                   d_label := (js ''Opening encrypted full-desktop tunnel'' @ [0x2026], Connecting)\<rparr>
        in if rfb then (s1\<lparr>viewOnly := Some True\<rparr>, [OpenDesktop])
           else (s1\<lparr>d_label := (msg, Offline)\<rparr>, [OpenDesktop, CloseDesktopLink]))"

definition rfb_connected :: "desk \<Rightarrow> desk" where
  "rfb_connected s = (if viewOnly s = None then s else setControls False (s\<lparr>credentials_shown := False\<rparr>))"

definition rfb_wants_credentials :: "desk \<Rightarrow> desk" where
  "rfb_wants_credentials s =
     (if viewOnly s = None then s
      else s\<lparr>credentials_shown := True, d_label := (js ''Mac authentication required'', Warning)\<rparr>)"

definition rfb_refused :: "jsstring \<Rightarrow> desk \<Rightarrow> desk" where
  "rfb_refused reason s =
     s\<lparr>credentials_shown := True,
       d_label := (if reason \<noteq> [] then reason else js ''Screen Sharing rejected those credentials'', Offline)\<rparr>"

definition rfb_gone :: "jsstring \<Rightarrow> bool \<Rightarrow> desk \<Rightarrow> desk" where
  "rfb_gone lastReason clean s =
     (if viewOnly s = None then s
      else s\<lparr>d_label := (if lastReason \<noteq> [] then lastReason
                          else if clean then js ''Remote desktop closed'' else js ''Remote desktop disconnected'', Offline)\<rparr>)"

definition credentials_submit :: "jsstring \<Rightarrow> jsstring \<Rightarrow> desk \<Rightarrow> desk_result" where
  "credentials_submit user password s =
     (if viewOnly s = None \<or> \<not> credentials_shown s then (s, [])
      else (s\<lparr>credentials_shown := False, d_label := (js ''Authenticating with your Mac'' @ [0x2026], Connecting)\<rparr>,
            [RfbCredentials user password]))"

definition startWindow :: "desk_window \<Rightarrow> desk \<Rightarrow> desk_result" where
  "startWindow source s =
     (if \<not> picker_shown s \<or> source \<notin> set (offered s) then (s, [])
      else (s\<lparr>d_mode := OneWindow, picker_shown := False,
              subtitle := fst (wsrc_name source) @ [32, 0xB7, 32] @ snd (wsrc_name source),
              d_label := (js ''Opening encrypted selected-window stream'' @ [0x2026], Connecting)\<rparr>,
            [OpenWindow (wsrc_id source) 1600 1200]))"

definition window_closed :: "jsstring \<Rightarrow> desk \<Rightarrow> desk" where
  "window_closed reason s =
     (if d_mode s \<noteq> OneWindow then s
      else s\<lparr>d_label := (if reason \<noteq> [] then reason else js ''Selected window closed'', Offline)\<rparr>)"

text \<open>\<open>loadWindows\<close> runs once for the page and for every press of the refresh button, which is part of the picker
  and disabled while a list is under way.\<close>

definition loadWindows :: "desk \<Rightarrow> desk_result" where
  "loadWindows s =
     (s\<lparr>list_asked := Some (next_list s), next_list := next_list s + 1,
        list_note := js ''Reading encrypted window list'' @ [0x2026], offered := []\<rparr>, [ListWindows (next_list s)])"

definition refresh_windows :: "desk \<Rightarrow> desk_result" where
  "refresh_windows s = (if \<not> picker_shown s \<or> list_asked s \<noteq> None then (s, []) else loadWindows s)"

definition windows_listed :: "nat \<Rightarrow> window_listing + jsstring \<Rightarrow> desk \<Rightarrow> desk" where
  "windows_listed n answer s =
     (if list_asked s \<noteq> Some n then s
      else case answer of
             Inl l \<Rightarrow> s\<lparr>list_asked := None, list_note := listing_note l, offered := offers l\<rparr>
           | Inr msg \<Rightarrow> s\<lparr>list_asked := None, list_note := msg\<rparr>)"

text \<open>The button \<open>Sources\<close> builds the page anew; \<open>closeConnection\<close> ends what the old one has opened. A list
  that the old page still waits for has nothing to fill.\<close>

definition chooseSource :: "desk \<Rightarrow> desk_result" where
  "chooseSource s =
     (if d_mode s = NoSource then (s, [])
      else and_then
        (new_desk\<lparr>next_list := next_list s\<rparr>,
         (if viewOnly s \<noteq> None then [DisconnectRfb] else []) @
         (if d_mode s = FullDesktop then [CloseDesktopLink] else [CloseWindowLink]))
        loadWindows)"

text \<open>The button \<open>Full screen\<close>: what the browser offers.\<close>

datatype fullscreen_answer = IsFullscreen | NoFullscreen | FullscreenBlocked

definition fullscreen_click :: "fullscreen_answer \<Rightarrow> desk \<Rightarrow> desk" where
  "fullscreen_click answer s =
     (case answer of
        IsFullscreen \<Rightarrow> s
      | NoFullscreen \<Rightarrow> s\<lparr>d_label := (js ''Already using the largest view available on this browser'', Warning)\<rparr>
      | FullscreenBlocked \<Rightarrow> s\<lparr>d_label := (js ''Full screen was blocked; install the PWA for the largest iPhone view'', Warning)\<rparr>)"

text \<open>The buttons below the frame are shown once a source is chosen.\<close>

definition keyboard_click :: "desk \<Rightarrow> desk" where
  "keyboard_click s = (if d_mode s = NoSource then s else s\<lparr>typing_shown := \<not> typing_shown s\<rparr>)"

datatype desk_event =
    ControlClick | GateClick | SpecialKey nat string | ClipboardClick "jsstring option" | TypeDesk jsstring | TypingSubmit
  | ChooseDesktop bool jsstring | RfbConnects | RfbAsks | RfbRefuses jsstring | RfbGone jsstring bool | CredentialsSubmit jsstring jsstring
  | ChooseWindow desk_window | WindowOpens | WindowNotice jsstring | WindowCloses jsstring | WindowFails
  | RefreshWindows | WindowsListed nat "window_listing + jsstring" | ChooseSource | FullscreenClick fullscreen_answer | KeyboardClick

fun desk_step :: "desk \<Rightarrow> desk_event \<Rightarrow> desk_result" where
  "desk_step s ControlClick = (control_click s, [])"
| "desk_step s GateClick = (if gate_shown s then setControls True s else s, [])"
| "desk_step s (SpecialKey k c) = special_key k c s"
| "desk_step s (ClipboardClick t) = clipboard_click t s"
| "desk_step s (TypeDesk t) = (if controlEnabled s then s\<lparr>typed := t\<rparr> else s, [])"
| "desk_step s TypingSubmit = typing_submit s"
| "desk_step s (ChooseDesktop rfb msg) = startFullDesktop rfb msg s"
| "desk_step s RfbConnects = (rfb_connected s, [])"
| "desk_step s RfbAsks = (rfb_wants_credentials s, [])"
| "desk_step s (RfbRefuses reason) = (rfb_refused reason s, [])"
| "desk_step s (RfbGone reason clean) = (rfb_gone reason clean s, [])"
| "desk_step s (CredentialsSubmit u p) = credentials_submit u p s"
| "desk_step s (ChooseWindow w) = startWindow w s"
| "desk_step s WindowOpens = (if d_mode s = OneWindow then setControls False s else s, [])"
| "desk_step s (WindowNotice reason) = (s\<lparr>d_label := (reason, Warning)\<rparr>, [])"
| "desk_step s (WindowCloses reason) = (window_closed reason s, [])"
| "desk_step s WindowFails = (s\<lparr>d_label := (js ''Selected-window stream failed'', Offline)\<rparr>, [])"
| "desk_step s RefreshWindows = refresh_windows s"
| "desk_step s (WindowsListed n answer) = (windows_listed n answer s, [])"
| "desk_step s ChooseSource = chooseSource s"
| "desk_step s (FullscreenClick answer) = (fullscreen_click answer s, [])"
| "desk_step s KeyboardClick = (keyboard_click s, [])"

end
