(* ===== verification/RemoteDesktopSafety.thy ===== *)
theory RemoteDesktopSafety
  imports RemoteDesktop Runs "HOL-Library.Sublist"
begin

text \<open>
  Properties of the remote desktop: typed text reaches the Mac as it was typed, frames are shown in order and
  the newest one is always shown in the end, coordinates stay in the window, nothing is sent without
  control, a finger never leaves the button pressed, and where a mouse does.
\<close>

section \<open>Typed text\<close>

lemma code_points_less: "n \<in> set (code_points s) \<Longrightarrow> n < 0x110000"
proof (induction s rule: code_points.induct)
  case (2 c)
  then show ?case using unat_u16_less [of c] by simp
next
  case (3 c d s)
  have "is_high c \<Longrightarrow> is_low d \<Longrightarrow> 0x10000 + (unat c - 0xD800) * 0x400 + (unat d - 0xDC00) < 0x110000"
    unfolding is_high_def is_low_def by linarith
  then show ?case using 3 unat_u16_less [of c] by (auto split: if_splits)
qed simp

lemma code_units_code_points: "concat (map code_units (code_points s)) = s"
proof (induction s rule: code_points.induct)
  case (2 c)
  then show ?case using unat_u16_less [of c] by (simp add: code_units_def)
next
  case (3 c d s)
  show ?case
  proof (cases "is_high c \<and> is_low d")
    case True
    define h where "h = unat c - 0xD800"
    define l where "l = unat d - 0xDC00"
    have b: "h < 0x400" "l < 0x400" "unat c = 0xD800 + h" "unat d = 0xDC00 + l"
      using True unfolding h_def l_def is_high_def is_low_def by linarith+
    have "(h * 0x400 + l) div 0x400 = h" "(h * 0x400 + l) mod 0x400 = l"
      using b(2) by simp_all
    then have "code_units (0x10000 + h * 0x400 + l) = [of_nat (unat c), of_nat (unat d)]"
      unfolding code_units_def b(3,4) by simp
    then show ?thesis using True 3 by (simp add: h_def l_def)
  next
    case False
    then show ?thesis using 3 unat_u16_less [of c] by (auto simp: code_units_def)
  qed
qed simp

text \<open>What a keysym stands for: Latin-1 directly, everything else above \<open>0x1000000\<close>.\<close>

definition keysym_char :: "nat \<Rightarrow> nat" where
  "keysym_char k = (if k \<le> 0xFF then k else take_bit 24 k)"

lemma keysym_bits: "n < 2 ^ 24 \<Longrightarrow> take_bit 24 (0x1000000 OR n) = n" for n :: nat
  by (simp add: take_bit_or take_bit_nat_eq_self)

lemma keysym_char_of: "n < 0x110000 \<Longrightarrow> keysym_char (keysym_of n) = n"
  using keysym_bits [of n] take_bit_nat_less_eq_self [of 24 "0x1000000 OR n"]
  by (auto simp: keysym_char_def keysym_of_def)

lemma keysym_less: "n < 0x110000 \<Longrightarrow> keysym_of n < 2 ^ 25"
proof -
  assume n: "n < 0x110000"
  have "take_bit 25 (0x1000000 OR n) = 0x1000000 OR n"
    using n by (simp add: take_bit_or take_bit_nat_eq_self)
  then have "0x1000000 OR n < 2 ^ 25" by (metis take_bit_nat_less_exp)
  then show ?thesis using n by (simp add: keysym_of_def)
qed

text \<open>Text typed for the Mac arrives as typed: from the keys sent the text is read back, whatever it contains,
  characters beyond the basic plane and unpaired surrogates included.\<close>

theorem typed_text_round_trip: "concat (map code_units (map keysym_char (sendDesktopText text))) = text"
proof -
  have "map keysym_char (sendDesktopText text) = code_points text"
    unfolding sendDesktopText_def map_map by (rule map_idI) (simp add: code_points_less keysym_char_of)
  then show ?thesis by (simp add: code_units_code_points)
qed

section \<open>Frames\<close>

definition drawn :: "render_out list \<Rightarrow> window_frame list" where
  "drawn outs = concat (map (\<lambda>v. case v of Drawn f \<Rightarrow> [f] | _ \<Rightarrow> []) outs)"

definition arriving :: "render_event list \<Rightarrow> window_frame list" where
  "arriving es = concat (map (\<lambda>e. case e of DrawFrame f \<Rightarrow> [f] | _ \<Rightarrow> []) es)"

definition waiting_frames :: "renderer \<Rightarrow> window_frame list" where
  "waiting_frames r =
     (case decoding r of Some f \<Rightarrow> [f] | None \<Rightarrow> []) @ (case pending_frame r of Some f \<Rightarrow> [f] | None \<Rightarrow> [])"

lemma drawn_simps [simp]:
  "drawn [] = []" "drawn (Drawn f # outs) = f # drawn outs" "drawn (Decode f # outs) = drawn outs"
  "drawn (DecodeWarning # outs) = drawn outs" "drawn (outs @ outs') = drawn outs @ drawn outs'"
  by (simp_all add: drawn_def)

lemma arriving_simps [simp]:
  "arriving [] = []" "arriving (DrawFrame f # es) = f # arriving es" "arriving (FrameDecoded ok # es) = arriving es"
  by (simp_all add: arriving_def)

text \<open>Nothing waits behind an idle decoder.\<close>

definition renderer_sound :: "renderer \<Rightarrow> bool" where
  "renderer_sound r \<longleftrightarrow> (decoding r = None \<longrightarrow> pending_frame r = None)"

lemma renderer_sound_step: "renderer_sound r \<Longrightarrow> renderer_sound (fst (render_step r e))"
  by (cases e) (auto simp: renderer_sound_def draw_frame_def frame_decoded_def renderNext_def split: option.splits)

lemma frames_step:
  "renderer_sound r \<Longrightarrow>
   subseq (drawn (snd (render_step r e)) @ waiting_frames (fst (render_step r e))) (waiting_frames r @ arriving [e])"
  by (cases e) (auto simp: renderer_sound_def waiting_frames_def draw_frame_def frame_decoded_def renderNext_def split: option.splits)

lemma frames_run:
  "renderer_sound r \<Longrightarrow>
   subseq (drawn (snd (run_steps render_step r es)) @ waiting_frames (fst (run_steps render_step r es))) (waiting_frames r @ arriving es)"
proof (induction es arbitrary: r)
  case (Cons e es)
  let ?r1 = "fst (render_step r e)"
  have "subseq (drawn (snd (run_steps render_step ?r1 es)) @ waiting_frames (fst (run_steps render_step ?r1 es)))
      (waiting_frames ?r1 @ arriving es)"
    using Cons.IH [OF renderer_sound_step [OF Cons.prems]] .
  then have "subseq (drawn (snd (render_step r e)) @ drawn (snd (run_steps render_step ?r1 es)) @
        waiting_frames (fst (run_steps render_step ?r1 es)))
      ((drawn (snd (render_step r e)) @ waiting_frames ?r1) @ arriving es)"
    by (simp add: subseq_append_iff) (metis list_emb_append_mono subseq_order.refl)
  also have "subseq \<dots> ((waiting_frames r @ arriving [e]) @ arriving es)"
    using frames_step [OF Cons.prems] by (rule list_emb_append_mono) simp
  also have "(waiting_frames r @ arriving [e]) @ arriving es = waiting_frames r @ arriving (e # es)"
    by (cases e) simp_all
  finally show ?case by (simp del: render_step.simps)
qed simp

text \<open>The picture of a window never goes back: the frames drawn are a subsequence of the frames received, in
  their order, and a frame that is still to be drawn comes after all of them.\<close>

theorem frames_drawn_in_order:
  "subseq (drawn (snd (run_steps render_step \<lparr>decoding = None, pending_frame = None, canvas_size = sz\<rparr> es)))
     (arriving es)"
proof -
  let ?r = "\<lparr>decoding = None, pending_frame = None, canvas_size = sz\<rparr>"
  have "subseq (drawn (snd (run_steps render_step ?r es)) @ waiting_frames (fst (run_steps render_step ?r es)))
      (waiting_frames ?r @ arriving es)"
    by (rule frames_run) (simp add: renderer_sound_def)
  then have "subseq (drawn (snd (run_steps render_step ?r es))) (waiting_frames ?r @ arriving es)"
    by (rule subseq_order.trans [OF prefix_imp_subseq, rotated]) simp
  then show ?thesis by (simp add: waiting_frames_def)
qed

text \<open>The newest frame is always shown: when it has arrived, the decoder has at most to finish the frame it is at
  and then this one, however many came between.\<close>

theorem newest_frame_is_shown:
  assumes "renderer_sound r" "es = DrawFrame f # (if decoding r = None then [] else [FrameDecoded ok]) @ [FrameDecoded True]"
  shows "decoding (fst (run_steps render_step r es)) = None \<and> pending_frame (fst (run_steps render_step r es)) = None \<and>
    canvas_size (fst (run_steps render_step r es)) = wf_size f \<and> drawn (snd (run_steps render_step r es)) \<noteq> [] \<and>
    last (drawn (snd (run_steps render_step r es))) = f"
proof (cases "decoding r")
  case None
  then show ?thesis
    by (simp add: assms(2) draw_frame_def frame_decoded_def renderNext_def)
next
  case (Some g)
  then show ?thesis
    by (simp add: assms(2) draw_frame_def frame_decoded_def renderNext_def)
qed

section \<open>Input on a window\<close>

definition in_unit :: "point \<Rightarrow> bool" where
  "in_unit p \<longleftrightarrow> 0 \<le> fst p \<and> fst p \<le> 1 \<and> 0 \<le> snd p \<and> snd p \<le> 1"

fun msg_in_window :: "window_msg \<Rightarrow> bool" where
  "msg_in_window (PointerMsg a p b) = (in_unit p \<and> b \<le> 2)"
| "msg_in_window (ScrollMsg p dx dy) = (in_unit p \<and> \<bar>dx\<bar> \<le> 4000 \<and> \<bar>dy\<bar> \<le> 4000)"
| "msg_in_window (KeyMsg c d m) = (c \<noteq> [])"

definition input_sound :: "win_input \<Rightarrow> bool" where
  "input_sound s \<longleftrightarrow> in_unit (touchPoint s) \<and> (\<forall>p. pendingTouchPoint s = Some p \<longrightarrow> in_unit p)"

lemma in_unit_normalized [simp]: "in_unit (normalized r p)"
  by (simp add: in_unit_def normalized_def clamp_def)

lemma in_unit_eq: "normalized r p = (a, b) \<Longrightarrow> in_unit (a, b)"
  by (metis in_unit_normalized)

lemma clamp_abs [simp]: "\<bar>clamp (- 4000) 4000 v\<bar> \<le> 4000"
  by (simp add: clamp_def abs_le_iff)

lemma input_bounds_step:
  "input_sound s \<Longrightarrow> input_sound (fst (input_step s e)) \<and> list_all msg_in_window (snd (input_step s e))"
  by (cases "(s, e)" rule: input_step.cases)
     (auto simp: input_sound_def onPointerDown_w_def onPointerMove_w_def onPointerUp_w_def onWheel_def onKey_def flushMove_def
        flushTouchMove_def onTouchStart_def onTouchMove_def onTouchEnd_def pointerButton_def input_cleanup_def Let_def
        dest: in_unit_eq split: option.splits list.splits)

text \<open>What the browser sends stays in the window: in every run each pointer message has both coordinates between 0
  and 1 and a button of at most 2, each scroll moves by at most 4000 either way, and each key has a code.\<close>

theorem input_stays_in_window: "list_all msg_in_window (snd (run_steps input_step new_win_input es))"
proof -
  have "input_sound s \<Longrightarrow> list_all msg_in_window (snd (run_steps input_step s es))" for s
  proof (induction es arbitrary: s)
    case (Cons e es)
    then show ?case using input_bounds_step [OF Cons.prems, of e] by (simp del: input_step.simps)
  qed simp
  then show ?thesis by (simp add: input_sound_def new_win_input_def in_unit_def)
qed

text \<open>The press and release of the button that touches send.\<close>

fun presses :: "window_msg \<Rightarrow> int" where
  "presses (PointerMsg a p b) = (if a = ''down'' then 1 else if a = ''up'' then - 1 else 0)"
| "presses _ = 0"

fun by_mouse :: "input_event \<Rightarrow> bool" where
  "by_mouse (PtrDown e) = (\<not> is_touch e)"
| "by_mouse (PtrUp e) = (\<not> is_touch e)"
| "by_mouse _ = False"

lemma touch_balance_step:
  assumes "\<not> by_mouse (snd (snd e))"
  shows "sum_list (map presses (snd (input_step s e))) =
    (if touchId (fst (input_step s e)) = None then 0 else 1) - (if touchId s = None then 0 else 1)"
  using assms
  by (cases "(s, e)" rule: input_step.cases)
     (auto simp: onPointerDown_w_def onPointerMove_w_def onPointerUp_w_def onWheel_def onKey_def flushMove_def
        flushTouchMove_def onTouchStart_def onTouchMove_def onTouchEnd_def input_cleanup_def Let_def split: option.splits list.splits)

text \<open>A finger never leaves the button pressed: whatever the touches do, with however many fingers, and even if
  control is disabled while one is down, the presses sent exceed the releases by one exactly while a touch
  is followed, and by none otherwise.\<close>

theorem touches_release_the_button:
  assumes "list_all (\<lambda>e. \<not> by_mouse (snd (snd e))) es"
  shows "sum_list (map presses (snd (run_steps input_step new_win_input es))) =
    (if touchId (fst (run_steps input_step new_win_input es)) = None then 0 else 1)"
proof -
  have "sum_list (map presses (snd (run_steps input_step s es))) =
      (if touchId (fst (run_steps input_step s es)) = None then 0 else 1) - (if touchId s = None then 0 else 1)" for s
    using assms
  proof (induction es arbitrary: s)
    case (Cons e es)
    then show ?case using touch_balance_step [of e s] by (simp del: input_step.simps)
  qed simp
  then show ?thesis by (simp add: new_win_input_def)
qed

text \<open>A mouse can leave the button pressed: when control is disabled between the press and the release, the release
  is not sent, and as long as control stays disabled nothing is.\<close>

theorem mouse_button_stays_pressed:
  assumes "\<not> is_touch e" "list_all (\<lambda>(c, r, ev). \<not> c \<and> (\<nexists>ch fs. ev = TouchEnd ch fs)) es"
  shows "snd (run_steps input_step new_win_input ((True, r, PtrDown e) # (False, r, PtrUp u) # es)) =
    [PointerMsg ''down'' (normalized r (ptr_at e)) (pointerButton e)]"
proof -
  have "snd (run_steps input_step s es) = []" for s
    using assms(2)
  proof (induction es arbitrary: s)
    case (Cons x es)
    obtain c r' ev where x: "x = (c, r', ev)" by (cases x)
    with Cons.prems have "snd (input_step s x) = []"
      by (cases ev) (auto simp: onPointerDown_w_def onPointerMove_w_def onPointerUp_w_def onWheel_def onKey_def flushMove_def
          flushTouchMove_def onTouchStart_def onTouchMove_def Let_def split: option.split list.split)
    then show ?case using Cons by (simp del: input_step.simps)
  qed simp
  then show ?thesis
    using assms(1) by (simp add: onPointerDown_w_def onPointerUp_w_def new_win_input_def)
qed

text \<open>A mouse drags after it has let go: a move waits for the next animation frame and a release does not, so that
  a move and a release within one frame are sent in the wrong order, the drag with its button after the
  release.\<close>

theorem drag_follows_release:
  assumes "\<not> is_touch m" "\<not> is_touch u" "ptr_buttons m = 1"
  shows "snd (run_steps input_step new_win_input [(True, r, PtrMove m), (True, r, PtrUp u), (True, r, MoveFrame)]) =
    [PointerMsg ''up'' (normalized r (ptr_at u)) (pointerButton u), PointerMsg ''drag'' (normalized r (ptr_at m)) 0]"
  using assms by (simp add: onPointerMove_w_def onPointerUp_w_def flushMove_def new_win_input_def Let_def bit_1_iff)

section \<open>Touches as a mouse\<close>

fun mouse_presses :: "mouse \<Rightarrow> int" where
  "mouse_presses (MouseDown p) = 1"
| "mouse_presses (MouseUp p) = - 1"
| "mouse_presses (MouseMove p) = 0"

text \<open>The VNC client sees whole gestures: as long as its canvas is there, it gets one press per followed touch and
  the release of each before the next.\<close>

theorem touch_bridge_releases:
  assumes "list_all (\<lambda>(c, there, ev). there) es" "q = run_steps tb_step \<lparr>tb_touch = None, tb_last = p\<rparr> es"
  shows "sum_list (map mouse_presses (snd q)) = (if tb_touch (fst q) = None then 0 else 1)"
proof -
  have step: "sum_list (map mouse_presses (snd (tb_step s (c, True, ev)))) =
      (if tb_touch (fst (tb_step s (c, True, ev))) = None then 0 else 1) - (if tb_touch s = None then 0 else 1)" for s c ev
    by (cases ev) (auto simp: tb_start_def tb_move_def tb_end_def dispatchMouse_def Let_def split: option.splits list.splits)
  have "sum_list (map mouse_presses (snd (run_steps tb_step s es))) =
      (if tb_touch (fst (run_steps tb_step s es)) = None then 0 else 1) - (if tb_touch s = None then 0 else 1)" for s
    using assms(1)
  proof (induction es arbitrary: s)
    case (Cons e es)
    then obtain c ev where "e = (c, True, ev)" by (cases e) auto
    then show ?case using Cons step [of s c ev] by (simp del: tb_step.simps)
  qed simp
  then show ?thesis by (simp add: assms(2))
qed

section \<open>The page\<close>

fun acts_on_mac :: "desk_out \<Rightarrow> bool" where
  "acts_on_mac (RfbKey k c) = True"
| "acts_on_mac (RfbPaste t) = True"
| "acts_on_mac (WindowSend v) = True"
| "acts_on_mac _ = False"

definition desk_sound :: "desk \<Rightarrow> bool" where
  "desk_sound s \<longleftrightarrow>
     viewOnly s \<in> {None, Some (\<not> controlEnabled s)} \<and> (picker_shown s = (d_mode s = NoSource)) \<and>
     (d_mode s = NoSource \<longrightarrow> \<not> controlEnabled s \<and> viewOnly s = None \<and> \<not> gate_shown s)"

lemmas desk_defs = control_click_def setControls_def special_key_def clipboard_click_def typing_submit_def
  startFullDesktop_def rfb_connected_def rfb_wants_credentials_def rfb_refused_def rfb_gone_def credentials_submit_def
  startWindow_def window_closed_def

lemmas desk_list_defs = loadWindows_def refresh_windows_def windows_listed_def chooseSource_def fullscreen_click_def
  keyboard_click_def new_desk_def Let_def

lemma desk_sound_step: "desk_sound s \<Longrightarrow> desk_sound (fst (desk_step s e))"
  by (cases e)
     (auto simp: desk_sound_def desk_defs desk_list_defs split: option.splits sum.splits fullscreen_answer.splits)

lemma control_guards: "\<not> controlEnabled s \<Longrightarrow> filter acts_on_mac (snd (desk_step s e)) = []"
  by (cases e)
     (auto simp: desk_defs desk_list_defs)


text \<open>The page calls a dead stream live: the control button does not look at the stream, so that pressing it before
  the window has opened, or after it has closed, shows \<open>Live\<close> and control as enabled.\<close>

theorem closed_window_called_live:
  assumes "picker_shown s" "w \<in> set (offered s)"
  shows "d_label (fst (run_steps desk_step s [ChooseWindow w, ControlClick])) = (live_label (\<not> controlEnabled s), Online) \<and>
    snd (d_label (fst (run_steps desk_step s [ChooseWindow w, WindowOpens, WindowCloses reason]))) = Offline \<and>
    d_label (fst (run_steps desk_step s [ChooseWindow w, WindowOpens, WindowCloses reason, ControlClick])) = (live_label True, Online)"
  using assms by (simp add: startWindow_def control_click_def setControls_def window_closed_def Let_def)

text \<open>Where the VNC client cannot be made, the page still offers control: a press of the button shows \<open>Live\<close>, and
  the text typed then is taken out of the field and goes nowhere.\<close>

theorem text_lost_without_client:
  assumes "d_mode s = NoSource" "picker_shown s" "\<not> controlEnabled s" "viewOnly s = None" "t \<noteq> []"
  shows "let r = run_steps desk_step s [ChooseDesktop False msg, ControlClick, TypeDesk t, TypingSubmit] in
    snd r = [OpenDesktop, CloseDesktopLink] \<and> typed (fst r) = [] \<and> d_label (fst r) = (live_label True, Online)"
  using assms by (simp add: startFullDesktop_def control_click_def setControls_def typing_submit_def Let_def)

text \<open>Where an offer comes from: a list that the page had asked for, that reports the permissions, and after which
  no other list was asked for.\<close>

definition offered_since :: "desk_event list \<Rightarrow> desk_event list \<Rightarrow> desk_window \<Rightarrow> bool" where
  "offered_since pre mid w \<longleftrightarrow>
     (\<exists>n l before. pre = before @ [WindowsListed n (Inl l)] \<and>
        list_asked (fst (run_steps desk_step new_desk before)) = Some n \<and>
        wl_supported l \<and> wl_recording l \<and> w \<in> set (wl_sources l) \<and>
        (\<forall>m. ListWindows m \<notin> set (snd (run_steps desk_step (fst (run_steps desk_step new_desk pre)) mid))))"

lemma offered_step:
  "offered (fst (desk_step s e)) = offered s \<and> (\<forall>m. ListWindows m \<notin> set (snd (desk_step s e))) \<or>
   offered (fst (desk_step s e)) = [] \<or>
   (\<exists>n l. e = WindowsListed n (Inl l) \<and> list_asked s = Some n \<and> offered (fst (desk_step s e)) = offers l)"
  by (cases e)
     (auto simp: desk_defs desk_list_defs split: option.splits sum.splits fullscreen_answer.splits)

lemma offered_origin:
  "w \<in> set (offered (fst (run_steps desk_step new_desk es))) \<Longrightarrow> \<exists>pre mid. es = pre @ mid \<and> offered_since pre mid w"
proof (induction es rule: rev_induct)
  case (snoc e es)
  let ?s = "fst (run_steps desk_step new_desk es)"
  have w: "w \<in> set (offered (fst (desk_step ?s e)))" using snoc.prems by (simp add: run_steps_append del: desk_step.simps)
  consider "offered (fst (desk_step ?s e)) = offered ?s" "\<forall>m. ListWindows m \<notin> set (snd (desk_step ?s e))"
    | n l where "e = WindowsListed n (Inl l)" "list_asked ?s = Some n" "offered (fst (desk_step ?s e)) = offers l"
    using offered_step [of ?s e] w by auto
  then show ?case
  proof cases
    case 1
    then obtain pre mid where o: "es = pre @ mid" "offered_since pre mid w" using snoc.IH w by auto
    have "offered_since pre (mid @ [e]) w"
      using o 1(2) by (auto simp: offered_since_def run_steps_append simp del: desk_step.simps)
    then show ?thesis using o(1) by (intro exI [of _ pre] exI [of _ "mid @ [e]"]) simp
  next
    case 2
    then have "offered_since (es @ [e]) [] w" using w by (auto simp: offered_since_def offers_def split: if_splits)
    then show ?thesis by (intro exI [of _ "es @ [e]"] exI [of _ "[]"]) simp
  qed
qed (simp add: new_desk_def)

text \<open>C25. A window is streamed only if it was offered: whenever the page opens the stream of a window, the user has
  chosen it from the last list the page had asked for, and that list said that windows can be recorded.\<close>

theorem window_stream_was_offered:
  assumes "OpenWindow i width height \<in> set (snd (run_steps desk_step new_desk es))"
  shows "\<exists>pre mid w post. es = pre @ mid @ ChooseWindow w # post \<and> wsrc_id w = i \<and> offered_since pre mid w"
proof -
  obtain before e post where r: "es = before @ e # post"
    "OpenWindow i width height \<in> set (snd (desk_step (fst (run_steps desk_step new_desk before)) e))"
    using run_output_split [OF assms] by blast
  then obtain w where w: "e = ChooseWindow w" "wsrc_id w = i" "w \<in> set (offered (fst (run_steps desk_step new_desk before)))"
    by (cases e) (auto simp: desk_defs desk_list_defs split: option.splits sum.splits fullscreen_answer.splits if_splits)
  obtain pre mid where o: "before = pre @ mid" "offered_since pre mid w" using offered_origin [OF w(3)] by blast
  have "es = pre @ mid @ ChooseWindow w # post" using r(1) o(1) w(1) by simp
  then show ?thesis using w(2) o(2) by blast
qed

section \<open>Examples\<close>

definition demo_frame :: window_frame where
  "demo_frame = \<lparr>wf_data = [1], wf_size = (Fin 16, Fin 12)\<rparr>"

theorem newest_frame_is_shown_witness:
  "last (drawn (snd (run_steps render_step \<lparr>decoding = Some demo_frame, pending_frame = Some demo_frame, canvas_size = (Fin 1, Fin 1)\<rparr>
     [DrawFrame (demo_frame\<lparr>wf_data := [2]\<rparr>), FrameDecoded False, FrameDecoded True]))) = demo_frame\<lparr>wf_data := [2]\<rparr>"
proof -
  let ?r = "\<lparr>decoding = Some demo_frame, pending_frame = Some demo_frame, canvas_size = (Fin 1, Fin 1)\<rparr>"
  have "renderer_sound ?r" by (simp add: renderer_sound_def)
  from newest_frame_is_shown [OF this, of "[DrawFrame (demo_frame\<lparr>wf_data := [2]\<rparr>), FrameDecoded False, FrameDecoded True]"
      "demo_frame\<lparr>wf_data := [2]\<rparr>" False]
  show ?thesis by simp
qed

definition demo_rect :: rect where
  "demo_rect = \<lparr>r_left = 0, r_top = 0, r_width = 100, r_height = 50\<rparr>"

definition demo_mouse :: "nat \<Rightarrow> ptr" where
  "demo_mouse buttons = \<lparr>is_touch = False, ptr_at = (50, 25), ptr_button = 0, ptr_buttons = buttons\<rparr>"

definition demo_finger :: finger where
  "demo_finger = \<lparr>ident = 7, finger_at = (10, 10)\<rparr>"

theorem touches_release_the_button_witness:
  "sum_list (map presses (snd (run_steps input_step new_win_input
     [(True, demo_rect, TouchStart [demo_finger]), (False, demo_rect, TouchEnd [demo_finger] [])]))) = 0"
  using touches_release_the_button [of "[(True, demo_rect, TouchStart [demo_finger]), (False, demo_rect, TouchEnd [demo_finger] [])]"]
  by (simp add: onTouchStart_def onTouchEnd_def findTouch_def new_win_input_def demo_finger_def Let_def)

theorem mouse_button_stays_pressed_witness:
  "snd (run_steps input_step new_win_input
     [(True, demo_rect, PtrDown (demo_mouse 1)), (False, demo_rect, PtrUp (demo_mouse 0)), (False, demo_rect, PtrMove (demo_mouse 0))]) =
   [PointerMsg ''down'' (normalized demo_rect (50, 25)) 0]"
proof -
  have "\<not> is_touch (demo_mouse 1)" by (simp add: demo_mouse_def)
  from mouse_button_stays_pressed [OF this, of "[(False, demo_rect, PtrMove (demo_mouse 0))]" demo_rect "demo_mouse 0"]
  show ?thesis by (simp add: demo_mouse_def pointerButton_def onPointerUp_w_def del: input_step.simps)
qed

theorem drag_follows_release_witness:
  "snd (run_steps input_step new_win_input
     [(True, demo_rect, PtrMove (demo_mouse 1)), (True, demo_rect, PtrUp (demo_mouse 0)), (True, demo_rect, MoveFrame)]) =
   [PointerMsg ''up'' (normalized demo_rect (50, 25)) 0, PointerMsg ''drag'' (normalized demo_rect (50, 25)) 0]"
proof -
  have "\<not> is_touch (demo_mouse 1)" "\<not> is_touch (demo_mouse 0)" "ptr_buttons (demo_mouse 1) = 1"
    by (simp_all add: demo_mouse_def)
  from drag_follows_release [OF this, of demo_rect] show ?thesis
    by (simp add: demo_mouse_def pointerButton_def del: input_step.simps)
qed

theorem touch_bridge_releases_witness:
  "sum_list (map mouse_presses (snd (run_steps tb_step \<lparr>tb_touch = None, tb_last = (0, 0)\<rparr>
     [(True, True, TouchStart [demo_finger]), (True, True, TouchEnd [demo_finger] [])]))) = 0"
  using touch_bridge_releases [OF _ refl, of "[(True, True, TouchStart [demo_finger]), (True, True, TouchEnd [demo_finger] [])]" "(0, 0)"]
  by (simp add: tb_start_def tb_end_def findTouch_def demo_finger_def Let_def)

definition demo_source :: desk_window where
  "demo_source = \<lparr>wsrc_id = 42, wsrc_name = (js ''Safari'', js ''News'')\<rparr>"

definition demo_listing :: window_listing where
  "demo_listing = \<lparr>wl_sources = [demo_source], wl_supported = True, wl_recording = True, wl_accessibility = True, wl_error = None\<rparr>"

definition demo_desk_run :: "desk_event list" where
  "demo_desk_run = [WindowsListed 0 (Inl demo_listing), ChooseWindow demo_source, WindowOpens]"

theorem window_stream_was_offered_witness:
  "\<exists>pre mid w post. demo_desk_run = pre @ mid @ ChooseWindow w # post \<and> wsrc_id w = 42 \<and> offered_since pre mid w"
  by (rule window_stream_was_offered [of 42 1600 1200])
     (simp add: demo_desk_run_def demo_listing_def demo_source_def new_desk_def windows_listed_def offers_def startWindow_def)

theorem text_lost_without_client_witness:
  "snd (run_steps desk_step new_desk [ChooseDesktop False [], ControlClick, TypeDesk (js ''ls''), TypingSubmit]) =
     [OpenDesktop, CloseDesktopLink]"
proof -
  have "d_mode new_desk = NoSource" "picker_shown new_desk" "\<not> controlEnabled new_desk" "viewOnly new_desk = None" "js ''ls'' \<noteq> []"
    by (simp_all add: new_desk_def js_def)
  from text_lost_without_client [OF this, of "[]"] show ?thesis by (simp add: Let_def)
qed

end
