(* ===== verification/TouchScrollSafety.thy ===== *)
theory TouchScrollSafety
  imports TouchScroll
begin

text \<open>
  Properties of touch on a terminal: movements become wheel reports exactly, corrections of the position
  never become input, the lines asked for exist, the layout keeps its last valid value, and the text read
  out of the buffer is that of its lines.
\<close>

section \<open>Scrolling\<close>

lemma wheel_step_bounds: "24 \<le> wheel_step h" "wheel_step h \<le> 72"
  by (simp_all add: wheel_step_def)

lemma wheel_sum: "sum_list (map (\<lambda>v. case v of WheelReport d \<Rightarrow> d | _ \<Rightarrow> 0) (map WheelReport (replicate n x))) = int n * x"
  by (simp add: sum_list_replicate)

fun wheel_total :: "scroll_out list \<Rightarrow> int" where
  "wheel_total [] = 0"
| "wheel_total (WheelReport d # outs) = d + wheel_total outs"
| "wheel_total (_ # outs) = wheel_total outs"

lemma wheel_total_append [simp]: "wheel_total (outs @ outs') = wheel_total outs + wheel_total outs'"
  by (induction outs rule: wheel_total.induct) simp_all

lemma wheel_total_replicate: "wheel_total (map WheelReport (replicate n d)) = int n * d"
  by (induction n) (simp_all add: distrib_right)

text \<open>The scrolls of a swipe over a full-screen program whose rows have the height \<open>h\<close>.\<close>

definition swipe :: "surroundings \<Rightarrow> rat list \<Rightarrow> (surroundings \<times> scroll_event) list" where
  "swipe w ps = map (\<lambda>p. (w, Scrolled p)) ps"

text \<open>No two positions of the swipe are further apart than eleven wheel steps.\<close>

fun gentle :: "rat \<Rightarrow> rat \<Rightarrow> rat list \<Rightarrow> bool" where
  "gentle t p [] = True"
| "gentle t p (q # qs) = (\<bar>q - p\<bar> \<le> 11 * t \<and> gentle t q qs)"

lemma consume_exact:
  fixes p c r t :: rat
  assumes "0 < t" "\<bar>r\<bar> < t" "\<bar>p - c\<bar> \<le> 11 * t"
  shows "of_int (wheel_total (map WheelReport (directions (consumeTouchWheel (Fin p) (Fin c) (Fin r) (Fin t))))) * t +
      num_rat (remainder (consumeTouchWheel (Fin p) (Fin c) (Fin r) (Fin t))) = r + p - c"
    and "\<bar>num_rat (remainder (consumeTouchWheel (Fin p) (Fin c) (Fin r) (Fin t)))\<bar> < t"
proof -
  have d: "max (- t * 12) (min (t * 12) (r + p - c)) = r + p - c"
    using assms by (auto simp: abs_le_iff abs_less_iff max_def min_def)
  have "\<bar>r + p - c\<bar> \<le> t * 12" using assms by linarith
  from trunc_bounds [OF assms(1) this]
  have b: "\<bar>(r + p - c) - of_int (trunc ((r + p - c) / t)) * t\<bar> < t" by simp
  have e: "consumeTouchWheel (Fin p) (Fin c) (Fin r) (Fin t) =
      \<lparr>directions = replicate (nat \<bar>trunc ((r + p - c) / t)\<bar>) (sgn (trunc ((r + p - c) / t))),
       remainder = Fin (r + p - c - of_int (trunc ((r + p - c) / t)) * t)\<rparr>"
    using assms(1) d by (simp add: consumeTouchWheel_def Let_def)
  show "of_int (wheel_total (map WheelReport (directions (consumeTouchWheel (Fin p) (Fin c) (Fin r) (Fin t))))) * t +
      num_rat (remainder (consumeTouchWheel (Fin p) (Fin c) (Fin r) (Fin t))) = r + p - c"
    unfolding e by (simp add: wheel_total_replicate num_rat_def abs_mult_sgn del: map_replicate)
  show "\<bar>num_rat (remainder (consumeTouchWheel (Fin p) (Fin c) (Fin r) (Fin t)))\<bar> < t"
    using b unfolding e by (simp add: num_rat_def)
qed

lemma swipe_exact:
  assumes "alternate w" "row_height w = Some h" "\<not> selecting w"
  shows "\<not> ignoring s \<Longrightarrow> \<bar>touch_rest s\<bar> < wheel_step h \<Longrightarrow> gentle (wheel_step h) (tui_anchor s) ps \<Longrightarrow>
    of_int (wheel_total (snd (run_steps scroll_step s (swipe w ps)))) * wheel_step h +
      touch_rest (fst (run_steps scroll_step s (swipe w ps))) =
    touch_rest s + last (tui_anchor s # ps) - tui_anchor s \<and>
    \<bar>touch_rest (fst (run_steps scroll_step s (swipe w ps)))\<bar> < wheel_step h"
proof (induction ps arbitrary: s)
  case (Cons p ps)
  let ?t = "wheel_step h"
  let ?c = "consumeTouchWheel (Fin p) (Fin (tui_anchor s)) (Fin (touch_rest s)) (Fin ?t)"
  have t: "0 < ?t" using wheel_step_bounds(1) [of h] by linarith
  have g: "\<bar>p - tui_anchor s\<bar> \<le> 11 * ?t" "gentle ?t p ps" using Cons.prems(3) by simp_all
  note c = consume_exact [OF t Cons.prems(2) g(1)]
  define s1 where "s1 = s\<lparr>scroll_top := p, tui_anchor := p, touch_rest := num_rat (remainder ?c), recenter_timer := True\<rparr>"
  have step: "scroll_step s (w, Scrolled p) = (s1, map WheelReport (directions ?c))"
    using assms Cons.prems(1) by (simp add: onNativeScroll_def Let_def s1_def)
  have s1: "\<not> ignoring s1" "\<bar>touch_rest s1\<bar> < ?t" "gentle ?t (tui_anchor s1) ps" "tui_anchor s1 = p"
    using Cons.prems(1) c(2) g(2) by (simp_all add: s1_def)
  from Cons.IH [OF s1(1-3)] c(1)
  show ?case
    by (simp add: swipe_def step s1(4) s1_def distrib_right del: scroll_step.simps)
qed (simp add: swipe_def)


text \<open>Only a finger or a wheel makes scrolling input.\<close>

fun by_hand :: "scroll_event \<Rightarrow> bool" where
  "by_hand (FingerDown _) = True"
| "by_hand TrustedWheel = True"
| "by_hand _ = False"

fun scrolls :: "scroll_out \<Rightarrow> bool" where
  "scrolls FocusTerminal = False"
| "scrolls _ = True"

lemma native_sync_ignoring: "ignoring s \<Longrightarrow> ignoring (syncNativeScroller w force s)"
  by (simp add: syncNativeScroller_def Let_def split: option.split)

lemma ignoring_step:
  assumes "ignoring s" "\<not> by_hand (snd e)"
  shows "ignoring (fst (scroll_step s e)) \<and> filter scrolls (snd (scroll_step s e)) = []"
  using assms
  by (cases "(s, e)" rule: scroll_step.cases)
     (auto simp: onNativeScroll_def onTUITouchMove_def onTUITouchEnd_def resetTouch_def scheduleSync_def sync_frame_def
        syncCursorTarget_def syncTUIScroller_def to_center_def recenter_fires_def syncInputMode_def align_scroll_def
        native_sync_ignoring Let_def split: option.split)

text \<open>A correction of the position is not input: after the rows of the terminal have been aligned, whatever the browser
  and the emulator report, delayed scroll events of the old geometry included, nothing is scrolled and no
  wheel report is sent until a finger or a wheel touches the terminal.\<close>

theorem corrections_are_not_input:
  assumes "list_all (\<lambda>(w, e). \<not> by_hand e) es"
  shows "filter scrolls (snd (run_steps scroll_step s ((w, Align) # es))) = []"
proof -
  have "ignoring s \<Longrightarrow> filter scrolls (snd (run_steps scroll_step s es)) = []" for s
    using assms
  proof (induction es arbitrary: s)
    case (Cons e es)
    then show ?case using ignoring_step [of s e] by (auto simp del: scroll_step.simps)
  qed simp
  moreover have "ignoring (fst (scroll_step s (w, Align)))"
    by (simp add: align_scroll_def syncTUIScroller_def to_center_def native_sync_ignoring Let_def)
  ultimately show ?thesis by simp
qed

text \<open>The line that the terminal is scrolled to exists: it is at most the length of the buffer less the rows of the
  screen, and it is not the line already shown.\<close>

theorem scrolled_line_exists:
  assumes "ScrollToLine n \<in> set (snd (scroll_step s (w, e)))"
  shows "n \<le> buf_length w - e_rows w \<and> n \<noteq> buf_viewportY w"
  using assms
  by (cases e) (auto simp: onNativeScroll_def onTUITouchEnd_def Let_def split: option.splits if_splits)

section \<open>Layout\<close>

definition valid_layout :: "page_layout \<Rightarrow> bool" where
  "valid_layout l \<longleftrightarrow>
     at_least 160 (l_height l) \<and> at_least 240 (l_width l) \<and> \<not> num_less (l_top l) (Fin 0) \<and> \<not> num_less (l_left l) (Fin 0)"

lemma not_negative_ok [simp]: "\<not> num_less (not_negative n) (Fin 0)"
  by (cases n) (simp_all add: not_negative_def)

lemma valid_sync: "pred_option valid_layout (layout_set s) \<Longrightarrow> pred_option valid_layout (layout_set (fst (sync_layout v s)))"
  by (simp add: sync_layout_def valid_layout_def Let_def)

lemma valid_sizing_step: "pred_option valid_layout (layout_set s) \<Longrightarrow> pred_option valid_layout (layout_set (fst (sizing_step s e)))"
  using valid_sync [of s]
  by (cases "(s, e)" rule: sizing_step.cases) (auto simp: schedule_layout_def settle_layout_def case_prod_beta Let_def)

text \<open>The terminal page never collapses: whatever sizes the browser reports, zero and values that are no numbers
  included, the layout in force is at least 160 by 240 with offsets that are not negative.\<close>

theorem layout_stays_valid: "pred_option valid_layout (layout_set (fst (run_steps sizing_step (new_sizing v) es)))"
proof -
  have "pred_option valid_layout (layout_set (new_sizing v))"
    unfolding new_sizing_def by (rule valid_sync) simp
  then show ?thesis by (rule run_steps_invariant) (rule valid_sizing_step)
qed

section \<open>Text of the buffer\<close>

text \<open>The lines as the program wrote them: a wrapped line belongs to the one before.\<close>

definition logical_lines :: "(jsstring \<times> bool) list \<Rightarrow> jsstring list" where
  "logical_lines ls =
     foldl (\<lambda>acc (t, wrapped). if wrapped \<and> acc \<noteq> [] then butlast acc @ [last acc @ t] else acc @ [t]) [] ls"

lemma join_snoc: "acc \<noteq> [] \<Longrightarrow> join sep (acc @ [t]) = join sep acc @ sep @ t"
  by (induction sep acc rule: join.induct) simp_all

lemma join_last: "acc \<noteq> [] \<Longrightarrow> join sep (butlast acc @ [last acc @ t]) = join sep acc @ t"
  by (induction sep acc rule: join.induct) (auto simp: join_snoc)

lemma join_Nil_iff: "acc \<noteq> [] \<Longrightarrow> hd acc \<noteq> [] \<Longrightarrow> join sep acc \<noteq> []"
  by (induction sep acc rule: join.induct) simp_all

text \<open>Reading the buffer gives the lines of the programs: the rows of the screen, glued where the emulator had
  wrapped them and separated by line feeds elsewhere, if the first row is not blank.\<close>

theorem buffer_text_is_logical_lines:
  assumes "t \<noteq> []"
  shows "terminalBufferText (map Some ((t, wrapped) # ls)) 0 (int (length ls) + 1) = join [10] (logical_lines ((t, wrapped) # ls))"
proof -
  let ?glue = "\<lambda>acc (t, wrapped). if wrapped \<and> acc \<noteq> [] then butlast acc @ [last acc @ t] else acc @ [t]"
  have "foldl append_line (join [10] acc) (map Some ls) = join [10] (foldl ?glue acc ls)"
    if "acc \<noteq> []" "hd acc \<noteq> []" for acc
    using that
  proof (induction ls arbitrary: acc)
    case (Cons l ls)
    obtain u w where l: "l = (u, w)" by (cases l)
    have n: "join [10] acc \<noteq> []" using Cons.prems by (rule join_Nil_iff)
    have a: "join [10] (?glue acc (u, w)) = append_line (join [10] acc) (Some (u, w))"
      using n Cons.prems(1) by (simp add: join_snoc join_last)
    have "?glue acc (u, w) \<noteq> []" "hd (?glue acc (u, w)) \<noteq> []"
      using Cons.prems by (cases acc; cases "tl acc"; auto)+
    from Cons.IH [OF this] show ?case by (simp only: l list.map foldl_Cons a)
  qed simp
  from this [of "[t]"] assms show ?thesis
    by (simp add: terminalBufferText_def logical_lines_def nat_add_distrib)
qed

section \<open>Examples\<close>

definition demo_tui :: surroundings where
  "demo_tui = \<lparr>alternate = True, direct_mode = False, selecting = False, e_rows = 20, buf_length = 20, buf_viewportY = 0,
     cursor_line = 0, screen_height = 400, client_height = 400, clock = 0\<rparr>"

lemma demo_tui_height: "row_height demo_tui = Some 20"
  by (simp add: row_height_def rowHeight_def demo_tui_def)


theorem corrections_are_not_input_witness:
  "filter scrolls (snd (run_steps scroll_step (new_scroller demo_tui) [(demo_tui, Align), (demo_tui, Scrolled 10), (demo_tui, Rendered)])) = []"
  by (rule corrections_are_not_input) simp

definition demo_shell :: surroundings where
  "demo_shell = demo_tui\<lparr>alternate := False, buf_length := 100\<rparr>"

theorem scrolled_line_exists_witness: "10 \<le> buf_length demo_shell - e_rows demo_shell \<and> 10 \<noteq> buf_viewportY demo_shell"
proof -
  have half: "\<lfloor>(21 :: rat) / 2\<rfloor> = 10" by (simp add: floor_eq_iff)
  have "row_height demo_shell = Some 20"
    by (simp add: row_height_def rowHeight_def demo_shell_def demo_tui_def)
  then have "ScrollToLine 10 \<in> set (snd (scroll_step ((new_scroller demo_shell)\<lparr>ignoring := False\<rparr>) (demo_shell, Scrolled 200)))"
    using half by (simp add: onNativeScroll_def demo_shell_def demo_tui_def round_half_up_def Let_def)
  then show ?thesis by (rule scrolled_line_exists)
qed

theorem buffer_text_is_logical_lines_witness:
  "terminalBufferText [Some (js ''ab'', False), Some (js ''c'', True), Some (js ''d'', False)] 0 3 = js ''abc'' @ [10] @ js ''d''"
  using buffer_text_is_logical_lines [of "js ''ab''" False "[(js ''c'', True), (js ''d'', False)]"]
  by (simp add: logical_lines_def js_def)

end
