(* ===== verification/PageShell.thy ===== *)
theory PageShell
  imports Sessions Runs
begin

text \<open>
  What the pages of \<open>main.ts\<close> have in common: the button that installs the app (\<open>createInstallButton\<close>,
  \<open>syncInstallButtons\<close>), the navigation at the bottom (\<open>renderAppNavigation\<close>, \<open>markAppNavigationActive\<close>),
  the panel for a new terminal, and the buttons that are busy while a request of theirs is under way
  (\<open>openSavedTerminal\<close>, \<open>duplicateTerminal\<close>, \<open>stopFromDashboard\<close>, the form of \<open>renderCreatePanel\<close>).

  The properties: the install buttons offer exactly what the browser offers, the navigation marks one place,
  a busy button sends one request, and what the polling of the dashboard does to that.
\<close>

section \<open>Installing the app\<close>

text \<open>An offer of the browser is known by a number; \<open>in_shown\<close> are the prompts that await the choice of the user.
  A button is its \<open>hidden\<close> attribute.\<close>

record app_install =
  installPrompt :: "nat option"
  install_buttons :: "bool list"
  in_shown :: "nat list"

datatype install_event =
    BeforeInstall nat | AppInstalled | InstallClick nat | PromptEnds nat | InstallButtonMade | PageCleared

definition syncInstallButtons :: "app_install \<Rightarrow> app_install" where
  "syncInstallButtons s = s\<lparr>install_buttons := map (\<lambda>_. installPrompt s = None) (install_buttons s)\<rparr>"

definition createInstallButton :: "app_install \<Rightarrow> app_install" where
  "createInstallButton s = s\<lparr>install_buttons := install_buttons s @ [installPrompt s = None]\<rparr>"

text \<open>A click shows the prompt of the moment; whether it is accepted, dismissed or fails, in the end there is no
  offer any more. The output is the prompt that is shown.\<close>

definition install_click :: "nat \<Rightarrow> app_install \<Rightarrow> app_install \<times> nat list" where
  "install_click k s =
     (if length (install_buttons s) \<le> k \<or> install_buttons s ! k then (s, [])
      else case installPrompt s of
             None \<Rightarrow> (s, [])
           | Some n \<Rightarrow> (s\<lparr>in_shown := in_shown s @ [n]\<rparr>, [n]))"

definition prompt_ends :: "nat \<Rightarrow> app_install \<Rightarrow> app_install" where
  "prompt_ends n s =
     (if n \<notin> set (in_shown s) then s
      else syncInstallButtons (s\<lparr>in_shown := remove1 n (in_shown s), installPrompt := None\<rparr>))"

fun install_step :: "app_install \<Rightarrow> install_event \<Rightarrow> app_install \<times> nat list" where
  "install_step s (BeforeInstall n) = (syncInstallButtons (s\<lparr>installPrompt := Some n\<rparr>), [])"
| "install_step s AppInstalled = (syncInstallButtons (s\<lparr>installPrompt := None\<rparr>), [])"
| "install_step s (InstallClick k) = install_click k s"
| "install_step s (PromptEnds n) = (prompt_ends n s, [])"
| "install_step s InstallButtonMade = (createInstallButton s, [])"
| "install_step s PageCleared = (s\<lparr>install_buttons := []\<rparr>, [])"

definition no_install :: app_install where
  "no_install = \<lparr>installPrompt = None, install_buttons = [], in_shown = []\<rparr>"

definition buttons_agree :: "app_install \<Rightarrow> bool" where
  "buttons_agree s \<longleftrightarrow> set (install_buttons s) \<subseteq> {installPrompt s = None}"

lemma sync_agrees [simp]: "buttons_agree (syncInstallButtons s)"
  by (auto simp: buttons_agree_def syncInstallButtons_def)

interpretation installer: guarded_machine install_step buttons_agree "\<lambda>_ _. True"
proof
  show "buttons_agree (fst (install_step s e))" if "buttons_agree s" for s e
  proof (cases e)
    case (InstallClick k)
    then show ?thesis using that by (cases "installPrompt s") (simp_all add: install_click_def buttons_agree_def)
  next
    case (PromptEnds n)
    then show ?thesis using that by (simp add: prompt_ends_def)
  next
    case InstallButtonMade
    then show ?thesis using that by (simp add: createInstallButton_def buttons_agree_def)
  qed (use that in \<open>simp_all add: buttons_agree_def [of "_\<lparr>install_buttons := []\<rparr>"]\<close>)
qed

text \<open>The buttons offer what the browser offers: in every run each button of the page is shown exactly while there
  is an offer, and a click on a shown button opens the prompt of the latest one.\<close>

theorem install_buttons_offer:
  fixes es :: "install_event list" and k :: nat
  defines "s \<equiv> fst (run_steps install_step no_install es)"
  shows "set (install_buttons s) \<subseteq> {installPrompt s = None} \<and>
    snd (install_step s (InstallClick k)) =
      (case installPrompt s of Some n \<Rightarrow> if k < length (install_buttons s) then [n] else [] | None \<Rightarrow> [])"
proof -
  have "buttons_agree s"
    unfolding s_def by (rule installer.run_inv) (simp_all add: buttons_agree_def no_install_def guarded_all)
  then have agree: "set (install_buttons s) \<subseteq> {installPrompt s = None}" by (simp add: buttons_agree_def)
  have "install_buttons s ! k \<longleftrightarrow> installPrompt s = None" if "k < length (install_buttons s)"
    using agree nth_mem [OF that] by blast
  then show ?thesis
    using agree by (simp add: install_click_def split: option.split)
qed

text \<open>The end of an old prompt takes a new offer away: if the browser makes another offer while the prompt is
  shown, the choice of the user hides it unused.\<close>

theorem old_prompt_drops_new_offer:
  assumes "k < length (install_buttons s)" "\<not> install_buttons s ! k" "installPrompt s = Some n"
  shows "installPrompt (fst (run_steps install_step s [InstallClick k, BeforeInstall m, PromptEnds n])) = None"
  using assms by (simp add: install_click_def prompt_ends_def syncInstallButtons_def)

section \<open>The navigation and the panel for a new terminal\<close>

datatype app_destination = HomeDest | AiDest | DesktopDest | NewDest

record nav_item =
  nav_dest :: app_destination
  nav_label :: jsstring
  nav_current :: bool

definition renderAppNavigation :: "app_destination \<Rightarrow> nav_item list" where
  "renderAppNavigation active =
     map (\<lambda>(d, label). \<lparr>nav_dest = d, nav_label = js label, nav_current = (d = active)\<rparr>)
       [(HomeDest, ''Home''), (AiDest, ''AI Work''), (DesktopDest, ''Desktop''), (NewDest, ''New'')]"

definition markAppNavigationActive :: "app_destination \<Rightarrow> nav_item list \<Rightarrow> nav_item list" where
  "markAppNavigationActive d items = map (\<lambda>x. x\<lparr>nav_current := (nav_dest x = d)\<rparr>) items"

text \<open>The dashboard: \<open>create_expanded\<close> is the attribute of the button that opens the panel.\<close>

record home =
  home_nav :: "nav_item list"
  panel_hidden :: bool
  create_expanded :: bool
  name_focused :: bool

datatype home_event = HomeShown | NewShown | CreateClick | CancelCreate

definition new_home :: home where
  "new_home = \<lparr>home_nav = renderAppNavigation HomeDest, panel_hidden = True, create_expanded = False, name_focused = False\<rparr>"

definition renderSessionsWithCreate :: home where
  "renderSessionsWithCreate =
     new_home\<lparr>home_nav := markAppNavigationActive NewDest (home_nav new_home), panel_hidden := False, create_expanded := True,
       name_focused := True\<rparr>"

definition create_click :: "home \<Rightarrow> home" where
  "create_click s =
     (let h = \<not> panel_hidden s in
      s\<lparr>panel_hidden := h, create_expanded := \<not> h, name_focused := (if h then name_focused s else True)\<rparr>)"

fun home_step :: "home \<Rightarrow> home_event \<Rightarrow> home \<times> unit list" where
  "home_step s HomeShown = (new_home, [])"
| "home_step s NewShown = (renderSessionsWithCreate, [])"
| "home_step s CreateClick = (create_click s, [])"
| "home_step s CancelCreate = (s\<lparr>panel_hidden := True, create_expanded := False, name_focused := False\<rparr>, [])"

definition home_sound :: "home \<Rightarrow> bool" where
  "home_sound s \<longleftrightarrow> length (filter nav_current (home_nav s)) = 1 \<and> (create_expanded s \<longleftrightarrow> \<not> panel_hidden s)"

interpretation dashboard_home: guarded_machine home_step home_sound "\<lambda>_ _. True"
proof
  show "home_sound (fst (home_step s e))" if "home_sound s" for s e
    using that by (cases e) (auto simp: home_sound_def new_home_def renderSessionsWithCreate_def create_click_def
        renderAppNavigation_def markAppNavigationActive_def Let_def)
qed

text \<open>The dashboard tells the truth about itself: always one entry of the navigation is the current one, and the
  button of the panel says that it is open exactly while it is.\<close>

theorem navigation_marks_one_place:
  fixes es :: "home_event list"
  shows "home_sound (fst (run_steps home_step new_home es))"
  by (rule dashboard_home.run_inv) (simp_all add: home_sound_def new_home_def renderAppNavigation_def guarded_all)

section \<open>Busy buttons\<close>

text \<open>What the four handlers do to their button: the text while the request is under way, and whether the text of a
  failure gives way to the old one after 1800 ms.\<close>

record button_kind =
  busy_text :: jsstring
  restores :: bool

definition open_button :: button_kind where
  "open_button = \<lparr>busy_text = js ''Opening'' @ ellipsis, restores = True\<rparr>"

definition duplicate_button :: button_kind where
  "duplicate_button = \<lparr>busy_text = js ''Creating'' @ ellipsis, restores = True\<rparr>"

definition stop_button :: button_kind where
  "stop_button = \<lparr>busy_text = js ''Stopping'' @ ellipsis, restores = False\<rparr>"

text \<open>A button with what its handlers have captured: a request remembers the text that was there before
  (\<open>originalText\<close>). A page that is built anew has a new button; \<open>b_built\<close> numbers them.\<close>

record button =
  b_text :: jsstring
  b_disabled :: bool
  b_built :: nat
  b_requests :: "(nat \<times> nat \<times> jsstring) list"      \<comment> \<open>request, button and text\<close>
  b_timers :: "(nat \<times> jsstring) list"               \<comment> \<open>button and text, in the order of their times\<close>
  b_next :: nat

datatype button_event = ButtonPress | ButtonAnswered nat | ButtonFails nat jsstring | TextTimer | Rebuilt jsstring

text \<open>
  For the stop button the press is the one whose question was answered with yes.
\<close>

definition button_press :: "button_kind \<Rightarrow> button \<Rightarrow> button \<times> nat list" where
  "button_press k b =
     (if b_disabled b then (b, [])
      else (b\<lparr>b_disabled := True, b_text := busy_text k, b_requests := b_requests b @ [(b_next b, b_built b, b_text b)],
              b_next := b_next b + 1\<rparr>, [b_next b]))"

definition drop_request :: "nat \<Rightarrow> button \<Rightarrow> button" where
  "drop_request n b = b\<lparr>b_requests := filter (\<lambda>(m, _). m \<noteq> n) (b_requests b)\<rparr>"

definition button_fails :: "button_kind \<Rightarrow> nat \<Rightarrow> jsstring \<Rightarrow> button \<Rightarrow> button" where
  "button_fails k n msg b =
     (case map_of (b_requests b) n of
        None \<Rightarrow> b
      | Some (built, old) \<Rightarrow>
          (let b1 = drop_request n b;
               b2 = (if built = b_built b then b1\<lparr>b_disabled := False, b_text := msg\<rparr> else b1)
           in if restores k then b2\<lparr>b_timers := b_timers b @ [(built, old)]\<rparr> else b2))"

definition text_timer :: "button \<Rightarrow> button" where
  "text_timer b =
     (case b_timers b of
        [] \<Rightarrow> b
      | (built, old) # ts \<Rightarrow>
          (let b1 = b\<lparr>b_timers := ts\<rparr> in if built = b_built b then b1\<lparr>b_text := old\<rparr> else b1))"

text \<open>\<open>Rebuilt\<close> is a rendering of the cards: by the polling, or by the answer of another action.\<close>

fun button_step :: "button_kind \<Rightarrow> button \<Rightarrow> button_event \<Rightarrow> button \<times> nat list" where
  "button_step k b ButtonPress = button_press k b"
| "button_step k b (ButtonAnswered n) = (drop_request n b, [])"
| "button_step k b (ButtonFails n msg) = (button_fails k n msg b, [])"
| "button_step k b TextTimer = (text_timer b, [])"
| "button_step k b (Rebuilt label) = (b\<lparr>b_text := label, b_disabled := False, b_built := b_built b + 1\<rparr>, [])"

definition fresh_button :: "jsstring \<Rightarrow> button" where
  "fresh_button label = \<lparr>b_text = label, b_disabled = False, b_built = 0, b_requests = [], b_timers = [], b_next = 0\<rparr>"

definition not_rebuilt :: "button \<Rightarrow> button_event \<Rightarrow> bool" where
  "not_rebuilt b e \<longleftrightarrow> (case e of Rebuilt _ \<Rightarrow> False | _ \<Rightarrow> True)"

definition button_sound :: "button \<Rightarrow> bool" where
  "button_sound b \<longleftrightarrow>
     length (b_requests b) \<le> 1 \<and> (b_disabled b \<or> b_requests b = []) \<and>
     list_all (\<lambda>(n, built, _). built = b_built b \<and> n < b_next b) (b_requests b)"

interpretation busy: guarded_machine "button_step k" button_sound not_rebuilt for k
proof
  show "button_sound (fst (button_step k b e))" if s: "button_sound b" "not_rebuilt b e" for b e
  proof (cases e)
    case (ButtonFails n msg)
    then show ?thesis
      using s by (cases "b_requests b")
        (simp_all add: button_sound_def button_fails_def drop_request_def Let_def case_prod_beta split: option.split if_split)
  next
    case (ButtonAnswered n)
    then show ?thesis using s by (cases "b_requests b") (auto simp: button_sound_def drop_request_def)
  qed (use s in \<open>auto simp: button_sound_def not_rebuilt_def button_press_def text_timer_def Let_def split: list.split\<close>)
qed

text \<open>A busy button sends one request: as long as the page is not built anew, however often it is pressed, at most
  one request of it is under way, and while one is the button takes no press.\<close>

theorem busy_button_sends_one:
  assumes "guarded (button_step k) not_rebuilt (fresh_button label) es"
  shows "let b = fst (run_steps (button_step k) (fresh_button label) es) in
    length (b_requests b) \<le> 1 \<and> (b_requests b = [] \<or> button_step k b ButtonPress = (b, []))"
proof -
  have "button_sound (fst (run_steps (button_step k) (fresh_button label) es))"
    using assms by (intro busy.run_inv) (simp_all add: button_sound_def fresh_button_def)
  then show ?thesis by (auto simp: button_sound_def button_press_def Let_def)
qed

text \<open>The polling arms it again: every rendering of the cards puts an enabled button in place of the busy one, so that
  with a press after each of them as many requests are under way as there were presses: a saved terminal is
  opened that many times.\<close>

theorem polling_rearms_busy_button:
  "length (b_requests (fst (run_steps (button_step k) b (concat (replicate n [Rebuilt label, ButtonPress]))))) =
     length (b_requests b) + n \<and>
   length (snd (run_steps (button_step k) b (concat (replicate n [Rebuilt label, ButtonPress])))) = n"
proof (induction n arbitrary: b)
  case (Suc n)
  show ?case
    using Suc.IH [of "fst (button_step k (fst (button_step k b (Rebuilt label))) ButtonPress)"]
    by (simp add: button_press_def del: Suc_eq_plus1)
qed simp

text \<open>An error can stay on the button: a second press within the 1800 ms takes the message of the first failure for
  the button's own text, and after a second failure that message is what the last timer puts back.\<close>

theorem error_becomes_label:
  assumes "restores k" "\<not> b_disabled b" "b_requests b = []" "b_timers b = []"
  shows "let b' = fst (run_steps (button_step k) b
      [ButtonPress, ButtonFails (b_next b) first, ButtonPress, ButtonFails (b_next b + 1) second, TextTimer, TextTimer]) in
    b_text b' = first \<and> \<not> b_disabled b' \<and> b_requests b' = [] \<and> b_timers b' = []"
  using assms by (simp add: button_press_def button_fails_def drop_request_def text_timer_def Let_def)

section \<open>Examples\<close>

theorem busy_button_sends_one_witness:
  "let b = fst (run_steps (button_step open_button) (fresh_button (js ''Open'')) [ButtonPress, ButtonPress]) in
     length (b_requests b) \<le> 1 \<and> (b_requests b = [] \<or> button_step open_button b ButtonPress = (b, []))"
  by (rule busy_button_sends_one) (simp add: not_rebuilt_def)

theorem old_prompt_drops_new_offer_witness:
  "installPrompt (fst (run_steps install_step \<lparr>installPrompt = Some 1, install_buttons = [False], in_shown = []\<rparr>
     [InstallClick 0, BeforeInstall 2, PromptEnds 1])) = None"
  by (rule old_prompt_drops_new_offer) simp_all

theorem error_becomes_label_witness:
  "b_text (fst (run_steps (button_step open_button) (fresh_button (js ''Open''))
     [ButtonPress, ButtonFails 0 (js ''offline''), ButtonPress, ButtonFails 1 (js ''busy''), TextTimer, TextTimer])) = js ''offline''"
  using error_becomes_label [of open_button "fresh_button (js ''Open'')" "js ''offline''" "js ''busy''"]
  by (simp add: fresh_button_def open_button_def Let_def del: button_step.simps)

end
