(* ===== verification/ServiceWorker.thy ===== *)
theory ServiceWorker
  imports JsPrelude
begin

text \<open>
  The service worker of the portal, \<open>apps/web/public/sw.js\<close>: what it puts into its cache and what it answers
  from it.

  The network and the cache's \<open>put\<close> are parameters of an event: what the request got (\<open>None\<close> is a failure)
  and whether the storage took the copy. A cache maps the address of a request, with its query, to a
  response.
\<close>

section \<open>Caches\<close>

record sw_request =
  req_get :: bool
  same_origin :: bool
  sw_path :: jsstring
  sw_query :: jsstring
  navigation :: bool

record sw_response =
  resp_ok :: bool
  resp_basic :: bool
  sw_body :: bytes

type_synonym cache = "(jsstring, sw_response) jsmap"

record worker =
  caches :: "(jsstring, cache) jsmap"

definition CACHE_NAME :: jsstring where
  "CACHE_NAME = js ''termlinks-app-shell-v48''"

definition APP_SHELL :: "jsstring list" where
  "APP_SHELL = map js [''/'', ''/index.html'', ''/assets/main.css'', ''/assets/main.js'', ''/manifest.webmanifest'',
     ''/icons/icon-192.png'', ''/icons/icon-512.png'', ''/icons/icon-maskable-512.png'', ''/icons/apple-touch-icon.png'']"

definition open_cache :: "jsstring \<Rightarrow> worker \<Rightarrow> cache" where
  "open_cache n w = (case map_get (caches w) n of Some c \<Rightarrow> c | None \<Rightarrow> [])"

definition cache_put :: "jsstring \<Rightarrow> sw_response \<Rightarrow> worker \<Rightarrow> worker" where
  "cache_put key r w = w\<lparr>caches := map_set CACHE_NAME (map_set key r (open_cache CACHE_NAME w)) (caches w)\<rparr>"

definition address :: "sw_request \<Rightarrow> jsstring" where
  "address q = sw_path q @ sw_query q"

section \<open>Events\<close>

text \<open>\<open>addAll\<close> fetches every file and stores all of them or, if one is not there, none; the flag is whether
  the installation succeeded.\<close>

definition install :: "(jsstring \<Rightarrow> sw_response option) \<Rightarrow> worker \<Rightarrow> worker \<times> bool" where
  "install net w =
     (if list_all (\<lambda>p. case net p of Some r \<Rightarrow> resp_ok r | None \<Rightarrow> False) APP_SHELL
      then (fold (\<lambda>p w. case net p of Some r \<Rightarrow> cache_put p r w | None \<Rightarrow> w) APP_SHELL w, True)
      else (w\<lparr>caches := map_set CACHE_NAME (open_cache CACHE_NAME w) (caches w)\<rparr>, False))"

definition activate :: "worker \<Rightarrow> worker" where
  "activate w = w\<lparr>caches := filter (\<lambda>(n, _). n = CACHE_NAME) (caches w)\<rparr>"

datatype sw_answer = NotHandled | Answered sw_response | NetworkError

definition networkWithCacheFallback ::
  "sw_request \<Rightarrow> jsstring option \<Rightarrow> sw_response option \<Rightarrow> bool \<Rightarrow> worker \<Rightarrow> worker \<times> sw_answer" where
  "networkWithCacheFallback q fallback net put_works w =
     (let from_cache = (\<lambda>w. case map_get (open_cache CACHE_NAME w) (address q) of
            Some r \<Rightarrow> Answered r
          | None \<Rightarrow> (case fallback of
                       None \<Rightarrow> NetworkError
                     | Some p \<Rightarrow> (case map_get (open_cache CACHE_NAME w) p of Some r \<Rightarrow> Answered r | None \<Rightarrow> NetworkError)))
      in case net of
           None \<Rightarrow> (w, from_cache w)
         | Some r \<Rightarrow>
             if resp_ok r \<and> resp_basic r
             then (if put_works then (cache_put (address q) r w, Answered r) else (w, from_cache w))
             else (w, Answered r))"

definition is_static :: "sw_request \<Rightarrow> bool" where
  "is_static q \<longleftrightarrow>
     starts_with (js ''/assets/'') (sw_path q) \<or> starts_with (js ''/icons/'') (sw_path q) \<or> sw_path q = js ''/manifest.webmanifest''"

definition fetch_event :: "sw_request \<Rightarrow> sw_response option \<Rightarrow> bool \<Rightarrow> worker \<Rightarrow> worker \<times> sw_answer" where
  "fetch_event q net put_works w =
     (if \<not> req_get q then (w, NotHandled)
      else if \<not> same_origin q \<or> starts_with (js ''/api/'') (sw_path q) \<or> starts_with (js ''/ws/'') (sw_path q) then (w, NotHandled)
      else if navigation q then networkWithCacheFallback q (Some (js ''/index.html'')) net put_works w
      else if is_static q then networkWithCacheFallback q None net put_works w
      else (w, NotHandled))"

datatype sw_event =
    Install "jsstring \<Rightarrow> sw_response option" | Activate | FetchEvent sw_request "sw_response option" bool

fun sw_step :: "worker \<Rightarrow> sw_event \<Rightarrow> worker \<times> sw_answer list" where
  "sw_step w (Install net) = (fst (install net w), [])"
| "sw_step w Activate = (activate w, [])"
| "sw_step w (FetchEvent q net ok) = (let (w1, a) = fetch_event q net ok w in (w1, [a]))"

section \<open>What is cached\<close>

text \<open>The addresses that belong to the computer.\<close>

definition private_path :: "jsstring \<Rightarrow> bool" where
  "private_path p \<longleftrightarrow> starts_with (js ''/api/'') p \<or> starts_with (js ''/ws/'') p"

definition cache_clean :: "worker \<Rightarrow> bool" where
  "cache_clean w \<longleftrightarrow> (\<forall>(k, r)\<in>set (open_cache CACHE_NAME w). \<not> private_path k \<and> resp_ok r)"

lemma open_cache_put [simp]: "open_cache CACHE_NAME (cache_put k r w) = map_set k r (open_cache CACHE_NAME w)"
  by (simp add: open_cache_def cache_put_def)

lemma set_map_set: "(k', v') \<in> set (map_set k v m) \<Longrightarrow> (k', v') = (k, v) \<or> (k', v') \<in> set m"
  by (induction k v m rule: map_set.induct) (auto split: if_splits)

lemma clean_put: "cache_clean w \<Longrightarrow> \<not> private_path k \<Longrightarrow> resp_ok r \<Longrightarrow> cache_clean (cache_put k r w)"
  unfolding cache_clean_def by (auto dest!: set_map_set)

lemma starts_with_append: "length p \<le> length s \<Longrightarrow> starts_with p (s @ t) = starts_with p s"
  by (simp add: starts_with_def)

text \<open>A query does not turn a path into a private one.\<close>

lemma private_address:
  assumes "\<not> private_path p" "t = [] \<or> hd t = 63"
  shows "\<not> private_path (p @ t)"
proof -
  have "\<not> starts_with x (p @ t)" if x: "x \<in> {js ''/api/'', js ''/ws/''}" for x
  proof
    assume s: "starts_with x (p @ t)"
    show False
    proof (cases "length x \<le> length p")
      case True
      then show False using s assms(1) x by (auto simp: private_path_def starts_with_append)
    next
      case False
      then obtain y z where t: "t = y # z" "length p < length x"
        using s by (cases t) (auto simp: starts_with_def)
      then have "(p @ t) ! length p = 63" "x ! length p = (p @ t) ! length p"
        using assms(2) s by (simp, metis nth_take starts_with_def)
      then have "63 \<in> set x" using t(2) nth_mem by metis
      then show False using x by (auto simp: js_def)
    qed
  qed
  then show ?thesis by (simp add: private_path_def)
qed

lemma shell_public: "p \<in> set APP_SHELL \<Longrightarrow> \<not> private_path p"
  by (auto simp: APP_SHELL_def private_path_def starts_with_def js_def)

lemma clean_install: "cache_clean w \<Longrightarrow> cache_clean (fst (install net w))"
proof -
  assume w: "cache_clean w"
  have all: "cache_clean (fold (\<lambda>p w. case net p of Some r \<Rightarrow> cache_put p r w | None \<Rightarrow> w) ps w)"
    if "\<forall>p\<in>set ps. \<not> private_path p \<and> (case net p of Some r \<Rightarrow> resp_ok r | None \<Rightarrow> False)" for ps
    using w that
  proof (induction ps arbitrary: w)
    case (Cons p ps)
    then show ?case by (auto intro!: clean_put split: option.splits)
  qed simp
  show ?thesis
  proof (cases "list_all (\<lambda>p. case net p of Some r \<Rightarrow> resp_ok r | None \<Rightarrow> False) APP_SHELL")
    case True
    then have "\<forall>p\<in>set APP_SHELL. \<not> private_path p \<and> (case net p of Some r \<Rightarrow> resp_ok r | None \<Rightarrow> False)"
      using shell_public by (simp add: list_all_iff)
    then show ?thesis using True by (simp add: install_def all)
  next
    case False
    then show ?thesis using w by (simp add: install_def cache_clean_def open_cache_def)
  qed
qed

fun proper_event :: "sw_event \<Rightarrow> bool" where
  "proper_event (FetchEvent q net ok) = (sw_query q = [] \<or> hd (sw_query q) = 63)"
| "proper_event e = True"

lemma clean_fetch:
  assumes "cache_clean w" "sw_query q = [] \<or> hd (sw_query q) = 63"
  shows "cache_clean (fst (fetch_event q net ok w))"
proof -
  have n: "cache_clean (fst (networkWithCacheFallback q f net ok w))" if "\<not> private_path (sw_path q)" for f
    using assms(1) clean_put [OF assms(1) private_address [OF that assms(2)]]
    by (auto simp: networkWithCacheFallback_def address_def Let_def split: option.split)
  show ?thesis
    using assms(1) n by (simp add: fetch_event_def private_path_def)
qed

lemma open_cache_activate [simp]: "open_cache CACHE_NAME (activate w) = open_cache CACHE_NAME w"
proof -
  have "map_of (filter (\<lambda>(n, _). n = CACHE_NAME) m) CACHE_NAME = map_of m CACHE_NAME" for m :: "(jsstring, cache) jsmap"
    by (induction m) auto
  then show ?thesis by (simp add: open_cache_def activate_def)
qed

lemma clean_step:
  assumes "cache_clean w" "proper_event e"
  shows "cache_clean (fst (sw_step w e))"
proof (cases e)
  case (Install net)
  then show ?thesis using clean_install [OF assms(1)] by simp
next
  case Activate
  then show ?thesis using assms(1) by (simp add: cache_clean_def)
next
  case (FetchEvent q net ok)
  then show ?thesis using clean_fetch [OF assms(1)] assms(2) by (simp add: case_prod_beta)
qed

lemma clean_run: "cache_clean w \<Longrightarrow> list_all proper_event es \<Longrightarrow> cache_clean (fst (run_steps sw_step w es))"
proof (induction es arbitrary: w)
  case (Cons e es)
  then have "cache_clean (fst (sw_step w e))" by (simp add: clean_step)
  then show ?case using Cons.IH Cons.prems(2) by (simp del: sw_step.simps)
qed simp

text \<open>C26. The cache holds no data of the computer: in every run no address under \<open>/api/\<close> or \<open>/ws/\<close> is ever stored, no
  failed response is, and such requests are left to the browser.\<close>

theorem cache_holds_no_private_data:
  assumes "list_all proper_event es"
  shows "cache_clean (fst (run_steps sw_step \<lparr>caches = []\<rparr> es)) \<and>
    (private_path (sw_path q) \<longrightarrow> fetch_event q net ok w = (w, NotHandled))"
proof
  show "cache_clean (fst (run_steps sw_step \<lparr>caches = []\<rparr> es))"
    using assms by (intro clean_run) (simp_all add: cache_clean_def open_cache_def)
  show "private_path (sw_path q) \<longrightarrow> fetch_event q net ok w = (w, NotHandled)"
    by (auto simp: fetch_event_def private_path_def)
qed

section \<open>Offline\<close>

lemma cached_kept:
  "map_of (open_cache CACHE_NAME w) k \<noteq> None \<Longrightarrow> map_of (open_cache CACHE_NAME (fst (sw_step w e))) k \<noteq> None"
proof (cases e)
  case (Install net)
  have "map_of (open_cache CACHE_NAME (fold (\<lambda>p w. case net p of Some r \<Rightarrow> cache_put p r w | None \<Rightarrow> w) ps w)) k \<noteq> None"
    if "map_of (open_cache CACHE_NAME w) k \<noteq> None" for ps
    using that by (induction ps arbitrary: w) (auto split: option.splits)
  moreover assume "map_of (open_cache CACHE_NAME w) k \<noteq> None"
  ultimately show ?thesis
    using Install by (simp add: install_def) (simp add: open_cache_def)
next
  case (FetchEvent q net ok)
  moreover assume "map_of (open_cache CACHE_NAME w) k \<noteq> None"
  ultimately show ?thesis
    by (auto simp: fetch_event_def networkWithCacheFallback_def Let_def case_prod_beta split: option.splits)
qed simp_all

lemma installed_has: "snd (install net w) \<Longrightarrow> p \<in> set APP_SHELL \<Longrightarrow> map_of (open_cache CACHE_NAME (fst (install net w))) p \<noteq> None"
proof -
  have "map_of (open_cache CACHE_NAME (fold (\<lambda>p w. case net p of Some r \<Rightarrow> cache_put p r w | None \<Rightarrow> w) ps w)) k \<noteq> None"
    if "k \<in> set ps \<or> map_of (open_cache CACHE_NAME w) k \<noteq> None" "\<forall>p\<in>set ps. net p \<noteq> None" for ps k w
    using that by (induction ps arbitrary: w) auto
  then show "snd (install net w) \<Longrightarrow> p \<in> set APP_SHELL \<Longrightarrow> map_of (open_cache CACHE_NAME (fst (install net w))) p \<noteq> None"
    by (auto simp: install_def list_all_iff split: if_splits option.splits)
qed


text \<open>A full storage hides the network: when the copy of a good response cannot be stored, the response is thrown
  away, and the answer is what the cache has, or an error.\<close>

theorem full_storage_discards_response:
  assumes "req_get q" "same_origin q" "is_static q" "\<not> navigation q" "\<not> private_path (sw_path q)" "resp_ok r" "resp_basic r"
  shows "snd (fetch_event q (Some r) False w) =
    (case map_of (open_cache CACHE_NAME w) (address q) of Some old \<Rightarrow> Answered old | None \<Rightarrow> NetworkError)"
  using assms by (simp add: fetch_event_def private_path_def networkWithCacheFallback_def Let_def split: option.split)

section \<open>Examples\<close>

definition demo_asset :: sw_request where
  "demo_asset = \<lparr>req_get = True, same_origin = True, sw_path = js ''/assets/main.js'', sw_query = [], navigation = False\<rparr>"

definition good_response :: sw_response where
  "good_response = \<lparr>resp_ok = True, resp_basic = True, sw_body = []\<rparr>"

lemma demo_asset_facts [simp]:
  "req_get demo_asset" "same_origin demo_asset" "is_static demo_asset" "\<not> navigation demo_asset" "\<not> private_path (sw_path demo_asset)"
  "resp_ok good_response" "resp_basic good_response" "address demo_asset = js ''/assets/main.js''" "sw_query demo_asset = []"
  by (simp_all add: demo_asset_def is_static_def private_path_def starts_with_def good_response_def address_def js_def)

theorem cache_holds_no_private_data_witness:
  "cache_clean (fst (run_steps sw_step \<lparr>caches = []\<rparr> [Install (\<lambda>_. Some good_response), Activate, FetchEvent demo_asset (Some good_response) True]))"
  using cache_holds_no_private_data [of "[Install (\<lambda>_. Some good_response), Activate, FetchEvent demo_asset (Some good_response) True]"]
  by simp


theorem full_storage_discards_response_witness:
  "snd (fetch_event demo_asset (Some good_response) False \<lparr>caches = []\<rparr>) = NetworkError"
  using full_storage_discards_response [of demo_asset good_response "\<lparr>caches = []\<rparr>"] by (simp add: open_cache_def)

end
