(* ===== verification/PagesProxy.thy ===== *)
theory PagesProxy
  imports RelaySafety
begin

text \<open>
  The function of the portal's host, \<open>apps/web/functions/[[path]].js\<close>: it passes what the browser asks for under
  \<open>/ws/\<close> on to the relay. Parsing of URLs is a parameter; a parsed one is a record, whose path has no dot
  segments. \<open>new URL(path + search, origin)\<close> for such a path, which begins with a single slash, keeps the
  rest of the origin (\<open>resolve\<close>). Header names are lower-case.
\<close>

section \<open>The function\<close>

record web_url =
  u_protocol :: jsstring
  u_user :: jsstring
  u_password :: jsstring
  u_host :: jsstring
  u_port :: jsstring
  u_path :: jsstring
  u_query :: jsstring
  u_hash :: jsstring

record page_request =
  incoming :: web_url
  p_method :: jsstring
  p_headers :: "(jsstring, jsstring) jsmap"
  p_body :: "bytes option"

datatype pages_answer = NextHandler | Unconfigured nat "(string \<times> string) list" json | Forward web_url page_request

definition localDevelopment :: "web_url \<Rightarrow> bool" where
  "localDevelopment u \<longleftrightarrow> u_protocol u = js ''http:'' \<and> (u_host u = js ''127.0.0.1'' \<or> u_host u = js ''localhost'')"

definition validRelayOrigin :: "(jsstring \<Rightarrow> web_url option) \<Rightarrow> json option \<Rightarrow> web_url option" where
  "validRelayOrigin parse v =
     (case as_string v of
        None \<Rightarrow> None
      | Some t \<Rightarrow>
          (case parse t of
             None \<Rightarrow> None
           | Some u \<Rightarrow>
               if u_protocol u \<noteq> js ''https:'' \<and> \<not> localDevelopment u then None
               else if u_user u \<noteq> [] \<or> u_password u \<noteq> [] \<or> u_path u \<noteq> js ''/'' \<or> u_query u \<noteq> [] \<or> u_hash u \<noteq> [] then None
               else Some u))"

definition resolve :: "web_url \<Rightarrow> web_url \<Rightarrow> web_url" where
  "resolve origin u = origin\<lparr>u_path := u_path u, u_query := u_query u\<rparr>"

definition onRequest :: "(jsstring \<Rightarrow> web_url option) \<Rightarrow> json option \<Rightarrow> page_request \<Rightarrow> pages_answer" where
  "onRequest parse relay_origin q =
     (if \<not> starts_with (js ''/ws/'') (u_path (incoming q)) then NextHandler
      else
        case validRelayOrigin parse relay_origin of
          None \<Rightarrow> Unconfigured 503 [(''Cache-Control'', ''no-store'')] (jmsg [(''error'', jstr ''RELAY_ORIGIN is not configured for this Pages project'')])
        | Some origin \<Rightarrow>
            Forward (resolve origin (incoming q)) (q\<lparr>p_headers := map_delete (js ''host'') (p_headers q)\<rparr>))"

section \<open>Through the portal to the relay\<close>

text \<open>What the relay's worker receives.\<close>

definition relay_request :: "web_url \<Rightarrow> page_request \<Rightarrow> request" where
  "relay_request target q = \<lparr>pathname = u_path target, req_method = p_method q, headers = p_headers q\<rparr>"

lemma ws_is_not_connector: "starts_with (js ''/ws/'') p \<Longrightarrow> p \<noteq> js ''/connector''"
  by (auto simp: starts_with_def js_def)

lemma through_worker:
  "pathname q \<noteq> js ''/connector'' \<Longrightarrow> relay_step w r (Request q ch) =
     fst (relay_fetch (q\<lparr>headers := map_delete (js ''x-termlinks-connector'') (map_delete (js ''authorization'') (headers q))\<rparr>) ch r)"
  by (simp add: worker_fetch_def Let_def)

lemma forwarded:
  assumes "onRequest parse v q = Forward t p"
  shows "\<exists>origin. validRelayOrigin parse v = Some origin \<and> t = resolve origin (incoming q) \<and>
    starts_with (js ''/ws/'') (u_path t) \<and> p = q\<lparr>p_headers := map_delete (js ''host'') (p_headers q)\<rparr>"
  using assms by (auto simp: onRequest_def resolve_def split: if_splits option.splits)

lemma valid_origin:
  assumes "validRelayOrigin parse v = Some u"
  shows "(u_protocol u = js ''https:'' \<or> localDevelopment u) \<and> u_user u = [] \<and> u_password u = []"
  using assms by (auto simp: validRelayOrigin_def split: option.splits if_splits)


section \<open>Examples\<close>

definition demo_origin :: web_url where
  "demo_origin = \<lparr>u_protocol = js ''https:'', u_user = [], u_password = [], u_host = js ''relay.example'', u_port = [],
     u_path = js ''/'', u_query = [], u_hash = []\<rparr>"

definition demo_page_request :: page_request where
  "demo_page_request = \<lparr>incoming = demo_origin\<lparr>u_host := js ''portal.example'', u_path := js ''/ws/bridge''\<rparr>, p_method = js ''GET'',
     p_headers = [(js ''host'', js ''portal.example''), (js ''upgrade'', js ''websocket''),
       (js ''x-termlinks-connector'', js ''authorized'')], p_body = None\<rparr>"

definition demo_forwarded :: page_request where
  "demo_forwarded = demo_page_request\<lparr>p_headers := map_delete (js ''host'') (p_headers demo_page_request)\<rparr>"

lemma demo_proxied:
  "onRequest (\<lambda>_. Some demo_origin) (Some (JStr [])) demo_page_request =
     Forward (resolve demo_origin (incoming demo_page_request)) demo_forwarded"
  by (simp add: onRequest_def validRelayOrigin_def demo_page_request_def demo_origin_def demo_forwarded_def
      starts_with_def js_def)


end
