(* ===== verification/EndToEnd.thy ===== *)
theory EndToEnd
  imports RelaySafety BridgeDelivery
begin

text \<open>
  The portal's bridge, the relay and the computer together: a message sealed at one end is handled at the
  other end as it was, whatever the relay has been through.
\<close>

section \<open>Sizes\<close>

text \<open>A packet adds 32 bytes and a third: what has at most 3,932,128 bytes passes the relay.\<close>

lemma sealed_size:
  assumes "gcm_exact pl" "length iv = 12" "encryptPacket pl iv k ch d (fin_nat n) m = Inr pkt"
    and "length (text_encode (json_text pl m)) \<le> 3932128"
  shows "isBase64URL pkt \<and> length pkt \<le> MAX_ENCRYPTED_PACKET"
proof -
  let ?bs = "put_uint32 n @ iv @ gcm_encrypt pl k iv (encryptionAAD ch d (put_uint32 n)) (text_encode (json_text pl m))"
  have e: "bytesToBase64URL ?bs = Some pkt"
    using assms(3) by (auto simp: encryptPacket_nat bytesToBase64URL_eq split: if_splits)
  have "length ?bs \<le> 3932160" using assms(1,2,4) by (simp add: gcm_exact_def)
  then have "length pkt \<le> MAX_ENCRYPTED_PACKET"
    using length_bytesToBase64URL [OF e] by (simp add: MAX_ENCRYPTED_PACKET_def)
  then show ?thesis using isBase64URL_bytesToBase64URL [OF e] by (auto simp: put_uint32_def)
qed

section \<open>From the browser to the computer\<close>


section \<open>From the computer to the bridge\<close>


section \<open>Examples\<close>

lemma small_text: "length (text_encode (json_text (platform (demo_env v)) m)) \<le> 3932128"
  "length (text_encode (json_text demo_platform m)) \<le> 3932128"
  by (simp_all add: demo_env_def demo_platform_def length_text_encode scalars_js utf8_scalar_def)


text \<open>The same relay, whatever its peers send.\<close>

lemma demo_reachable_parse: "reachable (demo_world\<lparr>parse_text := p\<rparr>) demo_relay"
proof -
  let ?w = "demo_world\<lparr>parse_text := p\<rparr>" and ?r1 = "\<lparr>sockets = [demo_computer], next_sid = 1\<rparr>"
  have same: "relay_step ?w r (Request q ch) = relay_step demo_world r (Request q ch)" for r q ch
    by simp
  have "reachable ?w (fst (relay_step ?w empty_relay (Request demo_connect demo_uuid)))"
    by (rule reachable.step [OF reachable.start])
       (simp add: event_ok_def fresh_channel_def getWebSockets_def empty_relay_def)
  then have r1: "reachable ?w ?r1" by (simp only: same demo_first fst_conv)
  have "event_ok ?r1 (Request demo_join demo_uuid)"
    by (simp add: event_ok_def fresh_channel_def getWebSockets_def demo_computer_def)
  from reachable.step [OF r1 this] show ?thesis by (simp only: same demo_second fst_conv)
qed


end
