(* ===== verification/Spec2Isabelle.thy ===== *)
theory Spec2Isabelle
  imports E2ePacket ReplyGate StreamReconciler SavedHistory RelaySafety BridgeDelivery TerminalPageSafety PortalSafety
    Upload DashboardCards TeamRoomSafety RemoteDesktopSafety TouchScrollSafety PageShell ServiceWorker PagesProxy EndToEnd
begin

text \<open>
  A verification development for termlinks, a portal that shows the terminals, agents, desktop and
  windows of one's own computer in a browser, through a relay that cannot read what it forwards.

  \<^bold>\<open>The program.\<close> The page (\<open>apps/web/src/main.ts\<close>) logs in with a token, derives a key from it and connects an
  \<open>EncryptedBridge\<close> to the relay (\<open>apps/relay/src/index.ts\<close>), through the function of the portal's host
  (\<open>apps/web/functions\<close>). The relay keeps one connector, the computer, and up to eight browsers, each with a
  channel, and passes sealed packets (\<open>e2e.ts\<close>) between them. Over the bridge run requests to the computer's API,
  the streams of terminals, of the desktop and of single windows, and uploads. The pages of the portal (sessions,
  one terminal, AI work, remote desktop) share one \<open>state\<close> object, timers and the bridge. The program for the
  computer is written in Go; here it is the environment, whose packets are arbitrary.

  \<^bold>\<open>The theories.\<close>
  \<^item> \<open>JsPrelude\<close>: strings as UTF-16 code units, numbers, JSON values, insertion-ordered maps, runs of step functions;
    the locale \<open>keyed_store\<close>. \<open>Runs\<close>: runs in which every event is allowed where it happens; the locales
    \<open>guarded_machine\<close> (an invariant) and \<open>guarded_outputs\<close> (and a promise of the outputs), interpreted on the pages.
  \<^item> \<open>Utf8\<close>, \<open>Base64Url\<close>, \<open>E2ePacket\<close>: the text coders, \<open>bytesToBase64URL\<close> with its chunks and its inverse, and
    \<open>encryptPacket\<close>, \<open>decryptPacket\<close> with sequence numbers on 32 bits and their additional data. Round trips, equivalence
    of the encoder with base64url, separation of channels, directions and numbers.
  \<^item> \<open>Relay\<close>, \<open>RelaySafety\<close>: every method of \<open>TermlinksRelay\<close> and the worker in front of it, over the list of sockets
    that the runtime keeps. Invariant of the reachable states, where frames come from, what closes what.
  \<^item> \<open>PagesProxy\<close>: \<open>onRequest\<close> of the portal's host, and that nobody becomes the computer through it.
  \<^item> \<open>Links\<close>: the three \<open>Encrypted...Link\<close> classes. \<open>Bridge\<close>, \<open>BridgeSafety\<close>, \<open>BridgeDelivery\<close>: \<open>EncryptedBridge\<close>
    with its tables of requests, links, lists and uploads; its two promise chains are queues whose links are steps.
    Order on the wire, promises that settle once, the login, losses.
  \<^item> \<open>EndToEnd\<close>: bridge, packets and relay together, in both directions.
  \<^item> \<open>ReplyGate\<close>, \<open>StreamReconciler\<close>, \<open>TerminalText\<close>, \<open>SavedHistory\<close>: the small modules \<open>terminal-*.ts\<close>.
  \<^item> \<open>Sessions\<close>: \<open>Session\<close> and the labels. \<open>TerminalConn\<close>, \<open>TerminalSafety\<close>: the terminal page, from \<open>connectTerminal\<close> and
    the reconnection to \<open>fitTerminal\<close> and all ways of input; sessions are objects in a store, since the code
    compares and mutates them by reference.
  \<^item> \<open>TabOrder\<close>: the tabs, their stored order, keyboard and pointer gestures. \<open>TerminalPage\<close>, \<open>TerminalPageSafety\<close>: what stands
    around the terminal: back button, menu, tabs, attachment button, the keys of the composer, and the terminals
    opened from a room; where the back button leads and what the menu reaches.
  \<^item> \<open>Portal\<close>, \<open>PortalSafety\<close>: \<open>boot\<close>, \<open>renderLogin\<close>, \<open>resumeEncryptedPortal\<close>, \<open>api\<close>, \<open>loadSessions\<close>, logout, the stored key
    and view. \<open>Upload\<close>: \<open>uploadFile\<close> and the choice of files. \<open>Dashboard\<close>, \<open>DashboardSafety\<close>, \<open>DashboardCards\<close>: the actions
    on terminals, and the cards.
  \<^item> \<open>TeamRoom\<close>, \<open>TeamRoomSafety\<close>: AI work: the form and its agents and projects, the list of rooms, the page of a room with
    its participants, feed and composer, and the intervals. \<open>RemoteDesktop\<close>, \<open>RemoteDesktopSafety\<close>: the page of the
    desktop, the windows it offers, and its input.
  \<^item> \<open>PageShell\<close>: installing the app, the navigation, the panel for a new terminal, busy buttons.
  \<^item> \<open>TouchScroll\<close>, \<open>TouchScrollSafety\<close>: touch, layout and text of a terminal.
  \<^item> \<open>ServiceWorker\<close>: \<open>sw.js\<close>.

  \<^bold>\<open>Correspondence.\<close> A record is named after the object it stands for and its fields after the variables; an
  operation has the name of its function, or of the handler it is. It takes the state and returns the new state
  with the list of its effects. What the code awaits splits a function: the part up to the await records what is
  pending, the answer is an event of its own, and so are timers, animation frames and callbacks; the step
  function of a component (\<open>bridge_step\<close>, \<open>relay_step\<close>, \<open>portal_step\<close>, \<open>dash_step\<close>, ...) takes such an event, and
  the properties are about all sequences of events, so about all orders in which answers and losses can arrive.
  Exceptions are values of a sum or an option.

  \<^bold>\<open>Parameters.\<close> SHA-256, AES-GCM, key import, JSON, \<open>Date.parse\<close>, URL parsing, \<open>toUpperCase\<close>, the terminal emulator, the VNC
  client, the decoder of images, network and storage. What is used of them is a named hypothesis (\<open>gcm_exact\<close>,
  \<open>json_faithful\<close>), and each theorem with one has a witness that instantiates it. The canvas is assumed to give its
  context.

  \<^bold>\<open>Bounds.\<close> There is no fuel: loops are structural or have a measure, and \<open>actions_end\<close> bounds the answers that keep an
  action going. Words are kept at their width where it matters: bytes, code units and the sequence number.
  Coordinates, sizes and times are exact rationals, so the rounding of doubles is not modelled.

  \<^bold>\<open>Not modelled.\<close> The construction of the DOM and styles, since nothing is decided there that is not in the state of a
  component; the settings of the emulator and of the VNC client; the scripts that build and test, which start
  processes and a browser; the Go and Objective-C code of the computer. A failure of the worker itself (status 500)
  is outside the relay's model, too.
\<close>

end
